(* ===== verification/Prelude.thy ===== *)
theory Prelude
  imports Main "HOL-Library.Word"
begin

text \<open>
  Prelude of the development: the machine types, the outcome type of the modelled
  functions, checked access to byte buffers, little-endian encoding of 16 and 32 bit
  integers, and the collections of rewrite rules the component theories share.

  The program is C. A run of a C function either returns or leaves the defined
  behaviour of the language (a null pointer is followed, a buffer is overrun, an
  \<^verbatim>\<open>assert\<close> fails, a shift count is out of range). The second kind of end is a
  value of \<open>fault\<close>, so a modelled function has the type \<open>'a res\<close>, and "does not
  crash" is a statement that can be proved.
\<close>

unbundle bit_operations_syntax

named_theorems wf_intros \<open>introduction rules for well-formedness of states\<close>
named_theorems buf_simps \<open>rewrite rules for checked buffer access\<close>
named_theorems frame_simps \<open>what an operation leaves unchanged\<close>


section \<open>Machine types\<close>

type_synonym u8 = "8 word"
type_synonym u16 = "16 word"
type_synonym u32 = "32 word"
type_synonym bytes = "u8 list"


section \<open>Outcomes\<close>

datatype fault =
    Null_deref       \<comment> \<open>a null or otherwise invalid pointer is followed\<close>
  | Out_of_bounds    \<comment> \<open>a read, write or copy leaves its buffer\<close>
  | Overlap          \<comment> \<open>\<^verbatim>\<open>memcpy\<close> on overlapping regions\<close>
  | Assert_failed    \<comment> \<open>\<^verbatim>\<open>assert\<close> fails and the process aborts\<close>
  | Bad_shift        \<comment> \<open>a shift count outside the width of its operand\<close>
  | Out_of_fuel      \<comment> \<open>the call depth given to the model is used up\<close>

type_synonym 'a res = "fault + 'a"

definition rbind :: "'a res \<Rightarrow> ('a \<Rightarrow> 'b res) \<Rightarrow> 'b res" where
  "rbind m f = (case m of Inl e \<Rightarrow> Inl e | Inr x \<Rightarrow> f x)"

lemma rbind_Inr [simp]: "rbind (Inr x) f = f x"
  by (simp add: rbind_def)

lemma rbind_Inl [simp]: "rbind (Inl e) f = Inl e"
  by (simp add: rbind_def)

lemma rbind_eq_Inr: "rbind m f = Inr y \<longleftrightarrow> (\<exists>x. m = Inr x \<and> f x = Inr y)"
  by (cases m) simp_all

lemma rbind_InrE:
  assumes "rbind m f = Inr y"
  obtains x where "m = Inr x" and "f x = Inr y"
  using assms by (auto simp: rbind_eq_Inr)

lemma rbind_cong [fundef_cong]:
  "m = m' \<Longrightarrow> (\<And>x. m' = Inr x \<Longrightarrow> f x = g x) \<Longrightarrow> rbind m f = rbind m' g"
  by (cases m') simp_all

lemma rbind_assoc: "rbind (rbind m f) g = rbind m (\<lambda>x. rbind (f x) g)"
  by (cases m) simp_all

text \<open>A pointer that may be null is an \<open>option\<close>; \<open>deref\<close> follows it.\<close>

definition deref :: "'a option \<Rightarrow> 'a res" where
  "deref p = (case p of None \<Rightarrow> Inl Null_deref | Some x \<Rightarrow> Inr x)"

lemma deref_simps [simp]: "deref None = Inl Null_deref" "deref (Some x) = Inr x"
  by (simp_all add: deref_def)

lemma deref_eq_Inr: "deref p = Inr x \<longleftrightarrow> p = Some x"
  by (cases p) simp_all


section \<open>Byte buffers\<close>

text \<open>
  A buffer is the list of its bytes; a pointer into it is an offset. \<open>rd b p n\<close> reads
  \<open>n\<close> bytes at \<open>p\<close> and \<open>wr b p xs\<close> overwrites the bytes at \<open>p\<close> with \<open>xs\<close>
  (\<^verbatim>\<open>memcpy\<close>, \<^verbatim>\<open>memset\<close> and stores through a struct pointer). Both fail when
  the accessed range leaves the buffer.
\<close>

definition rd :: "bytes \<Rightarrow> nat \<Rightarrow> nat \<Rightarrow> bytes res" where
  "rd b p n = (if p + n \<le> length b then Inr (take n (drop p b)) else Inl Out_of_bounds)"

definition splice :: "bytes \<Rightarrow> nat \<Rightarrow> bytes \<Rightarrow> bytes" where
  "splice b p xs = take p b @ xs @ drop (p + length xs) b"

definition wr :: "bytes \<Rightarrow> nat \<Rightarrow> bytes \<Rightarrow> bytes res" where
  "wr b p xs = (if p + length xs \<le> length b then Inr (splice b p xs) else Inl Out_of_bounds)"

definition zeros :: "nat \<Rightarrow> bytes" where
  "zeros n = replicate n 0"

lemma length_zeros [simp]: "length (zeros n) = n"
  by (simp add: zeros_def)

lemma take_zeros [simp]: "take n (zeros m) = zeros (min n m)"
  by (simp add: zeros_def min_def)

lemma drop_zeros [simp]: "drop n (zeros m) = zeros (m - n)"
  by (simp add: zeros_def)

lemma rd_ok [buf_simps]: "p + n \<le> length b \<Longrightarrow> rd b p n = Inr (take n (drop p b))"
  by (simp add: rd_def)

lemma wr_ok [buf_simps]: "p + length xs \<le> length b \<Longrightarrow> wr b p xs = Inr (splice b p xs)"
  by (simp add: wr_def)

lemma rd_InrD: "rd b p n = Inr xs \<Longrightarrow> xs = take n (drop p b) \<and> p + n \<le> length b \<and> length xs = n"
  by (auto simp: rd_def split: if_splits)

lemma wr_InrD: "wr b p xs = Inr b' \<Longrightarrow> b' = splice b p xs \<and> p + length xs \<le> length b"
  by (auto simp: wr_def split: if_splits)

lemma length_splice [simp]: "p + length xs \<le> length b \<Longrightarrow> length (splice b p xs) = length b"
  by (simp add: splice_def)

lemma take_drop_splice_same [simp]:
  "p + length xs \<le> length b \<Longrightarrow> take (length xs) (drop p (splice b p xs)) = xs"
  by (simp add: splice_def)

lemma take_drop_splice_before:
  assumes "q + n \<le> p" and "p + length xs \<le> length b"
  shows "take n (drop q (splice b p xs)) = take n (drop q b)"
proof -
  have "take n (drop q (take p b)) = take n (drop q b)"
    using assms by (simp add: drop_take take_take min_def)
  then show ?thesis
    using assms by (simp add: splice_def)
qed

lemma take_drop_splice_after:
  assumes "p + length xs \<le> q" and "p + length xs \<le> length b"
  shows "take n (drop q (splice b p xs)) = take n (drop q b)"
  using assms by (simp add: splice_def)

lemma drop_splice_after:
  assumes "p + length xs \<le> q" and "p + length xs \<le> length b"
  shows "drop q (splice b p xs) = drop q b"
  using assms by (simp add: splice_def)

lemma length_wr: "wr b p xs = Inr b' \<Longrightarrow> length b' = length b"
  by (auto dest: wr_InrD)


section \<open>Little-endian integers\<close>

text \<open>
  The modelled hosts (x86-64 Linux) are little-endian: the bytes of a
  \<^verbatim>\<open>uint16_t\<close> or \<^verbatim>\<open>uint32_t\<close> lie in memory with the least significant first.
\<close>

definition le16 :: "u16 \<Rightarrow> bytes" where
  "le16 w = [ucast w, ucast (drop_bit 8 w)]"

definition le32 :: "u32 \<Rightarrow> bytes" where
  "le32 w = [ucast w, ucast (drop_bit 8 w), ucast (drop_bit 16 w), ucast (drop_bit 24 w)]"

fun of_le16 :: "bytes \<Rightarrow> u16" where
  "of_le16 [a, b] = ucast a OR push_bit 8 (ucast b)"
| "of_le16 _ = 0"

fun of_le32 :: "bytes \<Rightarrow> u32" where
  "of_le32 [a, b, c, d] =
     ucast a OR push_bit 8 (ucast b) OR push_bit 16 (ucast c) OR push_bit 24 (ucast d)"
| "of_le32 _ = 0"

lemma length_le16 [simp]: "length (le16 w) = 2"
  by (simp add: le16_def)

lemma length_le32 [simp]: "length (le32 w) = 4"
  by (simp add: le32_def)

lemma of_le16_le16 [simp]: "of_le16 (le16 w) = w"
  unfolding le16_def of_le16.simps
  by (rule bit_eqI) (auto simp: bit_simps not_le less_diff_conv)

lemma of_le32_le32 [simp]: "of_le32 (le32 w) = w"
proof (rule bit_word_eqI)
  fix n
  assume "n < LENGTH(32)"
  then consider "n < 8" | "8 \<le> n" "n < 16" | "16 \<le> n" "n < 24" | "24 \<le> n" "n < 32"
    by force
  then show "bit (of_le32 (le32 w)) n = bit w n"
    unfolding le32_def of_le32.simps by cases (auto simp: bit_simps)
qed

lemma le16_inject [simp]: "le16 v = le16 w \<longleftrightarrow> v = w"
  by (metis of_le16_le16)

lemma le32_inject [simp]: "le32 v = le32 w \<longleftrightarrow> v = w"
  by (metis of_le32_le32)

lemma list4_cases:
  assumes "length xs = 4"
  obtains a b c d where "xs = [a, b, c, d]"
  using assms by (auto simp: length_Suc_conv numeral_eq_Suc)

lemma list2_cases:
  assumes "length xs = 2"
  obtains a b where "xs = [a, b]"
  using assms by (auto simp: length_Suc_conv numeral_eq_Suc)

lemma le32_of_le32 [simp]: "length xs = 4 \<Longrightarrow> le32 (of_le32 xs) = xs"
proof (erule list4_cases)
  fix a b c d
  assume xs: "xs = [a, b, c, d]"
  show "le32 (of_le32 xs) = xs"
    unfolding xs le32_def of_le32.simps list.inject
    by (intro conjI bit_eqI refl) (auto simp: bit_simps dest: bit_imp_le_length)
qed

lemma le16_of_le16 [simp]: "length xs = 2 \<Longrightarrow> le16 (of_le16 xs) = xs"
proof (erule list2_cases)
  fix a b
  assume xs: "xs = [a, b]"
  show "le16 (of_le16 xs) = xs"
    unfolding xs le16_def of_le16.simps list.inject
    by (intro conjI bit_eqI refl) (auto simp: bit_simps dest: bit_imp_le_length)
qed

text \<open>\<^verbatim>\<open>htonl\<close> on a little-endian host reverses the four bytes.\<close>

definition htonl :: "u32 \<Rightarrow> u32" where
  "htonl w = of_le32 (rev (le32 w))"

lemma htonl_htonl [simp]: "htonl (htonl w) = w"
  by (simp add: htonl_def)

lemma htonl_inject [simp]: "htonl v = htonl w \<longleftrightarrow> v = w"
  by (metis htonl_htonl)


section \<open>Lists\<close>

lemma single_list:
  assumes "distinct xs" "set xs = {x}"
  shows "xs = [x]"
proof (cases xs)
  case (Cons y ys)
  then have "y = x" "set ys \<subseteq> {x}" "x \<notin> set ys" using assms by auto
  then have "set ys = {}" using subset_singletonD [of "set ys" x] by auto
  then show ?thesis using Cons \<open>y = x\<close> by simp
qed (use assms in simp)

lemma pair_list:
  assumes "distinct xs" "set xs = {x, y}" "x \<noteq> y"
  shows "xs = [x, y] \<or> xs = [y, x]"
proof (cases xs)
  case (Cons z zs)
  then have z: "z \<notin> set zs" "insert z (set zs) = {x, y}" "distinct zs" using assms by simp_all
  then have zs: "set zs = {x, y} - {z}" by (metis Diff_insert_absorb)
  have "z = x \<or> z = y" using z(2) by (metis insertI1 insertE empty_iff)
  then show ?thesis
    using single_list [OF z(3), of x] single_list [OF z(3), of y] Cons zs assms(3)
    by (elim disjE) (simp_all add: insert_Diff_if)
qed (use assms in simp)

lemma find_append:
  "List.find P (xs @ ys) = (case List.find P xs of Some x \<Rightarrow> Some x | None \<Rightarrow> List.find P ys)"
  by (induction xs) simp_all

end
