(* ===== verification/Libc.thy ===== *)
theory Libc
  imports Prelude
begin

text \<open>
  The parts of the C library the program leans on: strings in fixed character arrays,
  and the conversion of IPv4 addresses between dotted decimal text and the 32 bit value
  in network byte order (\<^verbatim>\<open>inet_pton\<close>, \<^verbatim>\<open>inet_ntop\<close>). A C string is modelled by
  the list of its characters before the terminating NUL.
\<close>

section \<open>Strings\<close>

definition byte_of_char :: "char \<Rightarrow> u8" where
  "byte_of_char c = of_nat (of_char c)"

definition char_of_byte :: "u8 \<Rightarrow> char" where
  "char_of_byte b = char_of (unat b)"

lemma char_of_byte_of_char [simp]: "char_of_byte (byte_of_char c) = c"
proof -
  have "of_char c < (256 :: nat)"
    by (rule nat_of_char_less_256)
  then have "unat (of_nat (of_char c) :: u8) = (of_char c :: nat)"
    by (simp add: unat_of_nat)
  then show ?thesis
    by (simp add: char_of_byte_def byte_of_char_def)
qed

definition nul_free :: "string \<Rightarrow> bool" where
  "nul_free s \<longleftrightarrow> (\<forall>c \<in> set s. byte_of_char c \<noteq> 0)"

text \<open>\<open>fits n s\<close>: the string and its terminator fit in a character array of size \<open>n\<close>.\<close>

definition fits :: "nat \<Rightarrow> string \<Rightarrow> bool" where
  "fits n s \<longleftrightarrow> length s < n \<and> nul_free s"

text \<open>\<^verbatim>\<open>strcpy\<close> into an array of size \<open>n\<close>: the text and the NUL must fit.\<close>

definition strcpy_to :: "nat \<Rightarrow> string \<Rightarrow> string res" where
  "strcpy_to n s = (if length s < n then Inr s else Inl Out_of_bounds)"

text \<open>\<^verbatim>\<open>strncpy(d, s, n); d[n-1] = '\\0'\<close> keeps the first \<open>n - 1\<close> characters.\<close>

definition strncpy_term :: "nat \<Rightarrow> string \<Rightarrow> string" where
  "strncpy_term n s = take (n - 1) s"

text \<open>\<^verbatim>\<open>strncmp(s, p, strlen(p)) == 0\<close>: \<open>p\<close> is a prefix of \<open>s\<close>.\<close>

definition strncmp_eq :: "string \<Rightarrow> string \<Rightarrow> bool" where
  "strncmp_eq s p \<longleftrightarrow> take (length p) s = p"

text \<open>The bytes of a character array of size \<open>n\<close> that was zeroed and then given a text.\<close>

definition char_array :: "nat \<Rightarrow> string \<Rightarrow> bytes" where
  "char_array n s = map byte_of_char s @ zeros (n - length s)"

text \<open>The C string that starts a byte buffer, as bytes and as text.\<close>

definition cstr :: "bytes \<Rightarrow> bytes" where
  "cstr b = takeWhile (\<lambda>x. x \<noteq> 0) b"

definition text_of :: "bytes \<Rightarrow> string" where
  "text_of b = map char_of_byte (cstr b)"

lemma length_char_array [simp]: "length s \<le> n \<Longrightarrow> length (char_array n s) = n"
  by (simp add: char_array_def)

lemma fits_strncpy_term: "0 < n \<Longrightarrow> nul_free s \<Longrightarrow> fits n (strncpy_term n s)"
  by (auto simp: fits_def strncpy_term_def nul_free_def dest: in_set_takeD)

lemma strcpy_to_InrD: "strcpy_to n s = Inr t \<Longrightarrow> t = s \<and> length s < n"
  by (auto simp: strcpy_to_def split: if_splits)

lemma takeWhile_append_zero:
  "(\<forall>x \<in> set xs. x \<noteq> 0) \<Longrightarrow> takeWhile (\<lambda>x. x \<noteq> 0) (xs @ 0 # ys) = (xs :: bytes)"
  by (induction xs) auto

lemma text_of_char_array:
  assumes "fits n s"
  shows "text_of (char_array n s @ rest) = s"
proof -
  from assms obtain k where k: "n - length s = Suc k"
    by (cases "n - length s") (auto simp: fits_def)
  have "cstr (char_array n s @ rest) = map byte_of_char s"
    using assms takeWhile_append_zero [of "map byte_of_char s" "zeros k @ rest"]
    by (simp add: cstr_def char_array_def k zeros_def fits_def nul_free_def)
  then show ?thesis
    by (simp add: text_of_def comp_def)
qed


section \<open>IPv4 addresses as text\<close>

definition digit_char :: "nat \<Rightarrow> char" where
  "digit_char d = char_of (48 + d)"

definition is_digit :: "char \<Rightarrow> bool" where
  "is_digit c \<longleftrightarrow> (48 :: nat) \<le> of_char c \<and> (of_char c :: nat) \<le> 57"

definition digit_val :: "char \<Rightarrow> nat" where
  "digit_val c = of_char c - 48"

lemma digit_char_props [simp]:
  assumes "d < 10"
  shows "is_digit (digit_char d)" and "digit_val (digit_char d) = d"
  using assms by (simp_all add: is_digit_def digit_val_def digit_char_def)

text \<open>\<^verbatim>\<open>inet_ntop\<close> prints each octet in decimal without leading zeros.\<close>

definition dec_octet :: "nat \<Rightarrow> string" where
  "dec_octet n =
     (if n < 10 then [digit_char n]
      else if n < 100 then [digit_char (n div 10), digit_char (n mod 10)]
      else [digit_char (n div 100), digit_char (n div 10 mod 10), digit_char (n mod 10)])"

fun dotted :: "bytes \<Rightarrow> string" where
  "dotted [] = []"
| "dotted [b] = dec_octet (unat b)"
| "dotted (b # c # bs) = dec_octet (unat b) @ CHR ''.'' # dotted (c # bs)"

definition inet_ntop :: "u32 \<Rightarrow> string" where
  "inet_ntop w = dotted (le32 w)"

text \<open>
  \<^verbatim>\<open>inet_pton\<close> reads exactly four decimal octets separated by dots; an octet has at
  least one digit, no leading zero before another digit, and is at most 255. The state of
  the scan is the finished octets, the current one, and whether it has a digit yet.
\<close>

fun pton_run :: "string \<Rightarrow> nat list \<Rightarrow> nat \<Rightarrow> bool \<Rightarrow> bytes option" where
  "pton_run [] acc cur saw =
     (if length acc + (if saw then 1 else 0) < 4 then None
      else Some (map of_nat (acc @ [cur])))"
| "pton_run (c # cs) acc cur saw =
     (if is_digit c then
        (if saw \<and> cur = 0 then None
         else if cur * 10 + digit_val c > 255 then None
         else if \<not> saw \<and> length acc + 1 > 4 then None
         else pton_run cs acc (cur * 10 + digit_val c) True)
      else if c = CHR ''.'' \<and> saw then
        (if length acc + 1 = 4 then None else pton_run cs (acc @ [cur]) 0 False)
      else None)"

definition inet_pton :: "string \<Rightarrow> u32 option" where
  "inet_pton s = map_option of_le32 (pton_run s [] 0 False)"

lemma dot_not_digit [simp]: "\<not> is_digit (CHR ''.'')"
  by (simp add: is_digit_def)

lemma pton_run_octet:
  assumes "n < 256" and "length acc < 4"
  shows "pton_run (dec_octet n @ rest) acc 0 False = pton_run rest acc n True"
proof -
  consider "n < 10" | "10 \<le> n" "n < 100" | "100 \<le> n" by linarith
  then show ?thesis
  proof cases
    case 1
    then show ?thesis using assms by (simp add: dec_octet_def)
  next
    case 2
    then have d: "n div 10 < 10" "n mod 10 < 10" "n div 10 \<noteq> 0" "n div 10 * 10 + n mod 10 = n"
      by auto
    have l: "n \<le> 255" using assms by simp
    have o: "dec_octet n = [digit_char (n div 10), digit_char (n mod 10)]"
      using 2 by (simp add: dec_octet_def)
    show ?thesis using d l assms(2) by (simp add: o)
  next
    case 3
    define a b c where "a = n div 100" and "b = n div 10 mod 10" and "c = n mod 10"
    have o: "dec_octet n = [digit_char a, digit_char b, digit_char c]"
      using 3 by (simp add: dec_octet_def a_def b_def c_def)
    have ab: "a * 10 + b = n div 10"
      using div_mult_mod_eq [of "n div 10" 10] by (simp add: a_def b_def div_mult2_eq [symmetric])
    have n: "(a * 10 + b) * 10 + c = n"
      using div_mult_mod_eq [of n 10] by (simp add: ab c_def)
    have d: "b < 10" "c < 10" "0 < a" "a < 10" "a * 10 + b \<le> 25"
      unfolding ab using 3 assms(1) by (auto simp: a_def b_def c_def)
    have "(a * 10 + b) * 10 + c \<le> 255"
      unfolding n using assms(1) by simp
    then have "pton_run ([digit_char a, digit_char b, digit_char c] @ rest) acc 0 False
        = pton_run rest acc ((a * 10 + b) * 10 + c) True"
      using d assms(2) by simp
    then show ?thesis
      unfolding o n .
  qed
qed

lemma pton_run_dot:
  "length acc < 3 \<Longrightarrow> pton_run (CHR ''.'' # rest) acc n True = pton_run rest (acc @ [n]) 0 False"
  by simp

lemma u8_lt_256: "unat (b :: u8) < 256"
  using unsigned_less [of b, where 'a = nat] by simp

lemma pton_run_dotted4:
  "pton_run (dotted [a, b, c, d]) [] 0 False = Some [a, b, c, d]"
proof -
  have "pton_run (dec_octet (unat d) @ []) [unat a, unat b, unat c] 0 False
        = Some [a, b, c, d]"
    by (subst pton_run_octet) (simp_all add: u8_lt_256)
  then show ?thesis
    by (simp add: pton_run_octet u8_lt_256 del: pton_run.simps(2) add: pton_run_dot)
qed

theorem inet_pton_ntop [simp]: "inet_pton (inet_ntop w) = Some w"
proof -
  obtain a b c d where abcd: "le32 w = [a, b, c, d]"
    by (rule list4_cases [of "le32 w"]) simp_all
  have "of_le32 [a, b, c, d] = w"
    by (metis abcd of_le32_le32)
  then show ?thesis
    using pton_run_dotted4 [of a b c d]
    by (simp add: inet_pton_def inet_ntop_def abcd del: of_le32.simps dotted.simps)
qed

lemma inet_ntop_inject [simp]: "inet_ntop v = inet_ntop w \<longleftrightarrow> v = w"
  by (metis inet_pton_ntop option.inject)

lemma length_dec_octet: "length (dec_octet n) \<le> 3"
  by (simp add: dec_octet_def)

lemma length_inet_ntop: "length (inet_ntop w) \<le> 15"
proof -
  obtain a b c d where abcd: "le32 w = [a, b, c, d]"
    by (rule list4_cases [of "le32 w"]) simp_all
  show ?thesis
    using length_dec_octet [of "unat a"] length_dec_octet [of "unat b"]
      length_dec_octet [of "unat c"] length_dec_octet [of "unat d"]
    by (simp add: inet_ntop_def abcd)
qed

lemma inet_ntop_nonempty [simp]: "inet_ntop w \<noteq> []"
  by (simp add: inet_ntop_def le32_def dec_octet_def)

lemma inet_pton_Nil [simp]: "inet_pton [] = None"
  by (simp add: inet_pton_def)

text \<open>An address text is canonical when printing its value gives it back.\<close>

definition canonical_ip :: "string \<Rightarrow> bool" where
  "canonical_ip s \<longleftrightarrow> (\<exists>w. s = inet_ntop w)"

lemma canonical_inet_ntop [simp]: "canonical_ip (inet_ntop w)"
  by (auto simp: canonical_ip_def)

lemma nul_free_simps:
  "nul_free []" "nul_free (x # xs) \<longleftrightarrow> byte_of_char x \<noteq> 0 \<and> nul_free xs"
  "nul_free (xs @ ys) \<longleftrightarrow> nul_free xs \<and> nul_free ys"
  by (auto simp: nul_free_def)

lemma byte_of_digit_char [simp]: "d < 10 \<Longrightarrow> byte_of_char (digit_char d) \<noteq> 0"
proof -
  assume "d < 10"
  then have b: "byte_of_char (digit_char d) = of_nat (48 + d)"
    by (simp add: byte_of_char_def digit_char_def)
  have "unat (of_nat (48 + d) :: u8) = 48 + d"
    using \<open>d < 10\<close> by (subst unat_of_nat) simp
  then show ?thesis unfolding b by (metis add_is_0 unat_0 zero_neq_numeral)
qed

lemma nul_free_inet_ntop [simp]: "nul_free (inet_ntop a)"
proof -
  have d: "nul_free (dec_octet n)" if "n < 256" for n
  proof -
    have "n div 100 < 10" using that by simp
    then show ?thesis by (simp add: dec_octet_def nul_free_simps)
  qed
  have o: "nul_free (dec_octet (unat b))" for b :: u8
    using unsigned_less [of b, where 'a = nat] by (intro d) simp
  have "byte_of_char (CHR ''.'') \<noteq> 0" by (simp add: byte_of_char_def)
  then show ?thesis by (simp add: inet_ntop_def le32_def nul_free_simps o)
qed

end
