(* ===== verification/Packet.thy ===== *)
theory Packet
  imports Libc
begin

text \<open>
  Packet layouts and the in-place operations on packet buffers: the packed structs of
  \<^verbatim>\<open>include/layer2/layer2.h\<close> and \<^verbatim>\<open>include/layer3/layer3.h\<close>, the constants of
  \<^verbatim>\<open>include/tcpconst.h\<close>, VLAN tagging and untagging and the buffer shift of
  \<^verbatim>\<open>src/layer2/layer2.c\<close>. A packet pointer is a buffer with an offset; sizes are the
  32 bit unsigned values of the code.
\<close>

section \<open>Constants\<close>

definition ARP_PACKET :: u16 where "ARP_PACKET = 0x0806"
definition ARP_REQUEST :: u16 where "ARP_REQUEST = 1"
definition ARP_REPLY :: u16 where "ARP_REPLY = 2"
definition ETH_HW :: u16 where "ETH_HW = 1"
definition ETH_HW_LEN :: u8 where "ETH_HW_LEN = 6"
definition IP_PROTO_LEN :: u8 where "IP_PROTO_LEN = 4"
definition IP_PROTO :: u16 where "IP_PROTO = 0x0800"
definition ICMP_PROTO :: u8 where "ICMP_PROTO = 1"
definition ICMP_TYPE_ECHO_REPLY :: u8 where "ICMP_TYPE_ECHO_REPLY = 0"
definition ICMP_TYPE_ECHO_MESSAGE :: u8 where "ICMP_TYPE_ECHO_MESSAGE = 8"
definition ICMP_TYPE_DEST_UNREACH :: u8 where "ICMP_TYPE_DEST_UNREACH = 3"
definition ICMP_TYPE_TIME_EXCEEDED :: u8 where "ICMP_TYPE_TIME_EXCEEDED = 11"
definition ICMP_CODE_ECHO :: u8 where "ICMP_CODE_ECHO = 0"
definition ICMP_CODE_DEST_UNREACH_NET :: u8 where "ICMP_CODE_DEST_UNREACH_NET = 0"
definition ICMP_CODE_TIME_EXCEEDED_TTL :: u8 where "ICMP_CODE_TIME_EXCEEDED_TTL = 0"
definition VLAN_TAG :: u16 where "VLAN_TAG = 0x8100"
definition MAX_PACKET_BUFFER_SIZE :: nat where "MAX_PACKET_BUFFER_SIZE = 2048"
definition IF_NAME_SIZE :: nat where "IF_NAME_SIZE = 16"
definition IPPROTO_IP :: u8 where "IPPROTO_IP = 0"

text \<open>
  \<^verbatim>\<open>ETH_HDR_SIZE_EXCL_PAYLOAD\<close> is \<^verbatim>\<open>sizeof(ethernet_frame_t) - 248 - 4\<close>, that is 6 + 6 + 2;
  the tagged header has four bytes more.
\<close>

definition ETH_HDR_SIZE :: nat where "ETH_HDR_SIZE = 14"
definition VLAN_ETH_HDR_SIZE :: nat where "VLAN_ETH_HDR_SIZE = 18"
definition ARP_PACKET_SIZE :: nat where "ARP_PACKET_SIZE = 28"

lemmas eth_consts = ARP_PACKET_def IP_PROTO_def VLAN_TAG_def ETH_HDR_SIZE_def
  VLAN_ETH_HDR_SIZE_def ARP_PACKET_SIZE_def

lemmas arp_consts = ARP_REQUEST_def ARP_REPLY_def ETH_HW_def ETH_HW_LEN_def IP_PROTO_LEN_def

lemmas icmp_consts = ICMP_PROTO_def ICMP_TYPE_ECHO_REPLY_def ICMP_TYPE_ECHO_MESSAGE_def
  ICMP_TYPE_DEST_UNREACH_def ICMP_TYPE_TIME_EXCEEDED_def ICMP_CODE_ECHO_def
  ICMP_CODE_DEST_UNREACH_NET_def ICMP_CODE_TIME_EXCEEDED_TTL_def

lemmas size_consts = MAX_PACKET_BUFFER_SIZE_def IF_NAME_SIZE_def


section \<open>Field access\<close>

definition rd16 :: "bytes \<Rightarrow> nat \<Rightarrow> u16 res" where
  "rd16 b p = rbind (rd b p 2) (\<lambda>x. Inr (of_le16 x))"

definition wr16 :: "bytes \<Rightarrow> nat \<Rightarrow> u16 \<Rightarrow> bytes res" where
  "wr16 b p w = wr b p (le16 w)"

definition ptr_minus :: "nat \<Rightarrow> nat \<Rightarrow> nat res" where
  "ptr_minus p n = (if n \<le> p then Inr (p - n) else Inl Out_of_bounds)"

text \<open>The broadcast address, as \<^verbatim>\<open>layer2_fill_with_broadcast_mac\<close> writes it.\<close>

definition broadcast_mac :: bytes where
  "broadcast_mac = replicate 6 0xFF"

lemma broadcast_mac_list: "broadcast_mac = [0xFF, 0xFF, 0xFF, 0xFF, 0xFF, 0xFF]"
  unfolding broadcast_mac_def by (simp only: numeral_eq_Suc replicate.simps BitM.simps pred_numeral_simps)

definition layer2_fill_with_broadcast_mac :: "bytes \<Rightarrow> nat \<Rightarrow> bytes res" where
  "layer2_fill_with_broadcast_mac b p = wr b p broadcast_mac"

definition is_mac_broadcast_addr :: "bytes \<Rightarrow> bool" where
  "is_mac_broadcast_addr m \<longleftrightarrow> m = broadcast_mac"


section \<open>Ethernet frames\<close>

text \<open>Offsets in a frame: destination 0, source 6, type 12, payload 14; with a tag, the tag
  is at 12 (TPID 12, TCI 14), the type at 16 and the payload at 18.\<close>

definition eth_dest :: "bytes \<Rightarrow> nat \<Rightarrow> bytes res" where
  "eth_dest b p = rd b p 6"

definition eth_src :: "bytes \<Rightarrow> nat \<Rightarrow> bytes res" where
  "eth_src b p = rd b (p + 6) 6"

definition eth_type :: "bytes \<Rightarrow> nat \<Rightarrow> u16 res" where
  "eth_type b p = rd16 b (p + 12)"

definition is_pkt_vlan_tagged :: "bytes \<Rightarrow> nat \<Rightarrow> bool res" where
  "is_pkt_vlan_tagged b p = rbind (eth_type b p) (\<lambda>t. Inr (t = VLAN_TAG))"

text \<open>The tag control information: priority in bits 0--2, DEI bit 3, VLAN id in bits 4--15.\<close>

definition tci_vid :: "u16 \<Rightarrow> u16" where
  "tci_vid tci = drop_bit 4 tci"

definition tci_set_vid :: "u16 \<Rightarrow> u16 \<Rightarrow> u16" where
  "tci_set_vid tci vid = (tci AND 15) OR push_bit 4 vid"

definition get_8021q_vlan_id :: "bytes \<Rightarrow> nat \<Rightarrow> u16 res" where
  "get_8021q_vlan_id b p = rbind (rd16 b (p + 14)) (\<lambda>tci. Inr (tci_vid tci))"

definition get_ethernet_frame_payload :: "bytes \<Rightarrow> nat \<Rightarrow> nat res" where
  "get_ethernet_frame_payload b p =
     rbind (is_pkt_vlan_tagged b p)
       (\<lambda>tagged. Inr (p + (if tagged then VLAN_ETH_HDR_SIZE else ETH_HDR_SIZE)))"

definition get_eth_hdr_size_excl_payload :: "bytes \<Rightarrow> nat \<Rightarrow> u32 res" where
  "get_eth_hdr_size_excl_payload b p =
     rbind (is_pkt_vlan_tagged b p)
       (\<lambda>tagged. Inr (of_nat (if tagged then VLAN_ETH_HDR_SIZE else ETH_HDR_SIZE)))"

text \<open>
  \<^verbatim>\<open>set_common_eth_fcs\<close> looks at the frame type to find the FCS, then assigns to its local
  pointer, not through it: the frame is left as it is.
\<close>

definition set_common_eth_fcs :: "bytes \<Rightarrow> nat \<Rightarrow> u32 \<Rightarrow> u32 \<Rightarrow> bytes res" where
  "set_common_eth_fcs b p payload_size new_fcs =
     rbind (is_pkt_vlan_tagged b p) (\<lambda>_. Inr b)"

text \<open>
  \<^verbatim>\<open>ALLOC_ETH_HDR_WITH_PAYLOAD\<close>: the header is the 14 bytes before the payload pointer, the
  FCS the four bytes behind the payload; both are zeroed.
\<close>

definition ALLOC_ETH_HDR_WITH_PAYLOAD :: "bytes \<Rightarrow> nat \<Rightarrow> u32 \<Rightarrow> (bytes \<times> nat) res" where
  "ALLOC_ETH_HDR_WITH_PAYLOAD b p pkt_size =
     rbind (ptr_minus p ETH_HDR_SIZE) (\<lambda>h.
     rbind (wr b h (zeros ETH_HDR_SIZE)) (\<lambda>b1.
     rbind (wr b1 (h + ETH_HDR_SIZE + unat pkt_size) (zeros 4)) (\<lambda>b2.
     Inr (b2, h))))"


section \<open>VLAN tagging in place\<close>

definition tag_pkt_with_vlan_id :: "bytes \<Rightarrow> nat \<Rightarrow> u32 \<Rightarrow> u16 \<Rightarrow> (bytes \<times> nat \<times> u32) res" where
  "tag_pkt_with_vlan_id b p total_pkt_size vlan_id =
     rbind (is_pkt_vlan_tagged b p) (\<lambda>tagged.
     rbind (eth_type b p) (\<lambda>type.
     rbind (eth_src b p) (\<lambda>src_mac.
     rbind (eth_dest b p) (\<lambda>dest_mac.
     if tagged then
       rbind (rd16 b (p + 14)) (\<lambda>tci.
       rbind (wr16 b (p + 14) (tci_set_vid tci vlan_id)) (\<lambda>b1.
       Inr (b1, p, total_pkt_size)))
     else
       rbind (ptr_minus p 4) (\<lambda>v.
       rbind (wr16 b (v + 12) VLAN_TAG) (\<lambda>b1.
       rbind (rd16 b1 (v + 14)) (\<lambda>tci.
       rbind (wr16 b1 (v + 14) (tci_set_vid tci vlan_id)) (\<lambda>b2.
       rbind (wr b2 (v + 6) src_mac) (\<lambda>b3.
       rbind (wr b3 v dest_mac) (\<lambda>b4.
       rbind (wr16 b4 (v + 16) type) (\<lambda>b5.
       Inr (b5, v, total_pkt_size + 4))))))))))))"

definition untag_pkt_with_vlan_id :: "bytes \<Rightarrow> nat \<Rightarrow> u32 \<Rightarrow> (bytes \<times> nat \<times> u32) res" where
  "untag_pkt_with_vlan_id b p total_pkt_size =
     rbind (is_pkt_vlan_tagged b p) (\<lambda>tagged.
     if \<not> tagged then Inr (b, p, total_pkt_size)
     else
       rbind (eth_src b p) (\<lambda>src_mac.
       rbind (eth_dest b p) (\<lambda>dest_mac.
       rbind (wr b (p + 6) (zeros 6)) (\<lambda>b1.
       rbind (wr b1 p (zeros 6)) (\<lambda>b2.
       rbind (wr b2 (p + 12) (zeros 4)) (\<lambda>b3.
       rbind (wr b3 (p + 4 + 6) src_mac) (\<lambda>b4.
       rbind (wr b4 (p + 4) dest_mac) (\<lambda>b5.
       Inr (b5, p + 4, total_pkt_size)))))))))"

text \<open>
  \<^verbatim>\<open>pkt_buffer_shift_right\<close> moves a packet from the front of a buffer to its end. The
  \<^verbatim>\<open>memcpy\<close> needs disjoint regions; a packet larger than the buffer makes the unsigned
  difference wrap, which puts the target outside.
\<close>

definition pkt_buffer_shift_right :: "bytes \<Rightarrow> u32 \<Rightarrow> u32 \<Rightarrow> (bytes \<times> nat) res" where
  "pkt_buffer_shift_right b pkt_size total_buffer_size =
     (let empty_buffer_size = unat (total_buffer_size - pkt_size) in
      rbind (rd b 0 (unat pkt_size)) (\<lambda>data.
      if empty_buffer_size < unat pkt_size then Inl Overlap
      else
        rbind (wr b empty_buffer_size data) (\<lambda>b1.
        rbind (wr b1 0 (zeros empty_buffer_size)) (\<lambda>b2.
        Inr (b2, empty_buffer_size)))))"


section \<open>ARP, IP and ICMP\<close>

record arp_packet =
  hw_type :: u16
  proto_type :: u16
  hw_addr_len :: u8
  proto_addr_len :: u8
  op_code :: u16
  src_mac :: bytes
  src_ip :: u32
  dst_mac :: bytes
  dst_ip :: u32

definition arp_bytes :: "arp_packet \<Rightarrow> bytes" where
  "arp_bytes a =
     le16 (hw_type a) @ le16 (proto_type a) @ [hw_addr_len a, proto_addr_len a] @
     le16 (op_code a) @ src_mac a @ le32 (src_ip a) @ dst_mac a @ le32 (dst_ip a)"

definition arp_of_bytes :: "bytes \<Rightarrow> arp_packet" where
  "arp_of_bytes x =
     \<lparr>hw_type = of_le16 (take 2 x), proto_type = of_le16 (take 2 (drop 2 x)),
      hw_addr_len = x ! 4, proto_addr_len = x ! 5,
      op_code = of_le16 (take 2 (drop 6 x)), src_mac = take 6 (drop 8 x),
      src_ip = of_le32 (take 4 (drop 14 x)), dst_mac = take 6 (drop 18 x),
      dst_ip = of_le32 (take 4 (drop 24 x))\<rparr>"

definition rd_arp :: "bytes \<Rightarrow> nat \<Rightarrow> arp_packet res" where
  "rd_arp b p = rbind (rd b p ARP_PACKET_SIZE) (\<lambda>x. Inr (arp_of_bytes x))"

definition arp_packet_ok :: "arp_packet \<Rightarrow> bool" where
  "arp_packet_ok a \<longleftrightarrow> length (src_mac a) = 6 \<and> length (dst_mac a) = 6"

record ip_hdr =
  version :: u8
  ihl :: u8
  tos :: u8
  ip_len :: u16
  identification :: u16
  reserved :: u8
  ip_DF :: u8
  ip_MF :: u8
  frag_offset :: u16
  TTL :: u8
  proto :: u8
  checksum :: u16
  ip_src :: u32
  ip_dest :: u32

text \<open>The bit fields: version in the low and IHL in the high nibble of the first byte; the
  three flags and the 13 bit fragment offset, from the low end, in the 16 bits at 6.\<close>

definition ip_flags :: "ip_hdr \<Rightarrow> u16" where
  "ip_flags h = (ucast (reserved h) AND 1) OR push_bit 1 (ucast (ip_DF h) AND 1)
     OR push_bit 2 (ucast (ip_MF h) AND 1) OR push_bit 3 (frag_offset h)"

definition ip_bytes :: "ip_hdr \<Rightarrow> bytes" where
  "ip_bytes h =
     [(version h AND 15) OR push_bit 4 (ihl h), tos h] @ le16 (ip_len h) @
     le16 (identification h) @ le16 (ip_flags h) @ [TTL h, proto h] @ le16 (checksum h) @
     le32 (ip_src h) @ le32 (ip_dest h)"

definition ip_of_bytes :: "bytes \<Rightarrow> ip_hdr" where
  "ip_of_bytes x =
     (let fl = of_le16 (take 2 (drop 6 x)) in
      \<lparr>version = x ! 0 AND 15, ihl = drop_bit 4 (x ! 0), tos = x ! 1,
       ip_len = of_le16 (take 2 (drop 2 x)), identification = of_le16 (take 2 (drop 4 x)),
       reserved = ucast (fl AND 1), ip_DF = ucast (drop_bit 1 fl AND 1),
       ip_MF = ucast (drop_bit 2 fl AND 1), frag_offset = drop_bit 3 fl,
       TTL = x ! 8, proto = x ! 9, checksum = of_le16 (take 2 (drop 10 x)),
       ip_src = of_le32 (take 4 (drop 12 x)), ip_dest = of_le32 (take 4 (drop 16 x))\<rparr>)"

definition rd_ip :: "bytes \<Rightarrow> nat \<Rightarrow> ip_hdr res" where
  "rd_ip b p = rbind (rd b p 20) (\<lambda>x. Inr (ip_of_bytes x))"

definition IP_HDR_LEN_IN_BYTES :: "ip_hdr \<Rightarrow> nat" where
  "IP_HDR_LEN_IN_BYTES h = unat (ihl h) * 4"

definition init_ip_hdr :: ip_hdr where
  "init_ip_hdr =
     \<lparr>version = 4, ihl = 5, tos = 0, ip_len = 0, identification = 0, reserved = 0,
      ip_DF = 1, ip_MF = 0, frag_offset = 0, TTL = 64, proto = 0, checksum = 0,
      ip_src = 0, ip_dest = 0\<rparr>"

text \<open>The values a header can hold: the bit fields within their widths.\<close>

definition ip_hdr_ok :: "ip_hdr \<Rightarrow> bool" where
  "ip_hdr_ok h \<longleftrightarrow> version h < 16 \<and> ihl h < 16 \<and> reserved h < 2 \<and> ip_DF h < 2 \<and> ip_MF h < 2 \<and>
     frag_offset h < 0x2000"

record icmp_pkt =
  icmp_type :: u8
  icmp_code :: u8
  icmp_checksum :: u16
  icmp_identifier :: u16
  seq_num :: u16
  icmp_data :: u32

definition icmp_bytes :: "icmp_pkt \<Rightarrow> bytes" where
  "icmp_bytes i = [icmp_type i, icmp_code i] @ le16 (icmp_checksum i) @ le16 (icmp_identifier i) @
     le16 (seq_num i) @ le32 (icmp_data i)"

definition icmp_of_bytes :: "bytes \<Rightarrow> icmp_pkt" where
  "icmp_of_bytes x =
     \<lparr>icmp_type = x ! 0, icmp_code = x ! 1, icmp_checksum = of_le16 (take 2 (drop 2 x)),
      icmp_identifier = of_le16 (take 2 (drop 4 x)), seq_num = of_le16 (take 2 (drop 6 x)),
      icmp_data = of_le32 (take 4 (drop 8 x))\<rparr>"

definition rd_icmp :: "bytes \<Rightarrow> nat \<Rightarrow> icmp_pkt res" where
  "rd_icmp b p = rbind (rd b p 12) (\<lambda>x. Inr (icmp_of_bytes x))"

definition make_icmp_time_exceeded :: "ip_hdr \<Rightarrow> u8 \<Rightarrow> icmp_pkt" where
  "make_icmp_time_exceeded h code =
     \<lparr>icmp_type = ICMP_TYPE_TIME_EXCEEDED, icmp_code = code, icmp_checksum = 0,
      icmp_identifier = 0, seq_num = 0, icmp_data = ip_dest h\<rparr>"

definition make_icmp_dest_unreacheable :: "ip_hdr \<Rightarrow> u8 \<Rightarrow> icmp_pkt" where
  "make_icmp_dest_unreacheable h code =
     \<lparr>icmp_type = ICMP_TYPE_DEST_UNREACH, icmp_code = code, icmp_checksum = 0,
      icmp_identifier = 0, seq_num = 0, icmp_data = ip_dest h\<rparr>"

definition make_icmp_echo_reply :: "u16 \<Rightarrow> u16 \<Rightarrow> u32 \<Rightarrow> icmp_pkt" where
  "make_icmp_echo_reply ident sq data =
     \<lparr>icmp_type = ICMP_TYPE_ECHO_REPLY, icmp_code = ICMP_CODE_ECHO, icmp_checksum = 0,
      icmp_identifier = ident, seq_num = sq, icmp_data = data\<rparr>"

definition make_icmp_echo_message :: "u16 \<Rightarrow> u16 \<Rightarrow> icmp_pkt" where
  "make_icmp_echo_message ident sq =
     \<lparr>icmp_type = ICMP_TYPE_ECHO_MESSAGE, icmp_code = ICMP_CODE_ECHO, icmp_checksum = 0,
      icmp_identifier = ident, seq_num = sq, icmp_data = 0xDEADBEEF\<rparr>"


section \<open>Encoding round trips\<close>

lemmas le_split = le16_def le32_def

lemma length_arp_bytes: "arp_packet_ok a \<Longrightarrow> length (arp_bytes a) = 28"
  by (simp add: arp_bytes_def arp_packet_ok_def)

lemma length_ip_bytes [simp]: "length (ip_bytes h) = 20"
  by (simp add: ip_bytes_def)

lemma length_icmp_bytes [simp]: "length (icmp_bytes i) = 12"
  by (simp add: icmp_bytes_def)

lemma drop_le16 [simp]: "drop 2 (le16 w @ xs) = xs" "take 2 (le16 w @ xs) = le16 w"
  by (simp_all add: le16_def)

lemma drop_le32 [simp]: "drop 4 (le32 w @ xs) = xs" "take 4 (le32 w @ xs) = le32 w"
  by (simp_all add: le32_def)

lemma arp_of_arp_bytes [simp]:
  assumes "arp_packet_ok a"
  shows "arp_of_bytes (arp_bytes a) = a"
proof -
  obtain s where s: "src_mac a = s" "length s = 6" using assms by (simp add: arp_packet_ok_def)
  obtain d where d: "dst_mac a = d" "length d = 6" using assms by (simp add: arp_packet_ok_def)
  from s(2) obtain s0 s1 s2 s3 s4 s5 where s6: "s = [s0, s1, s2, s3, s4, s5]"
    by (auto simp: length_Suc_conv numeral_eq_Suc)
  from d(2) obtain d0 d1 d2 d3 d4 d5 where d6: "d = [d0, d1, d2, d3, d4, d5]"
    by (auto simp: length_Suc_conv numeral_eq_Suc)
  have w16: "of_le16 [ucast w, ucast (drop_bit 8 w)] = w" for w :: u16
    using of_le16_le16 [of w] by (simp only: le16_def)
  have w32: "of_le32 [ucast w, ucast (drop_bit 8 w), ucast (drop_bit 16 w), ucast (drop_bit 24 w)] = w"
    for w :: u32
    using of_le32_le32 [of w] by (simp only: le32_def)
  show ?thesis
    by (cases a) (use s d in \<open>simp add: arp_bytes_def arp_of_bytes_def s6 d6 le_split w16 w32
        del: of_le16.simps of_le32.simps\<close>)
qed

lemma icmp_of_icmp_bytes [simp]: "icmp_of_bytes (icmp_bytes i) = i"
proof -
  have w16: "of_le16 [ucast w, ucast (drop_bit 8 w)] = w" for w :: u16
    using of_le16_le16 [of w] by (simp only: le16_def)
  have w32: "of_le32 [ucast w, ucast (drop_bit 8 w), ucast (drop_bit 16 w), ucast (drop_bit 24 w)] = w"
    for w :: u32
    using of_le32_le32 [of w] by (simp only: le32_def)
  show ?thesis
    by (cases i) (simp add: icmp_bytes_def icmp_of_bytes_def le_split w16 w32
        del: of_le16.simps of_le32.simps)
qed

lemma nibbles:
  fixes v i :: u8
  assumes "v < 16" "i < 16"
  shows "(v AND 15 OR push_bit 4 i) AND 15 = v" "drop_bit 4 (v AND 15 OR push_bit 4 i) = i"
proof -
  have v: "v AND mask 4 = v" and i: "i AND mask 4 = i"
    using less_mask_eq [of v 4] less_mask_eq [of i 4] assms by simp_all
  have v': "bit v n \<Longrightarrow> n < 4" for n
    by (subst (asm) v [symmetric]) (simp add: bit_simps)
  have i': "bit i n \<Longrightarrow> n < 4" for n
    by (subst (asm) i [symmetric]) (simp add: bit_simps)
  have m: "(15::u8) = mask 4" by (simp add: mask_eq_exp_minus_1)
  show "(v AND 15 OR push_bit 4 i) AND 15 = v" unfolding m
    by (rule bit_word_eqI) (auto simp: bit_simps dest: v')
  show "drop_bit 4 (v AND 15 OR push_bit 4 i) = i" unfolding m
    by (rule bit_word_eqI) (auto simp: bit_simps dest: v' i')
qed
lemma flagbits:
  fixes r d m :: u8 and f :: u16
  assumes "r < 2" "d < 2" "m < 2" "f < 0x2000"
  defines "w \<equiv> (ucast r AND 1) OR push_bit 1 (ucast d AND 1) OR push_bit 2 (ucast m AND 1) OR push_bit 3 f"
  shows "ucast (w AND 1) = r" "ucast (drop_bit 1 w AND 1) = d" "ucast (drop_bit 2 w AND 1) = m" "drop_bit 3 w = f"
proof -
  have b: "x AND mask 1 = x" if "x < 2" for x :: u8
    using less_mask_eq [of x 1] that by simp
  have b': "bit x n \<Longrightarrow> n = 0" if "x < 2" for x :: u8 and n
    using b [OF that] by (metis bit_and_iff bit_mask_iff less_one)
  have f: "f AND mask 13 = f" using less_mask_eq [of f 13] assms(4) by simp
  have f': "bit f n \<Longrightarrow> n < 13" for n
    by (subst (asm) f [symmetric]) (simp add: bit_simps)
  have one: "(1::u16) = mask 1" by (simp add: mask_eq_exp_minus_1)
  have w: "bit w n \<longleftrightarrow> n < 16 \<and> (n = 0 \<and> bit r 0 \<or> n = 1 \<and> bit d 0 \<or> n = 2 \<and> bit m 0 \<or> 3 \<le> n \<and> bit f (n - 3))" for n
    unfolding w_def one
    by (simp only: bit_or_iff bit_push_bit_iff bit_and_iff bit_mask_iff bit_unsigned_iff possible_bit_word)
      (auto simp: le_Suc_eq numeral_2_eq_2 numeral_3_eq_3)
  note bs = bit_1_iff bit_and_iff bit_mask_iff bit_unsigned_iff bit_drop_bit_eq w possible_bit_word
  show "ucast (w AND 1) = r"
    unfolding one by (rule bit_word_eqI) (auto simp: bs dest: b'[OF assms(1)])
  show "ucast (drop_bit 1 w AND 1) = d"
    unfolding one by (rule bit_word_eqI) (auto simp: bs dest: b'[OF assms(2)])
  show "ucast (drop_bit 2 w AND 1) = m"
    unfolding one by (rule bit_word_eqI) (auto simp: bs dest: b'[OF assms(3)])
  show "drop_bit 3 w = f"
    by (rule bit_word_eqI) (auto simp: bs dest: f')
qed
lemma ip_of_ip_bytes [simp]:
  assumes "ip_hdr_ok h"
  shows "ip_of_bytes (ip_bytes h) = h"
proof -
  have w16: "of_le16 [ucast w, ucast (drop_bit 8 w)] = w" for w :: u16
    using of_le16_le16 [of w] by (simp only: le16_def)
  have w32: "of_le32 [ucast w, ucast (drop_bit 8 w), ucast (drop_bit 16 w), ucast (drop_bit 24 w)] = w"
    for w :: u32
    using of_le32_le32 [of w] by (simp only: le32_def)
  have ok: "version h < 16" "ihl h < 16" "reserved h < 2" "ip_DF h < 2" "ip_MF h < 2" "frag_offset h < 0x2000"
    using assms by (simp_all add: ip_hdr_ok_def)
  show ?thesis
    using nibbles [OF ok(1,2)] flagbits [OF ok(3-6)]
    unfolding ip_flags_def [symmetric]
    by (cases h) (simp add: ip_bytes_def ip_of_bytes_def le_split w16 w32 Let_def
        del: of_le16.simps of_le32.simps)
qed


section \<open>Frames seen as byte strings\<close>

text \<open>
  For reasoning a buffer is cut into segments, and an access that falls on a segment reads
  or replaces it. \<open>pre\<close> stands for what lies in front of the packet.
\<close>

lemma list6_cases:
  assumes "length xs = 6"
  obtains a b c d e f where "xs = [a, b, c, d, e, f]"
  using assms by (auto simp: length_Suc_conv numeral_eq_Suc)

lemma rd_seg: "p = length a \<Longrightarrow> n = length x \<Longrightarrow> rd (a @ x @ c) p n = Inr x"
  by (simp add: rd_def)
lemma wr_seg: "p = length a \<Longrightarrow> length x = length y \<Longrightarrow> wr (a @ x @ c) p y = Inr (a @ y @ c)"
  by (simp add: wr_def splice_def)

lemma split_at:
  assumes "length xs = m + n"
  obtains a b where "xs = a @ b" "length a = m" "length b = n"
  using assms by (metis append_take_drop_id length_drop length_take diff_add_inverse min.absorb2 le_add1)

lemma tag_untagged:
  assumes "length pre = p" "length x = 4" "length d = 6" "length s = 6" "length t = 2"
    and nt: "of_le16 t \<noteq> VLAN_TAG"
  shows "tag_pkt_with_vlan_id (pre @ x @ d @ s @ t @ rest) (p + 4) n vid =
    Inr (pre @ d @ s @ le16 VLAN_TAG @ le16 (tci_set_vid (of_le16 (drop 4 s)) vid) @ t @ rest, p, n + 4)"
proof -
  obtain d1 d2 where d: "d = d1 @ d2" "length d1 = 2" "length d2 = 4"
    using split_at [of d 2 4] assms(3) by auto
  obtain s1 sx where sx: "s = s1 @ sx" "length s1 = 2" "length sx = 4"
    using split_at [of s 2 4] assms(4) by auto
  obtain s2 s3 where s: "sx = s2 @ s3" "length s2 = 2" "length s3 = 2"
    using split_at [of sx 2 2] sx(3) by auto
  note L = assms(1,2,5) d(2,3) sx(2) s(2,3)
  let ?T = "le16 VLAN_TAG" and ?C = "le16 (tci_set_vid (of_le16 s3) vid)"
  have r: "rd ((pre @ x @ d1 @ d2 @ s1 @ s2 @ s3) @ t @ rest) (p + 4 + 12) 2 = Inr t"
    "rd ((pre @ x @ d1 @ d2) @ (s1 @ s2 @ s3) @ t @ rest) (p + 4 + 6) 6 = Inr (s1 @ s2 @ s3)"
    "rd ((pre @ x) @ (d1 @ d2) @ s1 @ s2 @ s3 @ t @ rest) (p + 4) 6 = Inr (d1 @ d2)"
    "rd ((pre @ x @ d1 @ d2 @ s1 @ ?T) @ s3 @ t @ rest) (p + 14) 2 = Inr s3"
    by (rule rd_seg; simp add: L)+
  have w: "wr ((pre @ x @ d1 @ d2 @ s1) @ s2 @ s3 @ t @ rest) (p + 12) ?T
      = Inr ((pre @ x @ d1 @ d2 @ s1) @ ?T @ s3 @ t @ rest)"
    "wr ((pre @ x @ d1 @ d2 @ s1 @ ?T) @ s3 @ t @ rest) (p + 14) ?C
      = Inr ((pre @ x @ d1 @ d2 @ s1 @ ?T) @ ?C @ t @ rest)"
    "wr ((pre @ x @ d1) @ (d2 @ s1) @ ?T @ ?C @ t @ rest) (p + 6) (s1 @ s2 @ s3)
      = Inr ((pre @ x @ d1) @ (s1 @ s2 @ s3) @ ?T @ ?C @ t @ rest)"
    "wr (pre @ (x @ d1) @ s1 @ s2 @ s3 @ ?T @ ?C @ t @ rest) p (d1 @ d2)
      = Inr (pre @ (d1 @ d2) @ s1 @ s2 @ s3 @ ?T @ ?C @ t @ rest)"
    "wr ((pre @ d1 @ d2 @ s1 @ s2 @ s3 @ ?T @ ?C) @ t @ rest) (p + 16) t
      = Inr ((pre @ d1 @ d2 @ s1 @ s2 @ s3 @ ?T @ ?C) @ t @ rest)"
    by (rule wr_seg; simp add: L)+
  have t': "le16 (of_le16 t) = t" using assms(5) by simp
  have m: "ptr_minus (p + 4) 4 = Inr p" by (simp add: ptr_minus_def)
  have dr: "drop 4 s = s3" using sx s by simp
  show ?thesis
    unfolding dr unfolding d(1) sx(1) s(1) append_assoc tag_pkt_with_vlan_id_def is_pkt_vlan_tagged_def eth_type_def eth_src_def
      eth_dest_def rd16_def wr16_def
    by (simp only: r [unfolded append_assoc] rbind_Inr nt if_False m w [unfolded append_assoc] t')
qed

lemma tag_tagged:
  assumes "length pre = p" "length d = 6" "length s = 6" "length c = 2"
  shows "tag_pkt_with_vlan_id (pre @ d @ s @ le16 VLAN_TAG @ c @ rest) p n vid =
    Inr (pre @ d @ s @ le16 VLAN_TAG @ le16 (tci_set_vid (of_le16 c) vid) @ rest, p, n)"
proof -
  let ?T = "le16 VLAN_TAG" and ?C = "le16 (tci_set_vid (of_le16 c) vid)"
  have r: "rd ((pre @ d @ s) @ ?T @ c @ rest) (p + 12) 2 = Inr ?T"
    "rd ((pre @ d) @ s @ ?T @ c @ rest) (p + 6) 6 = Inr s"
    "rd (pre @ d @ s @ ?T @ c @ rest) p 6 = Inr d"
    "rd ((pre @ d @ s @ ?T) @ c @ rest) (p + 14) 2 = Inr c"
    by (rule rd_seg; simp add: assms)+
  have w: "wr ((pre @ d @ s @ ?T) @ c @ rest) (p + 14) ?C
      = Inr ((pre @ d @ s @ ?T) @ ?C @ rest)"
    by (rule wr_seg; simp add: assms)
  show ?thesis
    unfolding tag_pkt_with_vlan_id_def is_pkt_vlan_tagged_def eth_type_def eth_src_def
      eth_dest_def rd16_def wr16_def
    by (simp only: r [unfolded append_assoc] w [unfolded append_assoc] rbind_Inr of_le16_le16
        simp_thms if_True)
qed

lemma untag_tagged:
  assumes "length pre = p" "length d = 6" "length s = 6" "length c = 2"
  shows "untag_pkt_with_vlan_id (pre @ d @ s @ le16 VLAN_TAG @ c @ rest) p n =
    Inr (pre @ zeros 4 @ d @ s @ rest, p + 4, n)"
proof -
  let ?T = "le16 VLAN_TAG"
  have z: "zeros (m + k) = zeros m @ zeros k" for m k
    by (simp add: zeros_def replicate_add)
  have z6: "zeros 6 = zeros 4 @ zeros 2" and z4: "zeros 4 = zeros 2 @ zeros 2"
    using z [of 4 2] z [of 2 2] by simp_all
  have r: "rd ((pre @ d @ s) @ ?T @ c @ rest) (p + 12) 2 = Inr ?T"
    "rd ((pre @ d) @ s @ ?T @ c @ rest) (p + 6) 6 = Inr s"
    "rd (pre @ d @ s @ ?T @ c @ rest) p 6 = Inr d"
    by (rule rd_seg; simp add: assms)+
  have w: "wr ((pre @ d) @ s @ ?T @ c @ rest) (p + 6) (zeros 6)
      = Inr ((pre @ d) @ zeros 6 @ ?T @ c @ rest)"
    "wr (pre @ d @ zeros 6 @ ?T @ c @ rest) p (zeros 6)
      = Inr (pre @ zeros 6 @ zeros 6 @ ?T @ c @ rest)"
    "wr ((pre @ zeros 6 @ zeros 6) @ (?T @ c) @ rest) (p + 12) (zeros 4)
      = Inr ((pre @ zeros 6 @ zeros 6) @ zeros 4 @ rest)"
    "wr ((pre @ zeros 6 @ zeros 4) @ (zeros 2 @ zeros 4) @ rest) (p + 4 + 6) s
      = Inr ((pre @ zeros 6 @ zeros 4) @ s @ rest)"
    "wr ((pre @ zeros 4) @ (zeros 2 @ zeros 4) @ s @ rest) (p + 4) d
      = Inr ((pre @ zeros 4) @ d @ s @ rest)"
    by (rule wr_seg; simp add: assms)+
  have e: "zeros 6 @ zeros 6 @ zeros 4 @ rest = zeros 6 @ zeros 4 @ zeros 2 @ zeros 4 @ rest"
    "zeros 6 @ zeros 4 @ s @ rest = zeros 4 @ zeros 2 @ zeros 4 @ s @ rest"
    by (simp_all add: z6 z4)
  show ?thesis
    unfolding untag_pkt_with_vlan_id_def is_pkt_vlan_tagged_def eth_type_def eth_src_def
      eth_dest_def rd16_def wr16_def
    by (simp only: r [unfolded append_assoc] w [unfolded append_assoc] e rbind_Inr of_le16_le16
        simp_thms if_False)
qed

lemma untag_untagged:
  assumes "is_pkt_vlan_tagged b p = Inr False"
  shows "untag_pkt_with_vlan_id b p n = Inr (b, p, n)"
  by (simp add: untag_pkt_with_vlan_id_def assms)

text \<open>The fields of the tag word.\<close>

lemma tci_vid_set:
  "vid < 0x1000 \<Longrightarrow> tci_vid (tci_set_vid tci vid) = vid"
proof -
  assume "vid < 0x1000"
  then have v: "vid AND mask 12 = vid" using less_mask_eq [of vid 12] by simp
  have b: "bit vid n \<Longrightarrow> n < 12" for n
    by (subst (asm) v [symmetric]) (simp add: bit_simps)
  have m: "(15 :: u16) = mask 4" by (simp add: mask_eq_exp_minus_1)
  show ?thesis
    unfolding tci_vid_def tci_set_vid_def m
    by (rule bit_word_eqI) (auto simp: bit_simps dest: b)
qed

lemma tci_low_set: "tci_set_vid tci vid AND 15 = tci AND 15"
proof -
  have m: "(15 :: u16) = mask 4" by (simp add: mask_eq_exp_minus_1)
  show ?thesis
    unfolding tci_set_vid_def m by (rule bit_word_eqI) (auto simp: bit_simps)
qed

text \<open>The shift moves the data to the end of the window of \<open>total\<close> bytes.\<close>

lemma shift_right_ok:
  assumes "unat n = length data" "length data + length data \<le> unat tot"
    "unat tot = length data + length fill"
  shows "pkt_buffer_shift_right (data @ fill @ rest) n tot =
    Inr (zeros (length fill) @ data @ rest, length fill)"
proof -
  have le: "n \<le> tot" using assms(1,3) by (simp add: word_le_nat_alt)
  have e: "unat (tot - n) = length fill"
    using assms(1,3) unat_sub [OF le] by simp
  have r: "rd ([] @ data @ fill @ rest) 0 (length data) = Inr data" by (rule rd_seg) simp_all
  have "length fill = (length fill - length data) + length data"
    using assms(2,3) by linarith
  from split_at [OF this] obtain f g where f: "fill = f @ g" "length g = length data"
    by metis
  have w: "wr ((data @ f) @ g @ rest) (length fill) data = Inr ((data @ f) @ data @ rest)"
    by (rule wr_seg) (simp_all add: f)
  have w': "wr ([] @ (data @ f) @ data @ rest) 0 (zeros (length fill))
      = Inr ([] @ zeros (length fill) @ data @ rest)"
    by (rule wr_seg) (simp_all add: f)
  have nl: "\<not> length fill < length data" using assms by simp
  show ?thesis
    using r w w' unfolding pkt_buffer_shift_right_def Let_def e assms(1)
    by (simp add: f)
qed


text \<open>The fields of a frame that lies behind \<open>pre\<close>.\<close>

lemma frame_fields:
  assumes "length pre = p" "length d = 6" "length s = 6"
  shows "eth_dest (pre @ d @ s @ le16 t @ rest) p = Inr d"
    "eth_src (pre @ d @ s @ le16 t @ rest) p = Inr s"
    "eth_type (pre @ d @ s @ le16 t @ rest) p = Inr t"
    "is_pkt_vlan_tagged (pre @ d @ s @ le16 t @ rest) p = Inr (t = VLAN_TAG)"
proof -
  have "rd (pre @ d @ s @ le16 t @ rest) p 6 = Inr d"
    "rd ((pre @ d) @ s @ le16 t @ rest) (p + 6) 6 = Inr s"
    "rd ((pre @ d @ s) @ le16 t @ rest) (p + 12) 2 = Inr (le16 t)"
    by (rule rd_seg; simp add: assms)+
  then show "eth_dest (pre @ d @ s @ le16 t @ rest) p = Inr d"
    "eth_src (pre @ d @ s @ le16 t @ rest) p = Inr s"
    "eth_type (pre @ d @ s @ le16 t @ rest) p = Inr t"
    "is_pkt_vlan_tagged (pre @ d @ s @ le16 t @ rest) p = Inr (t = VLAN_TAG)"
    by (simp_all add: eth_dest_def eth_src_def eth_type_def rd16_def is_pkt_vlan_tagged_def)
qed

lemma frame_tci:
  assumes "length pre = p" "length d = 6" "length s = 6"
  shows "get_8021q_vlan_id (pre @ d @ s @ le16 t @ le16 c @ rest) p = Inr (tci_vid c)"
proof -
  have "rd ((pre @ d @ s @ le16 t) @ le16 c @ rest) (p + 14) 2 = Inr (le16 c)"
    by (rule rd_seg; simp add: assms)
  then show ?thesis by (simp add: get_8021q_vlan_id_def rd16_def)
qed

text \<open>The header pointer that precedes a payload, its two zeroed regions and the fields
  written into it.\<close>

lemma alloc_eth:
  assumes "length pre = h" "length x = 14" "length pay = unat n" "length y = 4"
  shows "ALLOC_ETH_HDR_WITH_PAYLOAD (pre @ x @ pay @ y @ rest) (h + 14) n =
    Inr (pre @ zeros 14 @ pay @ zeros 4 @ rest, h)"
proof -
  have "wr (pre @ x @ pay @ y @ rest) h (zeros 14) = Inr (pre @ zeros 14 @ pay @ y @ rest)"
    "wr ((pre @ zeros 14 @ pay) @ y @ rest) (h + 14 + unat n) (zeros 4)
      = Inr ((pre @ zeros 14 @ pay) @ zeros 4 @ rest)"
    by (rule wr_seg; simp add: assms)+
  then show ?thesis
    by (simp add: ALLOC_ETH_HDR_WITH_PAYLOAD_def ETH_HDR_SIZE_def ptr_minus_def)
qed

section \<open>Properties\<close>


definition example_arp :: arp_packet where
  "example_arp = \<lparr>hw_type = 1, proto_type = 0x800, hw_addr_len = 6, proto_addr_len = 4, op_code = 1,
     src_mac = [1, 2, 3, 4, 0, 0], src_ip = 7, dst_mac = zeros 6, dst_ip = 9\<rparr>"


text \<open>C36: tagging an untagged frame gives a frame four bytes longer, four bytes further to the
  front, that carries the VLAN id and keeps addresses, type and payload; untagging it
  restores the frame where it was, but the size it reports is still that of the tagged
  frame.\<close>

theorem tag_untag_roundtrip:
  assumes "length pre = p" "length x = 4" "length d = 6" "length s = 6"
    and "t \<noteq> VLAN_TAG" and "vid < 0x1000"
  shows "\<exists>b. tag_pkt_with_vlan_id (pre @ x @ d @ s @ le16 t @ rest) (p + 4) n vid = Inr (b, p, n + 4) \<and>
    is_pkt_vlan_tagged b p = Inr True \<and> get_8021q_vlan_id b p = Inr vid \<and>
    eth_dest b p = Inr d \<and> eth_src b p = Inr s \<and>
    untag_pkt_with_vlan_id b p (n + 4) = Inr (pre @ zeros 4 @ d @ s @ le16 t @ rest, p + 4, n + 4)"
proof -
  let ?c = "tci_set_vid (of_le16 (drop 4 s)) vid"
  let ?b = "pre @ d @ s @ le16 VLAN_TAG @ le16 ?c @ le16 t @ rest"
  have "tag_pkt_with_vlan_id (pre @ x @ d @ s @ le16 t @ rest) (p + 4) n vid = Inr (?b, p, n + 4)"
    using tag_untagged [of pre p x d s "le16 t" rest n vid] assms by simp
  moreover have "untag_pkt_with_vlan_id ?b p (n + 4) = Inr (pre @ zeros 4 @ d @ s @ le16 t @ rest, p + 4, n + 4)"
    by (rule untag_tagged) (use assms in simp_all)
  ultimately show ?thesis
    using assms by (simp add: frame_fields frame_tci tci_vid_set)
qed

lemma tag_untag_roundtrip_witness:
  "\<exists>b. tag_pkt_with_vlan_id ([] @ [9, 9, 9, 9] @ [1, 2, 3, 4, 0, 0] @ [5, 6, 7, 8, 0, 0] @ le16 IP_PROTO @ [42])
       (0 + 4) 15 10 = Inr (b, 0, 15 + 4) \<and>
    is_pkt_vlan_tagged b 0 = Inr True \<and> get_8021q_vlan_id b 0 = Inr 10 \<and>
    eth_dest b 0 = Inr [1, 2, 3, 4, 0, 0] \<and> eth_src b 0 = Inr [5, 6, 7, 8, 0, 0] \<and>
    untag_pkt_with_vlan_id b 0 (15 + 4) =
      Inr ([] @ zeros 4 @ [1, 2, 3, 4, 0, 0] @ [5, 6, 7, 8, 0, 0] @ le16 IP_PROTO @ [42], 0 + 4, 15 + 4)"
  by (rule tag_untag_roundtrip) (simp_all add: IP_PROTO_def VLAN_TAG_def)

text \<open>Shifting a packet to the end of its buffer moves the bytes unchanged and zeroes the
  rest, for packets of at most half the buffer; for larger ones the regions overlap.\<close>

theorem shift_right_moves:
  assumes "unat n = length data" and "unat tot = length data + length fill"
  shows "pkt_buffer_shift_right (data @ fill @ rest) n tot =
    (if length fill < length data then Inl Overlap
     else Inr (zeros (length fill) @ data @ rest, length fill))"
proof (cases "length fill < length data")
  case True
  have "n \<le> tot" using assms by (simp add: word_le_nat_alt)
  then have "unat (tot - n) = length fill" using assms by (simp add: unat_sub)
  moreover have "rd ([] @ data @ fill @ rest) 0 (length data) = Inr data" by (rule rd_seg) simp_all
  ultimately show ?thesis using True assms by (simp add: pkt_buffer_shift_right_def Let_def)
next
  case False
  then show ?thesis using shift_right_ok [OF assms(1) _ assms(2)] assms by simp
qed

lemma shift_right_moves_witness:
  "pkt_buffer_shift_right ([1, 2] @ [0, 0, 0] @ [9]) 2 5 = Inr (zeros 3 @ [1, 2] @ [9], 3)"
  using shift_right_moves [of 2 "[1, 2]" 5 "[0, 0, 0]" "[9]"]
  by (simp add: numeral_3_eq_3)

end
