(* ===== verification/Tables.thy ===== *)
theory Tables
  imports Main
begin

text \<open>
  The contract of a table that resolves keys to ports: the MAC table of a switch and the
  ARP table of a host both learn bindings and are asked for them when a frame is sent. The
  locale names the operations the forwarding code calls and what it relies on; its lemmas
  are about whole histories of learning.

  Two keys are \<open>apart\<close> when the table's own comparison can tell them from each other.
\<close>

locale resolution_table =
  fixes lookup :: "'t \<Rightarrow> 'k \<Rightarrow> 'v option"
    and learn :: "'t \<Rightarrow> 'k \<Rightarrow> 'v \<Rightarrow> 't"
    and inv :: "'t \<Rightarrow> bool"
    and key_ok :: "'k \<Rightarrow> bool"
    and apart :: "'k \<Rightarrow> 'k \<Rightarrow> bool"
  assumes inv_learn: "inv t \<Longrightarrow> key_ok k \<Longrightarrow> inv (learn t k v)"
    and lookup_learn: "inv t \<Longrightarrow> key_ok k \<Longrightarrow> lookup (learn t k v) k = Some v"
    and lookup_other: "inv t \<Longrightarrow> key_ok k \<Longrightarrow> key_ok k' \<Longrightarrow> k' \<noteq> k \<Longrightarrow> apart k' k \<Longrightarrow>
      lookup (learn t k v) k' = lookup t k'"
begin

text \<open>The table after a history of bindings, the oldest first.\<close>

definition learn_all :: "'t \<Rightarrow> ('k \<times> 'v) list \<Rightarrow> 't" where
  "learn_all t bs = fold (\<lambda>(k, v) t. learn t k v) bs t"

lemma learn_all_simps [simp]:
  "learn_all t [] = t"
  "learn_all t ((k, v) # bs) = learn_all (learn t k v) bs"
  by (simp_all add: learn_all_def)

lemma inv_learn_all: "inv t \<Longrightarrow> (\<forall>(k, v) \<in> set bs. key_ok k) \<Longrightarrow> inv (learn_all t bs)"
  by (induction bs arbitrary: t) (auto simp: inv_learn)

lemma lookup_learn_all_unseen:
  "inv t \<Longrightarrow> key_ok k \<Longrightarrow> (\<forall>(k', v) \<in> set bs. key_ok k' \<and> k' \<noteq> k \<and> apart k k') \<Longrightarrow>
     lookup (learn_all t bs) k = lookup t k"
proof (induction bs arbitrary: t)
  case Nil
  then show ?case by simp
next
  case (Cons b bs)
  obtain k' v where b: "b = (k', v)" by (cases b)
  have k': "key_ok k'" "k \<noteq> k'" "apart k k'" using Cons.prems(3) b by auto
  have "lookup (learn_all (learn t k' v) bs) k = lookup (learn t k' v) k"
    by (rule Cons.IH) (use Cons.prems k' in \<open>auto intro: inv_learn\<close>)
  then show ?case
    using b lookup_other [OF Cons.prems(1) k'(1) Cons.prems(2) k'(2,3)] by simp
qed

text \<open>The last binding of a key wins, whatever is learned about other keys before or after.\<close>

lemma lookup_learn_all_last:
  assumes "inv t" and "key_ok k"
    and "\<forall>(k', w) \<in> set bs. key_ok k'"
    and "\<forall>(k', w) \<in> set cs. key_ok k' \<and> k' \<noteq> k \<and> apart k k'"
  shows "lookup (learn_all t (bs @ (k, v) # cs)) k = Some v"
proof -
  have i: "inv (learn_all t bs)"
    using assms(1,3) by (rule inv_learn_all)
  have "learn_all t (bs @ (k, v) # cs) = learn_all (learn (learn_all t bs) k v) cs"
    by (simp add: learn_all_def)
  then show ?thesis
    using lookup_learn_all_unseen [OF inv_learn [OF i assms(2)] assms(2,4)]
      lookup_learn [OF i assms(2)] by simp
qed

end

end
