(* ===== verification/Glthread.thy ===== *)
theory Glthread
  imports Prelude
begin

text \<open>
  The glue-thread library (\<^verbatim>\<open>src/gluethread/glthread.c\<close>, \<^verbatim>\<open>include/gluethread/glthread.h\<close>):
  an intrusive doubly linked list. Every list of the program (nodes of a topology, ARP
  entries, MAC entries, routes) is one. The memory that holds the cells is a function from
  addresses to cells; a null pointer is \<open>None\<close>. A list is known by its base cell, which
  carries no data: its \<open>right\<close> is the first element and its \<open>left\<close> stays null.

  The first part translates the operations. The second relates the memory to lists:
  \<open>glist h base xs\<close> says that the cells \<open>xs\<close> hang off \<open>base\<close> in this order. The
  third is the interface the tables are built on, a locale over abstract list memories,
  interpreted on the operations of the first part.
\<close>

section \<open>Operations\<close>

type_synonym addr = nat

record glthread =
  left :: "addr option"
  right :: "addr option"

type_synonym gheap = "addr \<Rightarrow> glthread"

definition set_left :: "addr \<Rightarrow> addr option \<Rightarrow> gheap \<Rightarrow> gheap" where
  "set_left p v h = h(p := (h p)\<lparr>left := v\<rparr>)"

definition set_right :: "addr \<Rightarrow> addr option \<Rightarrow> gheap \<Rightarrow> gheap" where
  "set_right p v h = h(p := (h p)\<lparr>right := v\<rparr>)"

definition init_glthread :: "addr \<Rightarrow> gheap \<Rightarrow> gheap" where
  "init_glthread p h = set_right p None (set_left p None h)"

definition glthread_add_next :: "addr \<Rightarrow> addr \<Rightarrow> gheap \<Rightarrow> gheap" where
  "glthread_add_next cur new h =
     (case right (h cur) of
        None \<Rightarrow> set_left new (Some cur) (set_right cur (Some new) h)
      | Some temp \<Rightarrow>
          set_left temp (Some new)
            (set_right new (Some temp)
              (set_left new (Some cur)
                (set_right cur (Some new) h))))"

definition glthread_add_before :: "addr \<Rightarrow> addr \<Rightarrow> gheap \<Rightarrow> gheap" where
  "glthread_add_before cur new h =
     (case left (h cur) of
        None \<Rightarrow>
          set_left cur (Some new)
            (set_right new (Some cur)
              (set_left new None h))
      | Some temp \<Rightarrow>
          set_left cur (Some new)
            (set_right new (Some cur)
              (set_left new (Some temp)
                (set_right temp (Some new) h))))"

definition remove_glthread :: "addr \<Rightarrow> gheap \<Rightarrow> gheap" where
  "remove_glthread cur h =
     (case left (h cur) of
        None \<Rightarrow>
          (case right (h cur) of
             Some r \<Rightarrow> set_right cur None (set_left r None h)
           | None \<Rightarrow> h)
      | Some l \<Rightarrow>
          (case right (h cur) of
             None \<Rightarrow> set_left cur None (set_right l None h)
           | Some r \<Rightarrow>
               (let h1 = set_right l (right (h cur)) h;
                    h2 = set_left r (left (h1 cur)) h1
                in set_right cur None (set_left cur None h2))))"

definition is_glthread_list_empty :: "addr \<Rightarrow> gheap \<Rightarrow> bool" where
  "is_glthread_list_empty base h \<longleftrightarrow> right (h base) = None \<and> left (h base) = None"

text \<open>
  The loop \<^verbatim>\<open>ITERATE_GLTHREAD_BEGIN .. END\<close> reads the successor of the current cell
  before it runs the body, so that the body may unlink the cell. On a cyclic memory the
  loop does not end, hence the \<open>option\<close>.
\<close>

partial_function (option) iterate_loop ::
  "(addr \<Rightarrow> gheap \<Rightarrow> gheap) \<Rightarrow> addr option \<Rightarrow> gheap \<Rightarrow> gheap option" where
  "iterate_loop body ptr h =
     (case ptr of
        None \<Rightarrow> Some h
      | Some p \<Rightarrow> iterate_loop body (right (h p)) (body p h))"

definition delete_glthread_list :: "addr \<Rightarrow> gheap \<Rightarrow> gheap option" where
  "delete_glthread_list base h = iterate_loop remove_glthread (right (h base)) h"

text \<open>A loop that returns from its body at the first cell with a property.\<close>

partial_function (option) search_loop ::
  "(addr \<Rightarrow> bool) \<Rightarrow> gheap \<Rightarrow> addr option \<Rightarrow> addr option option" where
  "search_loop P h ptr =
     (case ptr of
        None \<Rightarrow> Some None
      | Some p \<Rightarrow> if P p then Some (Some p) else search_loop P h (right (h p)))"

partial_function (option) last_loop ::
  "gheap \<Rightarrow> addr option \<Rightarrow> addr option \<Rightarrow> addr option option" where
  "last_loop h ptr prev =
     (case ptr of
        None \<Rightarrow> Some prev
      | Some p \<Rightarrow> last_loop h (right (h p)) (Some p))"

definition glthread_add_last :: "addr \<Rightarrow> addr \<Rightarrow> gheap \<Rightarrow> gheap option" where
  "glthread_add_last base new h =
     map_option
       (\<lambda>prev. case prev of
                  Some p \<Rightarrow> glthread_add_next p new h
                | None \<Rightarrow> glthread_add_next base new h)
       (last_loop h (right (h base)) None)"

partial_function (option) count_loop :: "gheap \<Rightarrow> addr option \<Rightarrow> u32 \<Rightarrow> u32 option" where
  "count_loop h ptr count =
     (case ptr of
        None \<Rightarrow> Some count
      | Some p \<Rightarrow> count_loop h (right (h p)) (count + 1))"

definition get_glthread_list_count :: "addr \<Rightarrow> gheap \<Rightarrow> u32 option" where
  "get_glthread_list_count base h = count_loop h (right (h base)) 0"

text \<open>
  \<open>cmp\<close> is the caller's \<^verbatim>\<open>comp_fn\<close> on the records around two cells. The loop of the
  insertion either inserts behind the first cell that compares above the new one, or gives
  the last cell it saw.
\<close>

partial_function (option) priority_loop ::
  "(addr \<Rightarrow> addr \<Rightarrow> int) \<Rightarrow> addr \<Rightarrow> gheap \<Rightarrow> addr option \<Rightarrow> addr option \<Rightarrow> (gheap + addr option) option"
where
  "priority_loop cmp new h ptr prev =
     (case ptr of
        None \<Rightarrow> Some (Inr prev)
      | Some cur \<Rightarrow>
          (if cmp new cur \<noteq> -1 then priority_loop cmp new h (right (h cur)) (Some cur)
           else Some (Inl (glthread_add_next cur new h))))"

definition glthread_priority_insert ::
  "(addr \<Rightarrow> addr \<Rightarrow> int) \<Rightarrow> addr \<Rightarrow> addr \<Rightarrow> gheap \<Rightarrow> gheap res option" where
  "glthread_priority_insert cmp base new h0 =
     (let h = init_glthread new h0 in
      if is_glthread_list_empty base h then Some (Inr (glthread_add_next base new h))
      else
        (case right (h base) of
           None \<Rightarrow> Some (Inl Null_deref)
         | Some first \<Rightarrow>
             (if right (h first) = None then
                (if cmp first new = -1 then Some (Inr (glthread_add_next first new h))
                 else Some (Inr (glthread_add_next base new h)))
              else if cmp new first = -1 then Some (Inr (glthread_add_next base new h))
              else
                map_option
                  (\<lambda>r. case r of
                          Inl h' \<Rightarrow> Inr h'
                        | Inr prev \<Rightarrow>
                            rbind (deref prev) (\<lambda>p. Inr (glthread_add_next p new h)))
                  (priority_loop cmp new h (right (h base)) None))))"


section \<open>The list a memory holds\<close>

text \<open>
  \<open>dll h prev xs q\<close>: to the right of \<open>prev\<close> follow the cells \<open>xs\<close>, each linked back to
  the one before it, and the last one (or \<open>prev\<close>) points right to \<open>q\<close>.
\<close>

primrec dll :: "gheap \<Rightarrow> addr \<Rightarrow> addr list \<Rightarrow> addr option \<Rightarrow> bool" where
  "dll h prev [] q \<longleftrightarrow> right (h prev) = q"
| "dll h prev (x # xs) q \<longleftrightarrow>
     right (h prev) = Some x \<and> left (h x) = Some prev \<and> dll h x xs q"

definition glist :: "gheap \<Rightarrow> addr \<Rightarrow> addr list \<Rightarrow> bool" where
  "glist h base xs \<longleftrightarrow> left (h base) = None \<and> distinct (base # xs) \<and> dll h base xs None"

lemma set_left_sel [simp]:
  "left (set_left p v h q) = (if q = p then v else left (h q))"
  "right (set_left p v h q) = right (h q)"
  by (simp_all add: set_left_def)

lemma set_right_sel [simp]:
  "left (set_right p v h q) = left (h q)"
  "right (set_right p v h q) = (if q = p then v else right (h q))"
  by (simp_all add: set_right_def)

lemma init_glthread_sel [simp]:
  "left (init_glthread p h q) = (if q = p then None else left (h q))"
  "right (init_glthread p h q) = (if q = p then None else right (h q))"
  by (simp_all add: init_glthread_def)

lemma dll_append:
  "dll h prev (xs @ x # ys) q \<longleftrightarrow>
     dll h prev xs (Some x) \<and> left (h x) = Some (last (prev # xs)) \<and> dll h x ys q"
  by (induction xs arbitrary: prev) auto

lemma dll_cong:
  assumes "right (h' prev) = right (h prev)"
    and "\<And>y. y \<in> set xs \<Longrightarrow> left (h' y) = left (h y) \<and> right (h' y) = right (h y)"
  shows "dll h' prev xs q = dll h prev xs q"
  using assms by (induction xs arbitrary: prev) auto

lemma dll_last: "dll h prev xs q \<Longrightarrow> right (h (last (prev # xs))) = q"
  by (induction xs arbitrary: prev) auto

text \<open>Redirecting the last cell redirects the list; cells outside are of no concern.\<close>

lemma dll_redirect:
  assumes "dll h prev xs q" and "distinct (prev # xs)"
    and "\<And>y. y \<in> set xs \<Longrightarrow> left (h' y) = left (h y)"
    and "\<And>y. y \<in> set (prev # xs) \<Longrightarrow> y \<noteq> last (prev # xs) \<Longrightarrow> right (h' y) = right (h y)"
    and "right (h' (last (prev # xs))) = q'"
  shows "dll h' prev xs q'"
  using assms
proof (induction xs arbitrary: prev)
  case Nil
  then show ?case by simp
next
  case (Cons x xs)
  have ne: "prev \<noteq> last (prev # x # xs)"
    using Cons.prems(2) last_in_set [of "x # xs"] by auto
  have "dll h' x xs q'"
    by (rule Cons.IH) (use Cons.prems in auto)
  moreover have "right (h' prev) = right (h prev)" "left (h' x) = left (h x)"
    using Cons.prems(3,4) ne by auto
  ultimately show ?case
    using Cons.prems(1) by simp
qed

lemma dll_unique: "dll h prev xs None \<Longrightarrow> dll h prev ys None \<Longrightarrow> xs = ys"
proof (induction xs arbitrary: prev ys)
  case Nil
  then show ?case by (cases ys) auto
next
  case (Cons x xs)
  then show ?case by (cases ys) auto
qed

text \<open>The memory determines the list.\<close>

lemma glist_unique: "glist h base xs \<Longrightarrow> glist h base ys \<Longrightarrow> xs = ys"
  by (auto simp: glist_def intro: dll_unique)

lemma glist_cong:
  assumes "\<And>y. y \<in> set (base # xs) \<Longrightarrow> left (h' y) = left (h y) \<and> right (h' y) = right (h y)"
  shows "glist h' base xs = glist h base xs"
  using dll_cong [of h' base h xs] assms by (auto simp: glist_def)

lemma glist_init_other [simp]:
  "q \<notin> set (base # xs) \<Longrightarrow> glist (init_glthread q h) base xs = glist h base xs"
  by (rule glist_cong) auto

lemma glist_init_base: "glist (init_glthread base h) base []"
  by (simp add: glist_def)

lemma glist_empty_iff: "glist h base xs \<Longrightarrow> is_glthread_list_empty base h \<longleftrightarrow> xs = []"
  by (cases xs) (auto simp: glist_def is_glthread_list_empty_def)


section \<open>What the operations do to the list\<close>

text \<open>
  Insertion behind the last cell of \<open>base # xs\<close>. With \<open>xs = []\<close> it is the insertion at
  the head the tables use. The new cell must not be on the list; where it becomes the last
  one, its \<open>right\<close> must already be null, since \<^verbatim>\<open>glthread_add_next\<close> does not clear it.
\<close>

lemma glist_add_next:
  assumes l: "glist h base (xs @ ys)"
    and new: "new \<notin> set (base # xs @ ys)"
    and nul: "right (h new) = None"
  shows "glist (glthread_add_next (last (base # xs)) new h) base (xs @ new # ys)"
proof (cases ys)
  case Nil
  have d: "dll h base xs None" "distinct (base # xs)" "left (h base) = None"
    using l Nil by (simp_all add: glist_def)
  let ?c = "last (base # xs)"
  let ?h' = "set_left new (Some ?c) (set_right ?c (Some new) h)"
  have c: "?c \<in> set (base # xs)" by (rule last_in_set) simp
  have op: "glthread_add_next ?c new h = ?h'"
    using dll_last [OF d(1)] by (simp add: glthread_add_next_def)
  have "dll ?h' base xs (Some new)"
    by (rule dll_redirect [OF d(1,2)]) (use new Nil in auto)
  moreover have "right (?h' new) = None" "left (?h' new) = Some ?c" "left (?h' base) = None"
    using nul new c d(3) by auto
  ultimately show ?thesis
    using d(2) new Nil unfolding op glist_def dll_append by auto
next
  case (Cons y zs)
  let ?c = "last (base # xs)"
  have d: "dll h base xs (Some y)" "left (h y) = Some ?c" "dll h y zs None"
    "distinct (base # xs @ y # zs)" "left (h base) = None"
    using l Cons by (simp_all only: glist_def dll_append)
  let ?h' = "set_left y (Some new) (set_right new (Some y) (set_left new (Some ?c) (set_right ?c (Some new) h)))"
  have c: "?c \<in> set (base # xs)" by (rule last_in_set) simp
  have op: "glthread_add_next ?c new h = ?h'"
    using dll_last [OF d(1)] by (simp add: glthread_add_next_def)
  have dist: "distinct (base # xs)" and yout: "y \<notin> set (base # xs)"
    and zout: "set zs \<inter> set (base # xs) = {}" "y \<notin> set zs"
    using d(4) by auto
  have "dll ?h' base xs (Some new)"
    by (rule dll_redirect [OF d(1) dist]) (use new Cons yout in auto)
  moreover have "dll ?h' y zs None = dll h y zs None"
    by (rule dll_cong) (use new Cons c zout yout in auto)
  moreover have "right (?h' new) = Some y" "left (?h' y) = Some new"
    "left (?h' new) = Some ?c" "left (?h' base) = None"
    using new Cons yout d(5) by auto
  ultimately show ?thesis
    using d(3,4) new Cons unfolding op glist_def dll_append by auto
qed

lemma glist_add_head:
  assumes "glist h base xs" and "new \<notin> set (base # xs)" and "right (h new) = None"
  shows "glist (glthread_add_next base new h) base (new # xs)"
  using glist_add_next [of h base "[]" xs new] assms by simp

lemma glist_add_next_mid:
  assumes "glist h base (xs @ x # ys)" and "new \<notin> set (base # xs @ x # ys)" and "right (h new) = None"
  shows "glist (glthread_add_next x new h) base (xs @ x # new # ys)"
  using glist_add_next [of h base "xs @ [x]" ys new] assms by simp

text \<open>Insertion in front of a cell of the list.\<close>

lemma glist_add_before:
  assumes l: "glist h base (xs @ x # ys)" and new: "new \<notin> set (base # xs @ x # ys)"
  shows "glist (glthread_add_before x new h) base (xs @ new # x # ys)"
proof -
  let ?c = "last (base # xs)"
  have d: "dll h base xs (Some x)" "left (h x) = Some ?c" "dll h x ys None"
    "distinct (base # xs @ x # ys)" "left (h base) = None"
    using l by (simp_all only: glist_def dll_append)
  let ?h' = "set_left x (Some new) (set_right new (Some x) (set_left new (Some ?c) (set_right ?c (Some new) h)))"
  have c: "?c \<in> set (base # xs)" by (rule last_in_set) simp
  have op: "glthread_add_before x new h = ?h'"
    using d(2) by (simp add: glthread_add_before_def)
  have dist: "distinct (base # xs)" and xout: "x \<notin> set (base # xs)"
    and yout: "set ys \<inter> set (base # xs) = {}" "x \<notin> set ys"
    using d(4) by auto
  have "dll ?h' base xs (Some new)"
    by (rule dll_redirect [OF d(1) dist]) (use new xout in auto)
  moreover have "dll ?h' x ys None = dll h x ys None"
    by (rule dll_cong) (use new c yout xout in auto)
  moreover have "right (?h' new) = Some x" "left (?h' x) = Some new"
    "left (?h' new) = Some ?c" "left (?h' base) = None"
    using new xout d(5) by auto
  ultimately show ?thesis
    using d(3,4) new unfolding op glist_def dll_append by auto
qed

text \<open>Removal of a cell; it leaves the cell with null links.\<close>

lemma glist_remove:
  assumes l: "glist h base (xs @ x # ys)"
  shows "glist (remove_glthread x h) base (xs @ ys)"
    and "left (remove_glthread x h x) = None" and "right (remove_glthread x h x) = None"
proof -
  let ?c = "last (base # xs)"
  have d: "dll h base xs (Some x)" "left (h x) = Some ?c" "dll h x ys None"
    "distinct (base # xs @ x # ys)" "left (h base) = None"
    using l by (simp_all only: glist_def dll_append)
  have c: "?c \<in> set (base # xs)" by (rule last_in_set) simp
  have dist: "distinct (base # xs)" and xout: "x \<notin> set (base # xs)"
    and yout: "set ys \<inter> set (base # xs) = {}" "x \<notin> set ys"
    using d(4) by auto
  have xc: "x \<noteq> ?c" using c xout by metis
  have "glist (remove_glthread x h) base (xs @ ys) \<and>
    left (remove_glthread x h x) = None \<and> right (remove_glthread x h x) = None"
  proof (cases ys)
    case Nil
    let ?h' = "set_left x None (set_right ?c None h)"
    have op: "remove_glthread x h = ?h'"
      using d(2,3) Nil by (simp add: remove_glthread_def)
    have "dll ?h' base xs None"
      by (rule dll_redirect [OF d(1) dist]) (use xout in auto)
    then show ?thesis
      using d(3,5) dist Nil xc xout unfolding op glist_def by auto
  next
    case (Cons y zs)
    have y: "right (h x) = Some y" "left (h y) = Some x" "dll h y zs None" and yx: "y \<noteq> x"
      using d(3) Cons yout by auto
    let ?h' = "set_right x None (set_left x None (set_left y (Some ?c) (set_right ?c (Some y) h)))"
    have op: "remove_glthread x h = ?h'"
      using d(2) y(1) xc by (simp add: remove_glthread_def Let_def)
    have "dll ?h' base xs (Some y)"
      by (rule dll_redirect [OF d(1) dist]) (use xout yout Cons xc in auto)
    moreover have "dll ?h' y zs None = dll h y zs None"
      by (rule dll_cong) (use c yout xout Cons d(4) in auto)
    moreover have "left (?h' y) = Some ?c"
      using yx by simp
    ultimately have "dll ?h' base (xs @ ys) None"
      using y(3) unfolding Cons dll_append by (simp only:)
    then show ?thesis
      using d(4,5) Cons unfolding op glist_def by auto
  qed
  then show "glist (remove_glthread x h) base (xs @ ys)"
    and "left (remove_glthread x h x) = None" and "right (remove_glthread x h x) = None"
    by simp_all
qed


section \<open>Loops over a list\<close>

definition ohead :: "'a list \<Rightarrow> 'a option" where
  "ohead xs = (case xs of [] \<Rightarrow> None | x # _ \<Rightarrow> Some x)"

lemma ohead_simps [simp]: "ohead [] = None" "ohead (x # xs) = Some x"
  by (simp_all add: ohead_def)

lemma glist_right_last:
  "glist h base (ys @ xs) \<Longrightarrow> right (h (last (base # ys))) = ohead xs"
proof (cases xs)
  case Nil
  assume "glist h base (ys @ xs)"
  then show ?thesis using Nil by (simp only: glist_def append_Nil2 dll_last ohead_simps)
next
  case (Cons x zs)
  assume "glist h base (ys @ xs)"
  then have "dll h base ys (Some x)" using Cons by (simp only: glist_def dll_append)
  then show ?thesis using Cons by (simp only: dll_last ohead_simps)
qed

lemma glist_first: "glist h base xs \<Longrightarrow> right (h base) = ohead xs"
  using glist_right_last [of h base "[]" xs] by simp

lemma glist_next: "glist h base (ys @ x # xs) \<Longrightarrow> right (h x) = ohead xs"
  using glist_right_last [of h base "ys @ [x]" xs] by simp

text \<open>The delete-safe loop with a conditional unlink keeps exactly the cells that fail the test.\<close>

definition unlink_if :: "(addr \<Rightarrow> bool) \<Rightarrow> addr \<Rightarrow> gheap \<Rightarrow> gheap" where
  "unlink_if P p h = (if P p then remove_glthread p h else h)"

lemma remove_frame:
  assumes "glist h base (xs @ x # ys)" and "q \<notin> set (base # xs @ x # ys)"
  shows "remove_glthread x h q = h q"
proof -
  have "left (h x) = Some (last (base # xs))"
    using assms(1) by (simp only: glist_def dll_append)
  moreover have "right (h x) = ohead ys"
    using assms(1) by (rule glist_next)
  moreover have "last (base # xs) \<in> set (base # xs)" by (rule last_in_set) simp
  ultimately show ?thesis
    using assms(2)
    by (cases ys) (auto simp: remove_glthread_def set_left_def set_right_def Let_def)
qed

lemma iterate_unlink:
  assumes "glist h base (ys @ xs)"
  shows "\<exists>h'. iterate_loop (unlink_if P) (ohead xs) h = Some h' \<and>
           glist h' base (ys @ filter (\<lambda>x. \<not> P x) xs) \<and>
           (\<forall>x \<in> set xs. P x \<longrightarrow> left (h' x) = None \<and> right (h' x) = None) \<and>
           (\<forall>q. q \<notin> set (base # ys @ xs) \<longrightarrow> h' q = h q)"
  using assms
proof (induction xs arbitrary: ys h)
  case Nil
  then show ?case by (simp add: iterate_loop.simps)
next
  case (Cons x xs)
  have nxt: "right (h x) = ohead xs"
    using Cons.prems by (rule glist_next)
  show ?case
  proof (cases "P x")
    case True
    let ?h = "remove_glthread x h"
    have r: "glist ?h base (ys @ xs)" "left (?h x) = None" "right (?h x) = None"
      using glist_remove [OF Cons.prems] by simp_all
    have out: "x \<notin> set (base # ys @ xs)"
      using Cons.prems by (auto simp: glist_def)
    obtain h' where h': "iterate_loop (unlink_if P) (ohead xs) ?h = Some h'"
      "glist h' base (ys @ filter (\<lambda>x. \<not> P x) xs)"
      "\<forall>x \<in> set xs. P x \<longrightarrow> left (h' x) = None \<and> right (h' x) = None"
      "\<forall>q. q \<notin> set (base # ys @ xs) \<longrightarrow> h' q = ?h q"
      using Cons.IH [OF r(1)] by blast
    have "h' x = ?h x" using h'(4) out by blast
    moreover have "\<forall>q. q \<notin> set (base # ys @ x # xs) \<longrightarrow> h' q = h q"
      using h'(4) remove_frame [OF Cons.prems] by simp
    moreover have "iterate_loop (unlink_if P) (ohead (x # xs)) h = Some h'"
      using h'(1) nxt True unlink_if_def [of P x h] by (simp add: iterate_loop.simps [of _ "Some x"])
    ultimately show ?thesis
      using h'(2,3) r(2,3) True by auto
  next
    case False
    have "glist h base ((ys @ [x]) @ xs)" using Cons.prems by simp
    moreover have "iterate_loop (unlink_if P) (ohead (x # xs)) h
        = iterate_loop (unlink_if P) (ohead xs) h"
      using nxt False unlink_if_def [of P x h] by (simp add: iterate_loop.simps [of _ "Some x"])
    ultimately show ?thesis
      using Cons.IH [of h "ys @ [x]"] False by simp
  qed
qed

lemma glist_delete_list:
  assumes "glist h base xs"
  shows "\<exists>h'. delete_glthread_list base h = Some h' \<and> glist h' base [] \<and>
           (\<forall>x \<in> set xs. left (h' x) = None \<and> right (h' x) = None) \<and>
           (\<forall>q. q \<notin> set (base # xs) \<longrightarrow> h' q = h q)"
proof -
  have "unlink_if (\<lambda>_. True) = remove_glthread"
    by (simp add: unlink_if_def fun_eq_iff)
  then show ?thesis
    using iterate_unlink [of h base "[]" xs "\<lambda>_. True"] assms glist_first [OF assms]
    by (simp add: delete_glthread_list_def)
qed

lemma search_loop_find:
  "glist h base (ys @ xs) \<Longrightarrow> search_loop P h (ohead xs) = Some (List.find P xs)"
proof (induction xs arbitrary: ys)
  case Nil
  then show ?case by (simp add: search_loop.simps)
next
  case (Cons x xs)
  have "right (h x) = ohead xs" using Cons.prems by (rule glist_next)
  moreover have "search_loop P h (ohead xs) = Some (List.find P xs)"
    using Cons.IH [of "ys @ [x]"] Cons.prems by simp
  ultimately show ?case by (simp add: search_loop.simps [of _ _ "Some x"])
qed

lemma last_loop_last:
  "glist h base (ys @ xs) \<Longrightarrow>
     last_loop h (ohead xs) prev = Some (if xs = [] then prev else Some (last xs))"
proof (induction xs arbitrary: ys prev)
  case Nil
  then show ?case by (simp add: last_loop.simps)
next
  case (Cons x xs)
  have "right (h x) = ohead xs" using Cons.prems by (rule glist_next)
  then show ?case
    using Cons.IH [of "ys @ [x]" "Some x"] Cons.prems by (simp add: last_loop.simps [of _ "Some x"])
qed

lemma glist_add_last:
  assumes "glist h base xs" and "new \<notin> set (base # xs)" and "right (h new) = None"
  shows "\<exists>h'. glthread_add_last base new h = Some h' \<and> glist h' base (xs @ [new])"
proof -
  have "last_loop h (right (h base)) None = Some (if xs = [] then None else Some (last xs))"
    using last_loop_last [of h base "[]" xs None] glist_first [OF assms(1)] assms(1) by simp
  then have "glthread_add_last base new h = Some (glthread_add_next (last (base # xs)) new h)"
    by (simp add: glthread_add_last_def)
  then show ?thesis
    using glist_add_next [of h base xs "[]" new] assms by simp
qed

lemma count_loop_length:
  "glist h base (ys @ xs) \<Longrightarrow> count_loop h (ohead xs) n = Some (n + of_nat (length xs))"
proof (induction xs arbitrary: ys n)
  case Nil
  then show ?case by (simp add: count_loop.simps)
next
  case (Cons x xs)
  have "right (h x) = ohead xs" using Cons.prems by (rule glist_next)
  then show ?case
    using Cons.IH [of "ys @ [x]" "n + 1"] Cons.prems
    by (simp add: count_loop.simps [of _ "Some x"] add.assoc)
qed

lemma glist_count:
  "glist h base xs \<Longrightarrow> get_glthread_list_count base h = Some (of_nat (length xs))"
  using count_loop_length [of h base "[]" xs 0] glist_first [of h base xs]
  by (simp add: get_glthread_list_count_def)


section \<open>Priority insertion\<close>

text \<open>
  What \<^verbatim>\<open>glthread_priority_insert\<close> does to the list, in closed form. The last case is the
  loop: the new cell goes \<^emph>\<open>behind\<close> the first cell it precedes.
\<close>

fun pinsert :: "(addr \<Rightarrow> addr \<Rightarrow> int) \<Rightarrow> addr \<Rightarrow> addr list \<Rightarrow> addr list" where
  "pinsert cmp new [] = [new]"
| "pinsert cmp new [x] = (if cmp x new = -1 then [x, new] else [new, x])"
| "pinsert cmp new (x # y # ys) =
     (if cmp new x = -1 then new # x # y # ys
      else
        (let xs = x # y # ys; smaller = takeWhile (\<lambda>c. cmp new c \<noteq> -1) xs in
         case dropWhile (\<lambda>c. cmp new c \<noteq> -1) xs of
           [] \<Rightarrow> xs @ [new]
         | c # cs \<Rightarrow> smaller @ c # new # cs))"

lemma priority_loop_split:
  assumes "glist h base (ys @ xs)"
  shows "priority_loop cmp new h (ohead xs) prev =
     Some (case dropWhile (\<lambda>c. cmp new c \<noteq> -1) xs of
             [] \<Rightarrow> Inr (if xs = [] then prev else Some (last xs))
           | c # cs \<Rightarrow> Inl (glthread_add_next c new h))"
  using assms
proof (induction xs arbitrary: ys prev)
  case Nil
  then show ?case by (simp add: priority_loop.simps)
next
  case (Cons x xs)
  have "right (h x) = ohead xs" using Cons.prems by (rule glist_next)
  then show ?case
    using Cons.IH [of "ys @ [x]" "Some x"] Cons.prems
    by (cases "dropWhile (\<lambda>c. cmp new c \<noteq> -1) xs")
      (simp_all add: priority_loop.simps [of _ _ _ "Some x"] del: dropWhile_eq_Nil_conv)
qed

lemma glist_priority_insert:
  assumes l: "glist h base xs" and new: "new \<notin> set (base # xs)"
  shows "\<exists>h'. glthread_priority_insert cmp base new h = Some (Inr h') \<and>
           glist h' base (pinsert cmp new xs)"
proof -
  let ?h = "init_glthread new h"
  have l': "glist ?h base xs" using l new by (simp add: glist_init_other)
  have nul: "right (?h new) = None" by simp
  note e = glist_empty_iff [OF l'] and f = glist_first [OF l']
  note head = glist_add_head [OF l' new nul]
  consider "xs = []" | x where "xs = [x]" | x y ys where "xs = x # y # ys"
    by (cases xs; cases "tl xs") auto
  then show ?thesis
  proof cases
    case 1
    then show ?thesis using e head by (simp add: glthread_priority_insert_def Let_def)
  next
    case 2
    have "right (?h x) = None"
      using glist_next [of ?h base "[]" x "[]"] l' 2 by simp
    moreover have "glist (glthread_add_next x new ?h) base [x, new]"
      using glist_add_next_mid [of ?h base "[]" x "[]" new] l' new nul 2 by simp
    ultimately show ?thesis
      using e f head 2 by (simp add: glthread_priority_insert_def Let_def)
  next
    case 3
    have r: "right (?h x) = Some y"
      using glist_next [of ?h base "[]" x "y # ys"] l' 3 by simp
    let ?P = "\<lambda>c. cmp new c \<noteq> -1"
    have loop: "priority_loop cmp new ?h (right (?h base)) None =
      Some (case dropWhile ?P xs of [] \<Rightarrow> Inr (Some (last xs)) | c # cs \<Rightarrow> Inl (glthread_add_next c new ?h))"
      using priority_loop_split [of ?h base "[]" xs cmp new None] l' f 3 by simp
    have op: "glthread_priority_insert cmp base new h =
      (if cmp new x = -1 then Some (Inr (glthread_add_next base new ?h))
       else Some (Inr (case dropWhile ?P xs of [] \<Rightarrow> glthread_add_next (last xs) new ?h
                       | c # cs \<Rightarrow> glthread_add_next c new ?h)))"
      using e f r 3 loop
      by (cases "dropWhile ?P xs")
        (simp_all add: glthread_priority_insert_def Let_def
          del: dropWhile_eq_Nil_conv init_glthread_sel dropWhile.simps)
    show ?thesis
    proof (cases "cmp new x = -1")
      case True
      then show ?thesis using head 3 op by simp
    next
      case False
      show ?thesis
      proof (cases "dropWhile ?P xs")
        case Nil
        then have "pinsert cmp new xs = xs @ [new]" using False 3 by (simp add: Let_def)
        moreover have "glist (glthread_add_next (last xs) new ?h) base (xs @ [new])"
          using glist_add_next [of ?h base xs "[]" new] l' new nul 3 by simp
        ultimately show ?thesis using op False Nil by simp
      next
        case (Cons c cs)
        have split: "xs = takeWhile ?P xs @ c # cs"
          using takeWhile_dropWhile_id [of ?P xs] Cons by simp
        have p: "pinsert cmp new xs = takeWhile ?P xs @ c # new # cs"
          using False Cons unfolding 3 by (simp only: pinsert.simps Let_def if_False list.case)
        have "glist ?h base (takeWhile ?P xs @ c # cs)" "new \<notin> set (base # takeWhile ?P xs @ c # cs)"
          using l' new split by simp_all
        from glist_add_next_mid [OF this nul] show ?thesis
          unfolding p op using False Cons by simp
      qed
    qed
  qed
qed


section \<open>The list interface of the tables\<close>

text \<open>
  The tables use the list through four operations: initialise a fresh cell and put it at
  the head, walk to the first cell with a property, and unlink every cell with a property
  in a delete-safe loop. The locale states what they may rely on.
\<close>

definition gl_push :: "addr \<Rightarrow> addr \<Rightarrow> gheap \<Rightarrow> gheap" where
  "gl_push base new h = glthread_add_next base new (init_glthread new h)"

definition gl_purge :: "(addr \<Rightarrow> bool) \<Rightarrow> addr \<Rightarrow> gheap \<Rightarrow> gheap option" where
  "gl_purge P base h = iterate_loop (unlink_if P) (right (h base)) h"

definition gl_search :: "(addr \<Rightarrow> bool) \<Rightarrow> gheap \<Rightarrow> addr \<Rightarrow> addr option option" where
  "gl_search P h base = search_loop P h (right (h base))"

locale intrusive_list =
  fixes repr :: "'h \<Rightarrow> addr \<Rightarrow> addr list \<Rightarrow> bool"
    and push :: "addr \<Rightarrow> addr \<Rightarrow> 'h \<Rightarrow> 'h"
    and purge :: "(addr \<Rightarrow> bool) \<Rightarrow> addr \<Rightarrow> 'h \<Rightarrow> 'h option"
    and search :: "(addr \<Rightarrow> bool) \<Rightarrow> 'h \<Rightarrow> addr \<Rightarrow> addr option option"
  assumes repr_distinct: "repr h base xs \<Longrightarrow> distinct (base # xs)"
    and repr_push: "repr h base xs \<Longrightarrow> new \<notin> set (base # xs) \<Longrightarrow> repr (push base new h) base (new # xs)"
    and repr_purge: "repr h base xs \<Longrightarrow>
      \<exists>h'. purge P base h = Some h' \<and> repr h' base (filter (\<lambda>x. \<not> P x) xs)"
    and repr_search: "repr h base xs \<Longrightarrow> search P h base = Some (List.find P xs)"
begin

text \<open>A cell that was pushed last is found before any older one.\<close>

lemma search_push:
  assumes "repr h base xs" and "new \<notin> set (base # xs)"
  shows "search P (push base new h) base = Some (if P new then Some new else List.find P xs)"
  using repr_search [OF repr_push [OF assms], of P] by simp

text \<open>After a purge no cell with the property is left.\<close>

lemma search_purge:
  assumes "repr h base xs"
  obtains h' where "purge P base h = Some h'" and "repr h' base (filter (\<lambda>x. \<not> P x) xs)"
    and "search P h' base = Some None"
proof -
  obtain h' where h': "purge P base h = Some h'" "repr h' base (filter (\<lambda>x. \<not> P x) xs)"
    using repr_purge [OF assms] by blast
  have "List.find P (filter (\<lambda>x. \<not> P x) xs) = None"
    by (auto simp: find_None_iff)
  then show thesis using that h' repr_search [OF h'(2), of P] by simp
qed

text \<open>Replacing: purge, then push a fresh cell.\<close>

lemma replace:
  assumes "repr h base xs" and "new \<notin> set (base # xs)"
  shows "\<exists>h'. purge P base h = Some h' \<and>
           repr (push base new h') base (new # filter (\<lambda>x. \<not> P x) xs)"
  using repr_purge [OF assms(1), of P] assms(2) by (auto intro!: repr_push)

end

interpretation gl: intrusive_list glist gl_push gl_purge gl_search
proof unfold_locales
  fix h base xs
  show "distinct (base # xs)" if "glist h base xs"
    using that by (simp add: glist_def)
  show "glist (gl_push base new h) base (new # xs)"
    if "glist h base xs" "new \<notin> set (base # xs)" for new
    unfolding gl_push_def by (rule glist_add_head) (use that in \<open>simp_all add: glist_init_other\<close>)
  show "\<exists>h'. gl_purge P base h = Some h' \<and> glist h' base (filter (\<lambda>x. \<not> P x) xs)"
    if "glist h base xs" for P
    using iterate_unlink [of h base "[]" xs P] glist_first [OF that] that
    by (auto simp: gl_purge_def)
  show "gl_search P h base = Some (List.find P xs)" if "glist h base xs" for P
    using search_loop_find [of h base "[]" xs P] glist_first [OF that] that
    by (simp add: gl_search_def)
qed



section \<open>Properties\<close>

text \<open>The memory of three cells used as an example: base 0 with the elements 1 and 3.\<close>

definition example_heap :: gheap where
  "example_heap = gl_push 0 1 (gl_push 0 3 (init_glthread 0 (\<lambda>_. \<lparr>left = None, right = None\<rparr>)))"

lemma example_glist: "glist example_heap 0 [1, 3]"
  unfolding example_heap_def
  by (intro gl.repr_push) (simp_all add: glist_init_base)

text \<open>C39: the list operations on linked cells are the operations on the list of cells: insertion
  at the head and at the end, removal of any element, deletion of the whole list (which
  ends), and the count.\<close>

theorem glthread_refines_list:
  assumes "glist h base xs" and "new \<notin> set (base # xs)"
  shows "glist (glthread_add_next base new (init_glthread new h)) base (new # xs) \<and>
    (\<exists>h'. glthread_add_last base new (init_glthread new h) = Some h' \<and> glist h' base (xs @ [new])) \<and>
    (\<forall>ys x zs. xs = ys @ x # zs \<longrightarrow> glist (remove_glthread x h) base (ys @ zs)) \<and>
    (\<exists>h'. delete_glthread_list base h = Some h' \<and> glist h' base []) \<and>
    get_glthread_list_count base h = Some (of_nat (length xs))"
proof -
  have i: "glist (init_glthread new h) base xs" "right (init_glthread new h new) = None"
    using assms by (simp_all add: glist_init_other)
  show ?thesis
    using glist_add_head [OF i(1) assms(2) i(2)] glist_add_last [OF i(1) assms(2) i(2)]
      glist_remove [of h base] glist_delete_list [OF assms(1)] glist_count [OF assms(1)] assms(1)
    by auto
qed

lemma glthread_refines_list_witness:
  "glist (remove_glthread 1 example_heap) 0 [3] \<and> get_glthread_list_count 0 example_heap = Some 2"
  using glthread_refines_list [OF example_glist, of 2] by (auto dest: spec [of _ "[]"])

text \<open>\<^verbatim>\<open>glthread_priority_insert\<close> always returns on a proper list and computes \<open>pinsert\<close>.\<close>

theorem priority_insert_computes:
  assumes "glist h base xs" and "new \<notin> set (base # xs)"
  shows "\<exists>h'. glthread_priority_insert cmp base new h = Some (Inr h') \<and> glist h' base (pinsert cmp new xs)"
  by (rule glist_priority_insert) (rule assms)+

definition by_address :: "addr \<Rightarrow> addr \<Rightarrow> int" where
  "by_address a b = (if a < b then -1 else if a = b then 0 else 1)"

lemma priority_insert_computes_witness:
  "\<exists>h'. glthread_priority_insert by_address 0 2 example_heap = Some (Inr h') \<and>
     glist h' 0 (pinsert by_address 2 [1, 3])"
  by (rule priority_insert_computes [OF example_glist]) simp

text \<open>Insertion into a sorted list does not keep it sorted: 2 goes behind 3.\<close>

theorem priority_insert_unsorted:
  "\<exists>h h'. glist h 0 [1, 3] \<and> glthread_priority_insert by_address 0 2 h = Some (Inr h') \<and>
     glist h' 0 [1, 3, 2]"
proof -
  have "pinsert by_address 2 [1, 3] = [1, 3, 2]" by (simp add: by_address_def)
  then show ?thesis
    using glist_priority_insert [OF example_glist, of 2 by_address] example_glist by auto
qed

end
