(* ===== verification/Mac_Table.thy ===== *)
theory Mac_Table
  imports Packet Tables Glthread
begin

text \<open>
  The MAC table of a switch (\<^verbatim>\<open>src/layer2/l2switch.c\<close>, lines 10--78). The first section
  is the table as the list of its entries, newest first; the second is the code on linked
  cells, and says that it computes the same.
\<close>

section \<open>The table as a list\<close>

record mac_entry =
  mac :: bytes
  mac_oif :: string

type_synonym mac_table = "mac_entry list"

definition init_mac_table :: mac_table where
  "init_mac_table = []"

text \<open>
  \<^verbatim>\<open>mac_table_entry_delete\<close> compares with \<^verbatim>\<open>strcmp\<close>, although a MAC address is no C string:
  the comparison reads the six bytes, and where none is zero it runs on into the
  \<^verbatim>\<open>oif_name\<close> array that follows them in the entry. \<open>mac_mem\<close> is that memory.
\<close>

definition mac_mem :: "mac_entry \<Rightarrow> bytes" where
  "mac_mem e = mac e @ char_array IF_NAME_SIZE (mac_oif e)"

definition mac_table_entry_delete :: "mac_table \<Rightarrow> bytes \<Rightarrow> mac_table" where
  "mac_table_entry_delete t m = filter (\<lambda>e. cstr (mac_mem e) \<noteq> cstr m) t"

definition mac_table_entry_lookup :: "mac_table \<Rightarrow> bytes \<Rightarrow> mac_entry option" where
  "mac_table_entry_lookup t m = List.find (\<lambda>e. mac e = m) t"

definition mac_table_entry_add :: "mac_table \<Rightarrow> mac_entry \<Rightarrow> mac_table" where
  "mac_table_entry_add t e =
     (case mac_table_entry_lookup t (mac e) of
        Some old \<Rightarrow> e # mac_table_entry_delete t (mac_mem old)
      | None \<Rightarrow> e # t)"

text \<open>The part of \<^verbatim>\<open>l2_switch_perform_mac_learning\<close> on the table.\<close>

definition mac_learn :: "mac_table \<Rightarrow> bytes \<Rightarrow> string \<Rightarrow> mac_table" where
  "mac_learn t smac if_name =
     mac_table_entry_add t \<lparr>mac = smac, mac_oif = if_name\<rparr>"

text \<open>Well-formed tables: six byte addresses, each bound once.\<close>

definition mac_table_ok :: "mac_table \<Rightarrow> bool" where
  "mac_table_ok t \<longleftrightarrow> (\<forall>e \<in> set t. length (mac e) = 6) \<and> distinct (map mac t)"

text \<open>The part of an address before its first zero byte.\<close>

definition mac_stem :: "bytes \<Rightarrow> bytes" where
  "mac_stem m = takeWhile (\<lambda>x. x \<noteq> 0) m"

lemma mac_mem_cstr:
  "cstr (mac_mem e) = (if 0 \<in> set (mac e) then mac_stem (mac e)
                       else mac e @ cstr (char_array IF_NAME_SIZE (mac_oif e)))"
proof (cases "0 \<in> set (mac e)")
  case True
  then show ?thesis
    using takeWhile_append1 [of 0 "mac e" "\<lambda>x. x \<noteq> 0"] by (simp add: cstr_def mac_mem_def mac_stem_def)
next
  case False
  then have "takeWhile (\<lambda>x. x \<noteq> 0) (mac e @ ys) = mac e @ takeWhile (\<lambda>x. x \<noteq> 0) ys" for ys
    by (intro takeWhile_append2) auto
  then show ?thesis
    using False by (simp add: cstr_def mac_mem_def mac_stem_def)
qed

text \<open>Entries the delete operation cannot tell apart have the same stem.\<close>

lemma cstr_eq_stem:
  assumes "length (mac e) = 6" and "length (mac f) = 6"
    and "cstr (mac_mem e) = cstr (mac_mem f)"
  shows "mac_stem (mac e) = mac_stem (mac f)"
proof -
  have len: "0 \<in> set m \<Longrightarrow> length (mac_stem m) < length m" for m :: bytes
    by (induction m) (auto simp: mac_stem_def)
  have full: "0 \<notin> set m \<Longrightarrow> mac_stem m = m" for m :: bytes
    by (induction m) (auto simp: mac_stem_def)
  have long: "length (m @ xs) \<noteq> length (mac_stem m')"
    if "length m = 6" "length m' = 6" "0 \<in> set m'" for m m' xs :: bytes
    using len [OF that(3)] that(1,2) by simp
  consider "0 \<in> set (mac e)" "0 \<in> set (mac f)" | "0 \<notin> set (mac e)" "0 \<notin> set (mac f)"
    using assms long [of "mac e" "mac f"] long [of "mac f" "mac e"]
    by (metis mac_mem_cstr)
  then show ?thesis
    using assms by cases (auto simp: mac_mem_cstr full)
qed

lemma lookup_Some: "mac_table_entry_lookup t m = Some e \<Longrightarrow> e \<in> set t \<and> mac e = m"
  by (auto simp: mac_table_entry_lookup_def find_Some_iff)

lemma lookup_filter_other:
  assumes "\<And>e. e \<in> set t \<Longrightarrow> mac e = m \<Longrightarrow> P e"
  shows "mac_table_entry_lookup (filter P t) m = mac_table_entry_lookup t m"
  using assms by (induction t) (auto simp: mac_table_entry_lookup_def)

lemma lookup_add_same [simp]: "mac_table_entry_lookup (mac_table_entry_add t e) (mac e) = Some e"
  by (simp add: mac_table_entry_add_def mac_table_entry_lookup_def split: option.split)

lemma lookup_add_other:
  assumes "mac_table_ok t" and "length (mac e) = 6" and "length m = 6"
    and "m \<noteq> mac e" and "mac_stem m \<noteq> mac_stem (mac e)"
  shows "mac_table_entry_lookup (mac_table_entry_add t e) m = mac_table_entry_lookup t m"
proof (cases "mac_table_entry_lookup t (mac e)")
  case None
  then show ?thesis
    using assms(4) by (simp add: mac_table_entry_add_def mac_table_entry_lookup_def)
next
  case (Some old)
  have old: "length (mac old) = 6" "mac old = mac e"
    using lookup_Some [OF Some] assms(1,2) by auto
  have "mac_table_entry_lookup (mac_table_entry_delete t (mac_mem old)) m
      = mac_table_entry_lookup t m"
    unfolding mac_table_entry_delete_def
    by (rule lookup_filter_other) (use old assms(3,5) cstr_eq_stem [of _ old] in auto)
  then show ?thesis
    using Some assms(4) by (simp add: mac_table_entry_add_def mac_table_entry_lookup_def)
qed

lemma mac_table_ok_add:
  assumes "mac_table_ok t" and "length (mac e) = 6"
  shows "mac_table_ok (mac_table_entry_add t e)"
proof (cases "mac_table_entry_lookup t (mac e)")
  case None
  then have "mac e \<notin> mac ` set t"
    by (auto simp: mac_table_entry_lookup_def find_None_iff)
  then show ?thesis
    using assms None by (simp add: mac_table_entry_add_def mac_table_ok_def)
next
  case (Some old)
  have old: "old \<in> set t" "mac old = mac e"
    using lookup_Some [OF Some] by auto
  have uniq: "x = old" if "x \<in> set t" "mac x = mac e" for x
    using that old assms(1) inj_onD [of mac "set t" x old] by (auto simp: mac_table_ok_def distinct_map)
  have "mac e \<notin> mac ` set (mac_table_entry_delete t (mac_mem old))"
    by (auto simp: mac_table_entry_delete_def dest: uniq [OF _ sym])
  then show ?thesis
    using assms Some
    by (auto simp: mac_table_entry_add_def mac_table_ok_def mac_table_entry_delete_def
        distinct_map inj_on_def)
qed

text \<open>The contract of the switch's table.\<close>

definition mac_port :: "mac_table \<Rightarrow> bytes \<Rightarrow> string option" where
  "mac_port t m = map_option mac_oif (mac_table_entry_lookup t m)"

definition mac_len_ok :: "bytes \<Rightarrow> bool" where
  "mac_len_ok m \<longleftrightarrow> length m = 6"

definition stems_apart :: "bytes \<Rightarrow> bytes \<Rightarrow> bool" where
  "stems_apart m m' \<longleftrightarrow> mac_stem m \<noteq> mac_stem m'"

interpretation mact: resolution_table mac_port mac_learn mac_table_ok mac_len_ok stems_apart
proof unfold_locales
  fix t :: mac_table and k k' :: bytes and v :: string
  assume t: "mac_table_ok t" and k: "mac_len_ok k"
  show "mac_table_ok (mac_learn t k v)"
    using t k by (simp add: mac_learn_def mac_len_ok_def mac_table_ok_add)
  show "mac_port (mac_learn t k v) k = Some v"
    using lookup_add_same [of t "\<lparr>mac = k, mac_oif = v\<rparr>"] by (simp add: mac_port_def mac_learn_def)
  show "mac_port (mac_learn t k v) k' = mac_port t k'"
    if "mac_len_ok k'" "k' \<noteq> k" "stems_apart k' k"
    using lookup_add_other [of t "\<lparr>mac = k, mac_oif = v\<rparr>" k'] t k that
    by (simp add: mac_port_def mac_learn_def mac_len_ok_def stems_apart_def)
qed


section \<open>The table on linked cells\<close>

text \<open>
  The memory of a table: the links of its cells and the entries around them. The base cell
  is \<^verbatim>\<open>mac_entries\<close> of the table. The functions follow the code statement by statement; a
  loop over a corrupt list may not end, hence \<open>option\<close>.
\<close>

record mac_store =
  mac_links :: gheap
  mac_data :: "addr \<Rightarrow> mac_entry"

definition mac_lookup_cell :: "addr \<Rightarrow> bytes \<Rightarrow> mac_store \<Rightarrow> addr option option" where
  "mac_lookup_cell base m s = gl_search (\<lambda>p. mac (mac_data s p) = m) (mac_links s) base"

definition mac_delete_cells :: "addr \<Rightarrow> bytes \<Rightarrow> mac_store \<Rightarrow> mac_store option" where
  "mac_delete_cells base m s =
     map_option (\<lambda>h. s\<lparr>mac_links := h\<rparr>)
       (gl_purge (\<lambda>p. cstr (mac_mem (mac_data s p)) = cstr m) base (mac_links s))"

definition mac_add_cell :: "addr \<Rightarrow> addr \<Rightarrow> mac_store \<Rightarrow> mac_store option" where
  "mac_add_cell base new s =
     Option.bind (mac_lookup_cell base (mac (mac_data s new)) s) (\<lambda>old_entry.
     Option.bind
       (case old_entry of
          Some old \<Rightarrow> mac_delete_cells base (mac_mem (mac_data s old)) s
        | None \<Rightarrow> Some s)
       (\<lambda>s1. Some (s1\<lparr>mac_links := gl_push base new (mac_links s1)\<rparr>)))"

text \<open>The list a store represents.\<close>

definition mac_repr :: "mac_store \<Rightarrow> addr \<Rightarrow> addr list \<Rightarrow> mac_table \<Rightarrow> bool" where
  "mac_repr s base ps t \<longleftrightarrow> glist (mac_links s) base ps \<and> t = map (mac_data s) ps"

lemma find_map: "List.find P (map f xs) = map_option f (List.find (\<lambda>x. P (f x)) xs)"
  by (induction xs) auto

lemma mac_lookup_cell_refines:
  assumes "mac_repr s base ps t"
  shows "\<exists>r. mac_lookup_cell base m s = Some r \<and>
           map_option (mac_data s) r = mac_table_entry_lookup t m"
  using assms gl.repr_search [of "mac_links s" base ps]
  by (simp add: mac_repr_def mac_lookup_cell_def mac_table_entry_lookup_def find_map)

lemma mac_delete_cells_refines:
  assumes "mac_repr s base ps t"
  shows "\<exists>s' ps'. mac_delete_cells base m s = Some s' \<and> set ps' \<subseteq> set ps \<and>
           mac_data s' = mac_data s \<and> mac_repr s' base ps' (mac_table_entry_delete t m)"
proof -
  let ?P = "\<lambda>p. cstr (mac_mem (mac_data s p)) = cstr m"
  obtain h' where "gl_purge ?P base (mac_links s) = Some h'"
    "glist h' base (filter (\<lambda>x. \<not> ?P x) ps)"
    using gl.repr_purge [of "mac_links s" base ps ?P] assms by (auto simp: mac_repr_def)
  then show ?thesis
    using assms
    by (intro exI [of _ "s\<lparr>mac_links := h'\<rparr>"] exI [of _ "filter (\<lambda>x. \<not> ?P x) ps"])
      (auto simp: mac_delete_cells_def mac_repr_def mac_table_entry_delete_def filter_map comp_def)
qed

lemma mac_add_cell_refines:
  assumes r: "mac_repr s base ps t" and new: "new \<notin> set (base # ps)"
  shows "\<exists>s' ps'. mac_add_cell base new s = Some s' \<and>
           mac_repr s' base ps' (mac_table_entry_add t (mac_data s new))"
proof -
  have push: "mac_repr (u\<lparr>mac_links := gl_push base new (mac_links u)\<rparr>) base (new # qs)
      (mac_data s new # v)"
    if "mac_repr u base qs v" "set qs \<subseteq> set ps" "mac_data u = mac_data s" for u qs v
    using that new gl.repr_push [of "mac_links u" base qs new] by (auto simp: mac_repr_def)
  obtain o' where o': "mac_lookup_cell base (mac (mac_data s new)) s = Some o'"
    "map_option (mac_data s) o' = mac_table_entry_lookup t (mac (mac_data s new))"
    using mac_lookup_cell_refines [OF r] by blast
  show ?thesis
  proof (cases o')
    case None
    then show ?thesis
      using o' push [OF r subset_refl refl]
      by (auto simp: mac_add_cell_def mac_table_entry_add_def)
  next
    case (Some old)
    obtain s1 ps1 where s1: "mac_delete_cells base (mac_mem (mac_data s old)) s = Some s1"
      "set ps1 \<subseteq> set ps" "mac_data s1 = mac_data s"
      "mac_repr s1 base ps1 (mac_table_entry_delete t (mac_mem (mac_data s old)))"
      using mac_delete_cells_refines [OF r] by blast
    have l: "mac_table_entry_lookup t (mac (mac_data s new)) = Some (mac_data s old)"
      using o'(2) Some by simp
    show ?thesis
      using o'(1) Some s1(1) push [OF s1(4,2,3)] l
      by (auto simp: mac_add_cell_def mac_table_entry_add_def)
  qed
qed

section \<open>Properties\<close>



text \<open>C35: the code on linked cells implements the table: inserting a cell that is not on the
  list yet returns, and leaves a memory that represents the table with the entry added.\<close>

theorem mac_table_entry_add_implements:
  assumes "mac_repr s base ps t" and "new \<notin> set (base # ps)"
  shows "\<exists>s' ps'. mac_add_cell base new s = Some s' \<and>
    mac_repr s' base ps' (mac_table_entry_add t (mac_data s new))"
  by (rule mac_add_cell_refines) (rule assms)+

definition example_store :: mac_store where
  "example_store = \<lparr>mac_links = init_glthread 0 (\<lambda>_. \<lparr>left = None, right = None\<rparr>),
     mac_data = (\<lambda>_. \<lparr>mac = [1, 2, 3, 4, 0, 0], mac_oif = ''eth0''\<rparr>)\<rparr>"

lemma mac_table_entry_add_implements_witness:
  "\<exists>s' ps'. mac_add_cell 0 7 example_store = Some s' \<and>
    mac_repr s' 0 ps' (mac_table_entry_add [] (mac_data example_store 7))"
  by (rule mac_table_entry_add_implements [where ps = "[]"])
    (simp_all add: mac_repr_def example_store_def glist_init_base)

text \<open>The deletion compares addresses as C strings, so learning one address again forgets
  another that agrees with it up to the first zero byte.\<close>

theorem mac_relearn_forgets_other:
  "mac_port (mac_learn (mac_learn [] [7, 0, 1, 0, 0, 0] ''p1'') [7, 0, 2, 0, 0, 0] ''p2'')
     [7, 0, 2, 0, 0, 0] = Some ''p2'' \<and>
   mac_port (mac_learn (mac_learn (mac_learn [] [7, 0, 1, 0, 0, 0] ''p1'') [7, 0, 2, 0, 0, 0] ''p2'')
     [7, 0, 1, 0, 0, 0] ''p1'') [7, 0, 2, 0, 0, 0] = None"
  by (simp add: mac_port_def mac_learn_def mac_table_entry_add_def mac_table_entry_lookup_def
      mac_table_entry_delete_def mac_mem_def cstr_def)

end
