(* ===== verification/Addr.thy ===== *)
theory Addr
  imports Libc
begin

text \<open>
  Addresses and prefixes: \<^verbatim>\<open>apply_mask\<close> of \<^verbatim>\<open>src/utils.c\<close> and the address conversions of
  \<^verbatim>\<open>src/net.c\<close>. The program keeps prefixes as text and compares text; the lemmas at the
  end say that for canonical texts this is the comparison of the leading bits of the
  addresses.
\<close>

definition convert_ip_from_str_to_int :: "string \<Rightarrow> u32" where
  "convert_ip_from_str_to_int ip_addr =
     (case inet_pton ip_addr of Some v \<Rightarrow> v | None \<Rightarrow> 0)"

definition convert_ip_from_int_to_str :: "u32 \<Rightarrow> string" where
  "convert_ip_from_int_to_str ip_addr = inet_ntop ip_addr"

text \<open>
  \<^verbatim>\<open>0xFFFFFFFF << (32 - mask)\<close> shifts a 32 bit value; \<^verbatim>\<open>mask\<close> is a \<^verbatim>\<open>char\<close>, promoted to
  \<^verbatim>\<open>int\<close>. The shift is defined for counts 0 to 31 only, that is for masks 1 to 32.
\<close>

definition prefix_bits :: "u8 \<Rightarrow> u32 res" where
  "prefix_bits msk =
     (let count = 32 - sint msk in
      if 0 \<le> count \<and> count < 32 then Inr (push_bit (nat count) 0xFFFFFFFF)
      else Inl Bad_shift)"

definition apply_mask :: "string \<Rightarrow> u8 \<Rightarrow> string res" where
  "apply_mask prefix msk =
     (let binary_prefix = htonl (case inet_pton prefix of Some v \<Rightarrow> v | None \<Rightarrow> 0) in
      rbind (prefix_bits msk) (\<lambda>bit_mask.
      Inr (inet_ntop (htonl (binary_prefix AND bit_mask)))))"


section \<open>Prefixes as bit strings\<close>

definition valid_mask :: "u8 \<Rightarrow> bool" where
  "valid_mask m \<longleftrightarrow> 1 \<le> unat m \<and> unat m \<le> 32"

lemma sint_valid_mask:
  assumes "valid_mask m"
  shows "sint m = int (unat m)"
proof -
  have u: "uint m = int (unat m)" by (rule uint_nat)
  have "signed_take_bit 7 (int n) = int n" if "n \<le> 32" for n :: nat
    by (rule signed_take_bit_int_eq_self) (use that in simp_all)
  then have "signed_take_bit 7 (int (unat m)) = int (unat m)"
    using assms by (simp only: valid_mask_def)
  then show ?thesis unfolding sint_uint u by simp
qed

lemma prefix_bits_valid:
  assumes "valid_mask m"
  shows "prefix_bits m = Inr (NOT (mask (32 - unat m)))"
proof -
  have m: "0 \<le> 32 - int (unat m) \<and> 32 - int (unat m) < 32"
    using assms by (simp only: valid_mask_def) linarith
  have n: "nat (32 - int (unat m)) = 32 - unat m" by arith
  have e: "(0xFFFFFFFF :: u32) = - 1" by simp
  have "push_bit (32 - unat m) (0xFFFFFFFF :: u32) = NOT (mask (32 - unat m))"
    unfolding e by simp
  then show ?thesis
    unfolding prefix_bits_def sint_valid_mask [OF assms] Let_def n using m by (simp only: simp_thms if_True)
qed

text \<open>The network of an address under a mask, and the agreement of two addresses on it.\<close>

definition network :: "u32 \<Rightarrow> u8 \<Rightarrow> u32" where
  "network w m = htonl (htonl w AND NOT (mask (32 - unat m)))"

definition same_prefix :: "u8 \<Rightarrow> u32 \<Rightarrow> u32 \<Rightarrow> bool" where
  "same_prefix m v w \<longleftrightarrow> drop_bit (32 - unat m) (htonl v) = drop_bit (32 - unat m) (htonl w)"

lemma apply_mask_ntop:
  "valid_mask m \<Longrightarrow> apply_mask (inet_ntop w) m = Inr (inet_ntop (network w m))"
  by (simp add: apply_mask_def prefix_bits_valid network_def Let_def)

lemma apply_mask_canonical:
  "valid_mask m \<Longrightarrow> apply_mask s m = Inr t \<Longrightarrow> canonical_ip t"
  by (auto simp: apply_mask_def prefix_bits_valid Let_def)

lemma apply_mask_total: "valid_mask m \<Longrightarrow> \<exists>t. apply_mask s m = Inr t"
  by (simp add: apply_mask_def prefix_bits_valid Let_def)

lemma and_high_eq_iff:
  "(x :: u32) AND NOT (mask n) = y AND NOT (mask n) \<longleftrightarrow> drop_bit n x = drop_bit n y"
proof
  assume a: "x AND NOT (mask n) = y AND NOT (mask n)"
  show "drop_bit n x = drop_bit n y"
  proof (rule bit_word_eqI)
    fix k assume "k < LENGTH(32)"
    have "bit (x AND NOT (mask n)) (n + k) = bit (y AND NOT (mask n)) (n + k)"
      using a by simp
    then show "bit (drop_bit n x) k = bit (drop_bit n y) k"
      by (auto simp: bit_simps dest: bit_imp_le_length)
  qed
next
  assume a: "drop_bit n x = drop_bit n y"
  show "x AND NOT (mask n) = y AND NOT (mask n)"
  proof (rule bit_word_eqI)
    fix k assume "k < LENGTH(32)"
    have "bit (drop_bit n x) (k - n) = bit (drop_bit n y) (k - n)" using a by simp
    then show "bit (x AND NOT (mask n)) k = bit (y AND NOT (mask n)) k"
      by (auto simp: bit_simps)
  qed
qed

lemma network_eq_iff: "network v m = network w m \<longleftrightarrow> same_prefix m v w"
  by (simp add: network_def same_prefix_def and_high_eq_iff)

lemma network_idem: "network (network w m) m = network w m"
  by (simp add: network_def and.assoc)

lemma same_prefix_refl [simp]: "same_prefix m w w"
  by (simp add: same_prefix_def)

lemma same_prefix_trans: "same_prefix m u v \<Longrightarrow> same_prefix m v w \<Longrightarrow> same_prefix m u w"
  by (simp add: same_prefix_def)

lemma network_32: "unat m = 32 \<Longrightarrow> network w m = w"
  by (simp add: network_def)

lemma same_prefix_32: "unat m = 32 \<Longrightarrow> same_prefix m v w \<longleftrightarrow> v = w"
  by (simp add: same_prefix_def)

section \<open>Properties\<close>

text \<open>An address survives the conversion to text and back, and the text fits the 16 byte
  arrays of the program.\<close>

theorem convert_ip_roundtrip:
  "convert_ip_from_str_to_int (convert_ip_from_int_to_str w) = w \<and>
   length (convert_ip_from_int_to_str w) < 16"
  using length_inet_ntop [of w]
  by (simp add: convert_ip_from_str_to_int_def convert_ip_from_int_to_str_def)

text \<open>C38: for masks 1 to 32, comparing the masked texts of two addresses, as every lookup of the
  program does, compares the leading bits of the addresses.\<close>

theorem apply_mask_compares_prefixes:
  assumes "valid_mask m"
  shows "apply_mask (inet_ntop v) m = apply_mask (inet_ntop w) m \<longleftrightarrow>
    drop_bit (32 - unat m) (htonl v) = drop_bit (32 - unat m) (htonl w)"
  using assms by (simp add: apply_mask_ntop network_eq_iff same_prefix_def)

lemma apply_mask_compares_prefixes_witness:
  "apply_mask (inet_ntop 0x0201010A) 24 = apply_mask (inet_ntop 0x0101010A) 24 \<longleftrightarrow>
    drop_bit (32 - unat (24 :: u8)) (htonl 0x0201010A) = drop_bit (32 - unat (24 :: u8)) (htonl 0x0101010A)"
  by (rule apply_mask_compares_prefixes) (simp add: valid_mask_def)

end
