(* ===== verification/Arp_Table.thy ===== *)
theory Arp_Table
  imports Packet Addr Tables
begin

text \<open>
  The ARP table (\<^verbatim>\<open>src/layer2/layer2.c\<close>, lines 43--159): initial entry, lookup, insertion,
  update from a reply, deletion, entries created ahead of their reply, and the queue of
  packets that wait for one. A table is the list of its entries, newest first, as
  \<open>Glthread\<close> shows the linked cells to be.
\<close>

datatype arp_process_fun = Pending_arp_processing_callback

record arp_pending_entry =
  cb :: arp_process_fun
  pend_size :: u32
  pend_pkt :: bytes

text \<open>
  \<open>arp_linked\<close> stands for the two link pointers of the entry: an entry on a table has a
  non-null \<^verbatim>\<open>left\<close> (its predecessor or the base), a fresh one from \<^verbatim>\<open>calloc\<close> has not.
\<close>

record arp_entry =
  arp_ip :: string
  arp_mac :: bytes
  arp_oif :: string
  arp_linked :: bool
  is_sane :: bool
  arp_pending_list :: "arp_pending_entry list"

type_synonym arp_table = "arp_entry list"

text \<open>\<^verbatim>\<open>calloc(1, sizeof(arp_entry_t))\<close>\<close>

definition new_arp_entry :: arp_entry where
  "new_arp_entry = \<lparr>arp_ip = [], arp_mac = zeros 6, arp_oif = [], arp_linked = False,
     is_sane = False, arp_pending_list = []\<rparr>"

definition init_arp_table :: arp_table where
  "init_arp_table =
     [new_arp_entry\<lparr>arp_ip := ''255.255.255.255'', arp_mac := broadcast_mac,
        arp_oif := ''local'', arp_linked := True\<rparr>]"

definition arp_table_lookup :: "arp_table \<Rightarrow> string \<Rightarrow> arp_entry option" where
  "arp_table_lookup t ip = List.find (\<lambda>e. arp_ip e = ip) t"

definition arp_table_update_entry :: "arp_entry \<Rightarrow> arp_entry \<Rightarrow> arp_entry" where
  "arp_table_update_entry old e = old\<lparr>arp_mac := arp_mac e, arp_oif := arp_oif e\<rparr>"

text \<open>A change of the entry a lookup returned happens in place, on the first match.\<close>

fun update_first :: "('a \<Rightarrow> bool) \<Rightarrow> ('a \<Rightarrow> 'a) \<Rightarrow> 'a list \<Rightarrow> 'a list" where
  "update_first P f [] = []"
| "update_first P f (x # xs) = (if P x then f x # xs else x # update_first P f xs)"

text \<open>
  \<^verbatim>\<open>arp_table_entry_add\<close>: the \<^verbatim>\<open>memcmp\<close> of the two structs compares the link pointers with
  the rest; where they differ, the old entry is updated and the new one is still linked in.
\<close>

definition arp_table_entry_add :: "arp_table \<Rightarrow> arp_entry \<Rightarrow> bool \<times> arp_table" where
  "arp_table_entry_add t e =
     (case arp_table_lookup t (arp_ip e) of
        Some old \<Rightarrow>
          (if old = e then (False, t)
           else (True, e\<lparr>arp_linked := True\<rparr> #
                  update_first (\<lambda>x. arp_ip x = arp_ip e) (\<lambda>x. arp_table_update_entry x e) t))
      | None \<Rightarrow> (True, e\<lparr>arp_linked := True\<rparr> # t))"

definition arp_table_update_from_arp_reply ::
  "arp_table \<Rightarrow> arp_packet \<Rightarrow> string \<Rightarrow> arp_table res" where
  "arp_table_update_from_arp_reply t arp iif_name =
     (if op_code arp \<noteq> ARP_REPLY then Inl Assert_failed
      else
        rbind (strcpy_to IF_NAME_SIZE iif_name) (\<lambda>oif.
        Inr (snd (arp_table_entry_add t
          (new_arp_entry\<lparr>arp_ip := convert_ip_from_int_to_str (htonl (src_ip arp)),
             arp_mac := src_mac arp, arp_oif := oif\<rparr>)))))"

definition arp_table_delete_entry :: "arp_table \<Rightarrow> string \<Rightarrow> arp_table" where
  "arp_table_delete_entry t ip = filter (\<lambda>e. arp_ip e \<noteq> ip) t"

text \<open>Gives the entry for the address and the table that holds it.\<close>

definition create_arp_sane_entry :: "arp_table \<Rightarrow> string \<Rightarrow> (arp_entry \<times> arp_table) res" where
  "create_arp_sane_entry t ip =
     (case arp_table_lookup t ip of
        Some e \<Rightarrow> Inr (e, t)
      | None \<Rightarrow>
          rbind (strcpy_to 16 ip) (\<lambda>ip'.
          let e = new_arp_entry\<lparr>arp_ip := ip', is_sane := True\<rparr> in
          Inr (e\<lparr>arp_linked := True\<rparr>, snd (arp_table_entry_add t e))))"

text \<open>\<^verbatim>\<open>add_arp_pending_entry\<close> copies the packet and queues it at the head of the entry's list.\<close>

definition add_arp_pending_entry ::
  "arp_entry \<Rightarrow> arp_process_fun \<Rightarrow> bytes \<Rightarrow> nat \<Rightarrow> u32 \<Rightarrow> arp_entry res" where
  "add_arp_pending_entry e callback b p pkt_size =
     rbind (rd b p (unat pkt_size)) (\<lambda>pkt.
     Inr (e\<lparr>arp_pending_list :=
       \<lparr>cb = callback, pend_size = pkt_size, pend_pkt = pkt\<rparr> # arp_pending_list e\<rparr>))"


section \<open>Correctness\<close>

definition arp_table_ok :: "arp_table \<Rightarrow> bool" where
  "arp_table_ok t \<longleftrightarrow> (\<forall>e \<in> set t. arp_linked e)"

lemma arp_table_ok_init [simp]: "arp_table_ok init_arp_table"
  by (simp add: arp_table_ok_def init_arp_table_def)

lemma set_update_first: "set (update_first P f xs) \<subseteq> set xs \<union> f ` set xs"
  by (induction xs) auto

lemma length_update_first [simp]: "length (update_first P f xs) = length xs"
  by (induction xs) auto

lemma map_update_first: "(\<And>x. g (f x) = g x) \<Longrightarrow> map g (update_first P f xs) = map g xs"
  by (induction xs) auto

lemma arp_lookup_Some: "arp_table_lookup t ip = Some e \<Longrightarrow> e \<in> set t \<and> arp_ip e = ip"
  by (auto simp: arp_table_lookup_def find_Some_iff)

lemma find_update_first_other:
  assumes "\<And>x. P x \<Longrightarrow> \<not> Q x" and "\<And>x. P x \<Longrightarrow> \<not> Q (f x)"
  shows "List.find Q (update_first P f xs) = List.find Q xs"
  using assms by (induction xs) auto

text \<open>A fresh entry never equals one on the table, so the insertion always happens.\<close>

lemma arp_add_fresh:
  assumes "arp_table_ok t" and "\<not> arp_linked e"
  shows "arp_table_entry_add t e =
    (True, e\<lparr>arp_linked := True\<rparr> #
       update_first (\<lambda>x. arp_ip x = arp_ip e) (\<lambda>x. arp_table_update_entry x e) t)"
proof (cases "arp_table_lookup t (arp_ip e)")
  case None
  then have "\<forall>x \<in> set t. arp_ip x \<noteq> arp_ip e"
    by (auto simp: arp_table_lookup_def find_None_iff)
  then have "update_first (\<lambda>x. arp_ip x = arp_ip e) (\<lambda>x. arp_table_update_entry x e) t = t"
    by (induction t) auto
  then show ?thesis using None by (simp add: arp_table_entry_add_def)
next
  case (Some old)
  then have "old \<noteq> e"
    using assms arp_lookup_Some [OF Some] by (auto simp: arp_table_ok_def)
  then show ?thesis using Some by (simp add: arp_table_entry_add_def)
qed

lemma arp_table_ok_add:
  assumes "arp_table_ok t" and "\<not> arp_linked e"
  shows "arp_table_ok (snd (arp_table_entry_add t e))"
  using assms(1) set_update_first [of "\<lambda>x. arp_ip x = arp_ip e" "\<lambda>x. arp_table_update_entry x e" t]
  by (auto simp: arp_add_fresh [OF assms] arp_table_ok_def arp_table_update_entry_def)

lemma arp_lookup_add:
  assumes "arp_table_ok t" and "\<not> arp_linked e"
  shows "arp_table_lookup (snd (arp_table_entry_add t e)) ip =
    (if ip = arp_ip e then Some (e\<lparr>arp_linked := True\<rparr>) else arp_table_lookup t ip)"
  using find_update_first_other [of "\<lambda>x. arp_ip x = arp_ip e" "\<lambda>x. arp_ip x = ip"
      "\<lambda>x. arp_table_update_entry x e" t]
  by (auto simp: arp_add_fresh [OF assms] arp_table_lookup_def arp_table_update_entry_def)

text \<open>What the forwarding code reads of an entry, and the learning of one reply.\<close>

definition arp_resolve :: "arp_table \<Rightarrow> string \<Rightarrow> (bytes \<times> string) option" where
  "arp_resolve t ip = map_option (\<lambda>e. (arp_mac e, arp_oif e)) (arp_table_lookup t ip)"

definition arp_learn :: "arp_table \<Rightarrow> string \<Rightarrow> bytes \<times> string \<Rightarrow> arp_table" where
  "arp_learn t ip v =
     snd (arp_table_entry_add t (new_arp_entry\<lparr>arp_ip := ip, arp_mac := fst v, arp_oif := snd v\<rparr>))"

lemma new_arp_entry_sel [simp]: "\<not> arp_linked new_arp_entry" "arp_pending_list new_arp_entry = []"
  by (simp_all add: new_arp_entry_def)

interpretation arpt: resolution_table arp_resolve arp_learn arp_table_ok "\<lambda>_. True" "\<lambda>_ _. True"
  by unfold_locales
    (auto simp: arp_learn_def arp_resolve_def arp_table_ok_add arp_lookup_add)

lemma arp_reply_learns:
  assumes "op_code arp = ARP_REPLY" and "length iif_name < IF_NAME_SIZE"
  shows "arp_table_update_from_arp_reply t arp iif_name =
    Inr (arp_learn t (inet_ntop (htonl (src_ip arp))) (src_mac arp, iif_name))"
  using assms
  by (simp add: arp_table_update_from_arp_reply_def arp_learn_def strcpy_to_def
      convert_ip_from_int_to_str_def)

lemma length_arp_learn: "arp_table_ok t \<Longrightarrow> length (arp_learn t ip v) = Suc (length t)"
  by (simp add: arp_learn_def arp_add_fresh)

lemma arp_lookup_delete:
  "arp_table_lookup (arp_table_delete_entry t ip) ip' =
     (if ip' = ip then None else arp_table_lookup t ip')"
  by (induction t) (auto simp: arp_table_delete_entry_def arp_table_lookup_def)

section \<open>Properties\<close>

definition example_reply :: arp_packet where
  "example_reply = \<lparr>hw_type = ETH_HW, proto_type = IP_PROTO, hw_addr_len = ETH_HW_LEN,
     proto_addr_len = IP_PROTO_LEN, op_code = ARP_REPLY, src_mac = [1, 2, 3, 4, 0, 0],
     src_ip = 0x0A010102, dst_mac = [5, 6, 7, 8, 0, 0], dst_ip = 0x0A010101\<rparr>"

text \<open>A history of received replies, each with the interface it came in on; the oldest first.\<close>

fun learn_replies :: "arp_table \<Rightarrow> (arp_packet \<times> string) list \<Rightarrow> arp_table res" where
  "learn_replies t [] = Inr t"
| "learn_replies t ((arp, iif_name) # rs) =
     rbind (arp_table_update_from_arp_reply t arp iif_name) (\<lambda>t'. learn_replies t' rs)"

definition binding_for :: "string \<Rightarrow> arp_packet \<times> string \<Rightarrow> bool" where
  "binding_for ip r \<longleftrightarrow> ip = inet_ntop (htonl (src_ip (fst r)))"

text \<open>C33: whatever replies a node receives, learning them never fails and keeps the table sound; an
  address is then resolved to the MAC address and the interface of the last reply about it,
  or as before when there was none. Every reply makes the table one entry longer, because the
  old entry of the address stays; deleting an address removes all its entries and no other.\<close>

theorem arp_history_last_binding:
  assumes "arp_table_ok t" and "\<forall>r \<in> set rs. op_code (fst r) = ARP_REPLY \<and> length (snd r) < IF_NAME_SIZE"
  shows "\<exists>t'. learn_replies t rs = Inr t' \<and> arp_table_ok t' \<and> length t' = length t + length rs \<and>
    (\<forall>ip. arp_resolve t' ip = (case List.find (binding_for ip) (rev rs) of
        Some r \<Rightarrow> Some (src_mac (fst r), snd r) | None \<Rightarrow> arp_resolve t ip)) \<and>
    (\<forall>ip ip2. arp_resolve (arp_table_delete_entry t' ip) ip2 = (if ip2 = ip then None else arp_resolve t' ip2))"
  using assms
proof (induction rs arbitrary: t)
  case Nil
  then show ?case by (simp add: arp_resolve_def arp_lookup_delete)
next
  case (Cons r rs)
  obtain arp nm where r: "r = (arp, nm)" by (cases r)
  let ?a = "inet_ntop (htonl (src_ip arp))"
  let ?t1 = "arp_learn t ?a (src_mac arp, nm)"
  have l: "arp_table_update_from_arp_reply t arp nm = Inr ?t1"
    using arp_reply_learns [of arp nm t] Cons.prems(2) r by simp
  have ok: "arp_table_ok ?t1" by (rule arpt.inv_learn [OF Cons.prems(1)]) simp
  obtain t' where t': "learn_replies ?t1 rs = Inr t'" "arp_table_ok t'" "length t' = length ?t1 + length rs"
    "\<And>ip. arp_resolve t' ip = (case List.find (binding_for ip) (rev rs) of
        Some r \<Rightarrow> Some (src_mac (fst r), snd r) | None \<Rightarrow> arp_resolve ?t1 ip)"
    "\<And>ip ip2. arp_resolve (arp_table_delete_entry t' ip) ip2 = (if ip2 = ip then None else arp_resolve t' ip2)"
    using Cons.IH [OF ok] Cons.prems(2) by auto
  have one: "arp_resolve ?t1 ip = (if ip = ?a then Some (src_mac arp, nm) else arp_resolve t ip)" for ip
    using arpt.lookup_learn [OF Cons.prems(1)] arpt.lookup_other [OF Cons.prems(1)] by simp
  have "arp_resolve t' ip = (case List.find (binding_for ip) (rev (r # rs)) of
      Some r \<Rightarrow> Some (src_mac (fst r), snd r) | None \<Rightarrow> arp_resolve t ip)" for ip
    unfolding t'(4) one by (simp add: find_append binding_for_def r split: option.split)
  then show ?case
    using t'(1-3,5) length_arp_learn [OF Cons.prems(1)] l by (simp add: r)
qed

lemma arp_history_last_binding_witness:
  "\<exists>t'. learn_replies init_arp_table [(example_reply, ''eth0''), (example_reply, ''eth1'')] = Inr t' \<and>
    length t' = 3 \<and>
    arp_resolve t' (inet_ntop (htonl (src_ip example_reply))) = Some (src_mac example_reply, ''eth1'')"
  using arp_history_last_binding [of init_arp_table "[(example_reply, ''eth0''), (example_reply, ''eth1'')]"]
  by (force simp: example_reply_def IF_NAME_SIZE_def binding_for_def init_arp_table_def arp_table_ok_def)

end
