(* ===== verification/Route_Table.thy ===== *)
theory Route_Table
  imports Addr Packet
begin

text \<open>
  The routing table (\<^verbatim>\<open>src/layer3/layer3.c\<close>, lines 16--99) and its longest prefix match. A
  table is the list of its routes, newest first.
\<close>

record layer3_route =
  rt_dest :: string
  rt_mask :: u8
  is_direct :: bool
  rt_gw :: string
  rt_oif :: string

type_synonym route_table = "layer3_route list"

definition init_rt_table :: route_table where
  "init_rt_table = []"

definition rt_table_add_direct_route :: "route_table \<Rightarrow> string \<Rightarrow> u8 \<Rightarrow> route_table res" where
  "rt_table_add_direct_route t dst msk =
     rbind (strcpy_to 16 dst) (\<lambda>d.
     Inr (\<lparr>rt_dest = d, rt_mask = msk, is_direct = True, rt_gw = [], rt_oif = []\<rparr> # t))"

definition rt_table_add_route ::
  "route_table \<Rightarrow> string \<Rightarrow> u8 \<Rightarrow> string \<Rightarrow> string \<Rightarrow> route_table res" where
  "rt_table_add_route t dst msk gw oif_name =
     rbind (apply_mask dst msk) (\<lambda>dest_network.
     rbind (strcpy_to 16 dest_network) (\<lambda>d.
     rbind (strcpy_to 16 gw) (\<lambda>g.
     rbind (strcpy_to IF_NAME_SIZE oif_name) (\<lambda>oif.
     Inr (\<lparr>rt_dest = d, rt_mask = msk, is_direct = False, rt_gw = g, rt_oif = oif\<rparr> # t)))))"

text \<open>The loop of \<^verbatim>\<open>l3rib_lookup_lpm\<close>, with its two variables.\<close>

fun lpm_loop :: "string \<Rightarrow> route_table \<Rightarrow> u8 \<Rightarrow> layer3_route option \<Rightarrow> layer3_route option res" where
  "lpm_loop dest_ip_str [] longest_mask lpm = Inr lpm"
| "lpm_loop dest_ip_str (r # t) longest_mask lpm =
     rbind (apply_mask dest_ip_str (rt_mask r)) (\<lambda>subnet.
     if subnet = rt_dest r \<and> rt_mask r > longest_mask
     then lpm_loop dest_ip_str t (rt_mask r) (Some r)
     else lpm_loop dest_ip_str t longest_mask lpm)"

definition l3rib_lookup_lpm :: "route_table \<Rightarrow> u32 \<Rightarrow> layer3_route option res" where
  "l3rib_lookup_lpm t dest = lpm_loop (inet_ntop dest) t 0 None"

definition l3_is_direct_route :: "layer3_route \<Rightarrow> bool" where
  "l3_is_direct_route r = is_direct r"


section \<open>Longest prefix match\<close>

text \<open>
  A table is well formed when its masks are prefix lengths 1 to 32. A route covers an
  address when its text is the printed network of the address under its mask.
\<close>

definition rt_ok :: "route_table \<Rightarrow> bool" where
  "rt_ok t \<longleftrightarrow> (\<forall>r \<in> set t. valid_mask (rt_mask r))"

definition covers :: "layer3_route \<Rightarrow> u32 \<Rightarrow> bool" where
  "covers r w \<longleftrightarrow> rt_dest r = inet_ntop (network w (rt_mask r))"

text \<open>The abstract answer: of the covering routes the one with the longest mask; of several
  with the same mask the first in the list, which is the one added last.\<close>

definition is_lpm :: "route_table \<Rightarrow> u32 \<Rightarrow> layer3_route \<Rightarrow> bool" where
  "is_lpm t w r \<longleftrightarrow>
     (\<exists>xs ys. t = xs @ r # ys \<and> covers r w \<and>
        (\<forall>q \<in> set xs. covers q w \<longrightarrow> rt_mask q < rt_mask r) \<and>
        (\<forall>q \<in> set ys. covers q w \<longrightarrow> rt_mask q \<le> rt_mask r))"

text \<open>What the loop computes: the best route among those seen and those to come.\<close>

fun lpm_fold :: "u32 \<Rightarrow> route_table \<Rightarrow> u8 \<Rightarrow> layer3_route option \<Rightarrow> layer3_route option" where
  "lpm_fold w [] m b = b"
| "lpm_fold w (r # t) m b =
     (if covers r w \<and> m < rt_mask r then lpm_fold w t (rt_mask r) (Some r) else lpm_fold w t m b)"

lemma lpm_loop_fold: "rt_ok t \<Longrightarrow> lpm_loop (inet_ntop w) t m b = Inr (lpm_fold w t m b)"
  by (induction t arbitrary: m b) (auto simp: rt_ok_def apply_mask_ntop covers_def)

lemma lpm_fold_stay:
  "\<forall>q \<in> set t. covers q w \<longrightarrow> rt_mask q \<le> m \<Longrightarrow> lpm_fold w t m b = b"
  by (induction t) auto

lemma lpm_fold_cases:
  "lpm_fold w t m b = b \<and> (\<forall>q \<in> set t. covers q w \<longrightarrow> rt_mask q \<le> m) \<or>
   (\<exists>r. lpm_fold w t m b = Some r \<and> is_lpm t w r \<and> m < rt_mask r)"
proof (induction t arbitrary: m b)
  case Nil
  then show ?case by simp
next
  case (Cons x t)
  show ?case
  proof (cases "covers x w \<and> m < rt_mask x")
    case True
    from Cons.IH [of "rt_mask x" "Some x"] show ?thesis
    proof (elim disjE exE conjE)
      assume a: "lpm_fold w t (rt_mask x) (Some x) = Some x"
        "\<forall>q \<in> set t. covers q w \<longrightarrow> rt_mask q \<le> rt_mask x"
      then have "is_lpm (x # t) w x"
        using True unfolding is_lpm_def by (intro exI [of _ "[]"] exI [of _ t]) simp
      then show ?thesis using True a by simp
    next
      fix r
      assume a: "lpm_fold w t (rt_mask x) (Some x) = Some r" "is_lpm t w r" "rt_mask x < rt_mask r"
      then obtain xs ys where "t = xs @ r # ys" "covers r w"
        "\<forall>q \<in> set xs. covers q w \<longrightarrow> rt_mask q < rt_mask r"
        "\<forall>q \<in> set ys. covers q w \<longrightarrow> rt_mask q \<le> rt_mask r"
        by (auto simp: is_lpm_def)
      then have "is_lpm (x # t) w r"
        using a(3) unfolding is_lpm_def by (intro exI [of _ "x # xs"] exI [of _ ys]) simp
      then show ?thesis using True a by auto
    qed
  next
    case False
    have step: "lpm_fold w (x # t) m b = lpm_fold w t m b"
      by (simp only: lpm_fold.simps if_not_P [OF False])
    from Cons.IH [of m b] show ?thesis
    proof (elim disjE exE conjE)
      assume "lpm_fold w t m b = b" "\<forall>q \<in> set t. covers q w \<longrightarrow> rt_mask q \<le> m"
      then show ?thesis using False step by auto
    next
      fix r
      assume a: "lpm_fold w t m b = Some r" "is_lpm t w r" "m < rt_mask r"
      then obtain xs ys where "t = xs @ r # ys" "covers r w"
        "\<forall>q \<in> set xs. covers q w \<longrightarrow> rt_mask q < rt_mask r"
        "\<forall>q \<in> set ys. covers q w \<longrightarrow> rt_mask q \<le> rt_mask r"
        by (auto simp: is_lpm_def)
      then have "is_lpm (x # t) w r"
        using a(3) False unfolding is_lpm_def by (intro exI [of _ "x # xs"] exI [of _ ys]) auto
      then show ?thesis using step a by auto
    qed
  qed
qed

lemma valid_mask_pos: "valid_mask m \<Longrightarrow> 0 < m"
  by (auto simp: valid_mask_def word_less_nat_alt)

lemma l3rib_lookup_fold: "rt_ok t \<Longrightarrow> l3rib_lookup_lpm t w = Inr (lpm_fold w t 0 None)"
  by (simp add: l3rib_lookup_lpm_def lpm_loop_fold)

lemma split_cases:
  assumes "xs @ r # ys = xs' @ r' # ys'"
  obtains zs where "xs = xs' @ r' # zs" | zs where "xs' = xs @ r # zs" | "xs = xs'" "r = r'"
proof -
  from assms obtain us where "xs = xs' @ us \<and> us @ r # ys = r' # ys' \<or> xs @ us = xs' \<and> r # ys = us @ r' # ys'"
    by (auto simp: append_eq_append_conv2)
  then show thesis
    by (cases us) (auto intro: that)
qed

lemma is_lpm_unique:
  assumes "is_lpm t w r" and "is_lpm t w r'"
  shows "r = r'"
proof -
  obtain xs ys where a: "t = xs @ r # ys" "covers r w"
    "\<forall>q \<in> set xs. covers q w \<longrightarrow> rt_mask q < rt_mask r"
    "\<forall>q \<in> set ys. covers q w \<longrightarrow> rt_mask q \<le> rt_mask r"
    using assms(1) by (auto simp: is_lpm_def)
  obtain xs' ys' where b: "t = xs' @ r' # ys'" "covers r' w"
    "\<forall>q \<in> set xs'. covers q w \<longrightarrow> rt_mask q < rt_mask r'"
    "\<forall>q \<in> set ys'. covers q w \<longrightarrow> rt_mask q \<le> rt_mask r'"
    using assms(2) by (auto simp: is_lpm_def)
  from a(1) b(1) have "xs @ r # ys = xs' @ r' # ys'" by simp
  then consider zs where "xs = xs' @ r' # zs" | zs where "xs' = xs @ r # zs" | "xs = xs'" "r = r'"
    by (rule split_cases)
  then show ?thesis
  proof cases
    case 1
    then have "rt_mask r' < rt_mask r" using a(3) b(2) by simp
    moreover have "rt_mask r \<le> rt_mask r'"
      using a(1) b(1,4) 1 a(2) by simp
    ultimately show ?thesis by simp
  next
    case 2
    then have "rt_mask r < rt_mask r'" using b(3) a(2) by simp
    moreover have "rt_mask r' \<le> rt_mask r"
      using a(1,4) b(1,2) 2 by auto
    ultimately show ?thesis by simp
  qed
qed

lemma l3rib_lookup_None:
  assumes "rt_ok t"
  shows "l3rib_lookup_lpm t w = Inr None \<longleftrightarrow> (\<forall>r \<in> set t. \<not> covers r w)"
proof -
  have pos: "0 < rt_mask r" if "r \<in> set t" for r
    using assms that by (auto simp: rt_ok_def intro: valid_mask_pos)
  show ?thesis
  proof
    assume "l3rib_lookup_lpm t w = Inr None"
    then have "\<forall>q \<in> set t. covers q w \<longrightarrow> rt_mask q \<le> 0"
      using lpm_fold_cases [of w t 0 None] by (auto simp: l3rib_lookup_fold [OF assms])
    then show "\<forall>r \<in> set t. \<not> covers r w"
      using pos leD by blast
  next
    assume "\<forall>r \<in> set t. \<not> covers r w"
    then show "l3rib_lookup_lpm t w = Inr None"
      using lpm_fold_stay [of t w 0 None] by (simp add: l3rib_lookup_fold [OF assms])
  qed
qed

lemma l3rib_lookup_Some:
  assumes "rt_ok t"
  shows "l3rib_lookup_lpm t w = Inr (Some r) \<longleftrightarrow> is_lpm t w r"
proof
  assume "l3rib_lookup_lpm t w = Inr (Some r)"
  then show "is_lpm t w r"
    using lpm_fold_cases [of w t 0 None] by (auto simp: l3rib_lookup_fold [OF assms])
next
  assume r: "is_lpm t w r"
  then have "r \<in> set t" "covers r w" by (auto simp: is_lpm_def)
  then have "l3rib_lookup_lpm t w \<noteq> Inr None"
    using l3rib_lookup_None [OF assms] by blast
  then obtain r' where r': "lpm_fold w t 0 None = Some r'"
    by (auto simp: l3rib_lookup_fold [OF assms])
  then have "is_lpm t w r'"
    using lpm_fold_cases [of w t 0 None] by auto
  then show "l3rib_lookup_lpm t w = Inr (Some r)"
    using r' is_lpm_unique [OF r] by (simp add: l3rib_lookup_fold [OF assms])
qed

lemma lookup_total: "rt_ok t \<Longrightarrow> \<exists>r. l3rib_lookup_lpm t w = Inr r"
  by (simp add: l3rib_lookup_fold)

lemma lookup_in_table: "rt_ok t \<Longrightarrow> l3rib_lookup_lpm t w = Inr (Some r) \<Longrightarrow> r \<in> set t \<and> covers r w"
  by (auto simp: l3rib_lookup_Some is_lpm_def)

text \<open>For a canonical route, covering is the agreement of the leading bits.\<close>

lemma covers_iff_same_prefix:
  assumes "rt_dest r = inet_ntop (network d (rt_mask r))"
  shows "covers r w \<longleftrightarrow> same_prefix (rt_mask r) d w"
  by (simp add: covers_def assms network_eq_iff)

lemma rt_ok_add_direct:
  "rt_table_add_direct_route t d m = Inr t' \<Longrightarrow> rt_ok t \<Longrightarrow> valid_mask m \<Longrightarrow> rt_ok t'"
  by (auto simp: rt_table_add_direct_route_def rbind_eq_Inr rt_ok_def)

lemma rt_ok_add_route:
  "rt_table_add_route t d m g i = Inr t' \<Longrightarrow> rt_ok t \<Longrightarrow> valid_mask m \<Longrightarrow> rt_ok t'"
  by (auto simp: rt_table_add_route_def rbind_eq_Inr rt_ok_def)

section \<open>Properties\<close>

text \<open>C1: the lookup is longest prefix match: it gives a route exactly when this is the most
  specific one that covers the address, the one added last among equals, and nothing
  exactly when no route covers it.\<close>

theorem lpm_correct:
  assumes "rt_ok t"
  shows "(l3rib_lookup_lpm t w = Inr (Some r) \<longleftrightarrow> is_lpm t w r) \<and>
    (l3rib_lookup_lpm t w = Inr None \<longleftrightarrow> (\<forall>r \<in> set t. \<not> covers r w))"
  using l3rib_lookup_Some [OF assms] l3rib_lookup_None [OF assms] by simp

lemma lpm_correct_witness:
  "let r = \<lparr>rt_dest = inet_ntop (network 0x0101010A 24), rt_mask = 24, is_direct = True,
            rt_gw = [], rt_oif = []\<rparr>
   in l3rib_lookup_lpm [r] 0x0201010A = Inr (Some r) \<longleftrightarrow> is_lpm [r] 0x0201010A r"
  unfolding Let_def
  by (rule lpm_correct [THEN conjunct1]) (simp add: rt_ok_def valid_mask_def)

text \<open>Routes added one after the other, as the \<^verbatim>\<open>config ... route\<close> command does.\<close>

fun add_routes :: "route_table \<Rightarrow> (u32 \<times> u8 \<times> string \<times> string) list \<Rightarrow> route_table res" where
  "add_routes t [] = Inr t"
| "add_routes t ((d, m, gw, oif) # rs) =
     rbind (rt_table_add_route t (inet_ntop d) m gw oif) (\<lambda>t'. add_routes t' rs)"

definition route_args_ok :: "u32 \<times> u8 \<times> string \<times> string \<Rightarrow> bool" where
  "route_args_ok = (\<lambda>(d, m, gw, oif). valid_mask m \<and> length gw < 16 \<and> length oif < IF_NAME_SIZE)"

definition route_of :: "u32 \<times> u8 \<times> string \<times> string \<Rightarrow> layer3_route" where
  "route_of = (\<lambda>(d, m, gw, oif). \<lparr>rt_dest = inet_ntop (network d m), rt_mask = m,
     is_direct = False, rt_gw = gw, rt_oif = oif\<rparr>)"

lemma add_routes_result:
  "list_all route_args_ok rs \<Longrightarrow> add_routes t rs = Inr (rev (map route_of rs) @ t)"
proof (induction rs arbitrary: t)
  case (Cons x rs)
  obtain d m gw oif where x: "x = (d, m, gw, oif)" by (cases x)
  have "length (inet_ntop (network d m)) < 16"
    using length_inet_ntop [of "network d m"] by simp
  then have "rt_table_add_route t (inet_ntop d) m gw oif = Inr (route_of x # t)"
    using Cons.prems
    by (simp add: x rt_table_add_route_def apply_mask_ntop route_args_ok_def strcpy_to_def route_of_def)
  then show ?case using Cons by (simp add: x)
qed simp

lemma is_lpm_best:
  "is_lpm t w r \<Longrightarrow> r \<in> set t \<and> covers r w \<and> (\<forall>q \<in> set t. covers q w \<longrightarrow> rt_mask q \<le> rt_mask r)"
  by (auto simp: is_lpm_def less_imp_le)

lemma covers_route_of: "covers (route_of (d, m, gw, oif)) w \<longleftrightarrow> same_prefix m d w"
  by (simp add: covers_def route_of_def network_eq_iff)

text \<open>C2: from command to decision: after any sequence of valid route commands a lookup
  answers with the gateway and interface of a command whose network contains the
  destination bit by bit and whose mask is the longest of all such, and finds nothing only
  if no command's network contains it.\<close>

theorem routes_are_obeyed:
  assumes "list_all route_args_ok rs"
  shows "\<exists>t. add_routes [] rs = Inr t \<and>
    ((\<exists>(d, m, gw, oif) \<in> set rs. same_prefix m d w \<and>
        (\<forall>(d', m', gw', oif') \<in> set rs. same_prefix m' d' w \<longrightarrow> m' \<le> m) \<and>
        (\<exists>r. l3rib_lookup_lpm t w = Inr (Some r) \<and> rt_gw r = gw \<and> rt_oif r = oif)) \<or>
     l3rib_lookup_lpm t w = Inr None \<and> (\<forall>(d, m, gw, oif) \<in> set rs. \<not> same_prefix m d w))"
proof -
  let ?t = "rev (map route_of rs)"
  have t: "add_routes [] rs = Inr ?t" using add_routes_result [OF assms, of "[]"] by simp
  have ok: "rt_ok ?t"
    using assms by (auto simp: rt_ok_def route_of_def route_args_ok_def list_all_iff)
  show ?thesis
  proof (cases "lpm_fold w ?t 0 None")
    case None
    then have n: "l3rib_lookup_lpm ?t w = Inr None" by (simp add: l3rib_lookup_fold [OF ok])
    then have "\<forall>x \<in> set rs. \<not> covers (route_of x) w" using l3rib_lookup_None [OF ok] by auto
    then show ?thesis using t n by (fastforce simp: covers_route_of)
  next
    case (Some r)
    then have r: "l3rib_lookup_lpm ?t w = Inr (Some r)" by (simp add: l3rib_lookup_fold [OF ok])
    then have l: "is_lpm ?t w r" using l3rib_lookup_Some [OF ok] by simp
    have "r \<in> set ?t" "covers r w" and best: "\<And>q. q \<in> set ?t \<Longrightarrow> covers q w \<Longrightarrow> rt_mask q \<le> rt_mask r"
      using is_lpm_best [OF l] by blast+
    from this(1) obtain d m gw oif where x: "(d, m, gw, oif) \<in> set rs" "r = route_of (d, m, gw, oif)" by auto
    have "same_prefix m' d' w \<longrightarrow> m' \<le> m" if "(d', m', gw', oif') \<in> set rs" for d' m' gw' oif'
    proof
      assume "same_prefix m' d' w"
      then have "rt_mask (route_of (d', m', gw', oif')) \<le> rt_mask r"
        using that by (intro best) (simp_all add: covers_route_of)
      then show "m' \<le> m" unfolding x(2) by (simp add: route_of_def)
    qed
    moreover have "same_prefix m d w" using \<open>covers r w\<close> x(2) by (simp add: covers_route_of)
    ultimately show ?thesis
      using t r x by (intro exI [of _ ?t] conjI disjI1 t bexI [OF _ x(1)]) (auto simp: route_of_def)
  qed
qed

lemma routes_are_obeyed_witness:
  "\<exists>t. add_routes [] [(0x0000010A, 16, ''10.1.1.2'', ''eth0''), (0x0001010A, 24, ''10.1.1.3'', ''eth1'')] = Inr t \<and>
    ((\<exists>(d, m, gw, oif) \<in> set [(0x0000010A, 16, ''10.1.1.2'', ''eth0''), (0x0001010A, 24, ''10.1.1.3'', ''eth1'')].
        same_prefix m d 0x0901010A \<and>
        (\<forall>(d', m', gw', oif') \<in> set [(0x0000010A, 16, ''10.1.1.2'', ''eth0''), (0x0001010A, 24, ''10.1.1.3'', ''eth1'')].
           same_prefix m' d' 0x0901010A \<longrightarrow> m' \<le> m) \<and>
        (\<exists>r. l3rib_lookup_lpm t 0x0901010A = Inr (Some r) \<and> rt_gw r = gw \<and> rt_oif r = oif)) \<or>
     l3rib_lookup_lpm t 0x0901010A = Inr None \<and>
     (\<forall>(d, m, gw, oif) \<in> set [(0x0000010A, 16, ''10.1.1.2'', ''eth0''), (0x0001010A, 24, ''10.1.1.3'', ''eth1'')].
        \<not> same_prefix m d 0x0901010A))"
  by (rule routes_are_obeyed) (simp add: route_args_ok_def valid_mask_def IF_NAME_SIZE_def)

text \<open>A default route cannot be used although the command accepts mask 0: adding it, and any
  lookup that meets one, shifts a 32 bit value by 32.\<close>

theorem default_route_faults:
  "rt_table_add_route t dst 0 gw oif = Inl Bad_shift \<and>
   l3rib_lookup_lpm (\<lparr>rt_dest = ''0.0.0.0'', rt_mask = 0, is_direct = False, rt_gw = gw, rt_oif = oif\<rparr> # t) w
     = Inl Bad_shift"
  by (simp add: rt_table_add_route_def l3rib_lookup_lpm_def apply_mask_def prefix_bits_def Let_def)

end
