(* ===== verification/Graph.thy ===== *)
theory Graph
  imports Mac_Table Arp_Table Route_Table
begin

text \<open>
  The network graph: \<^verbatim>\<open>include/graph.h\<close>, \<^verbatim>\<open>src/graph.c\<close> and the property structs of
  \<^verbatim>\<open>include/net.h\<close>. Nodes and links are allocated once and never freed, so the heap is
  two maps from numbers to structs with the count of what is allocated; an
  \<^verbatim>\<open>interface_t *\<close> is the number of a link with the end of the link that it points to.
\<close>

section \<open>Data\<close>

datatype intf_l2_mode = ACCESS | TRUNK | L2_MODE_UNKNOWN

record interface =
  if_name :: string
  att_node :: "nat option"
  if_mac :: bytes
  l2_mode :: intf_l2_mode
  vlans :: "u16 list"
  is_ipadd_config :: bool
  ip_add :: string
  if_mask :: u8

record link =
  intf1 :: interface
  intf2 :: interface
  link_cost :: u32

datatype side = Intf1 | Intf2

type_synonym nid = nat
type_synonym ifptr = "nat \<times> side"

datatype debug_status = DEBUG_ON | DEBUG_OFF

record node =
  node_name :: string
  intf :: "ifptr option list"
  node_arp_table :: arp_table
  node_mac_table :: mac_table
  is_lb_addr_config :: bool
  lb_addr :: string
  node_route_table :: route_table
  udp_sock_fd :: int
  udp_port_number :: u32
  node_debug :: debug_status

text \<open>
  The graph with the heap it lives on, and the counter of UDP ports, a static variable of
  \<^verbatim>\<open>src/communications.c\<close>. \<open>node_list\<close> is the list of nodes, the newest first.
\<close>

record graph =
  topolgy_name :: string
  node_list :: "nid list"
  nodes :: "nid \<Rightarrow> node"
  links :: "nat \<Rightarrow> link"
  n_nodes :: nat
  n_links :: nat
  udp_counter :: u32

definition MAX_INTF_PER_NODE :: nat where "MAX_INTF_PER_NODE = 10"
definition NODE_NAME_SIZE :: nat where "NODE_NAME_SIZE = 16"
definition MAX_VLAN_MEMBERSHIP :: nat where "MAX_VLAN_MEMBERSHIP = 10"

lemmas graph_consts = MAX_INTF_PER_NODE_def NODE_NAME_SIZE_def MAX_VLAN_MEMBERSHIP_def

text \<open>What \<^verbatim>\<open>calloc\<close> leaves in an interface and a node; enumerations start at zero.\<close>

definition zero_interface :: interface where
  "zero_interface = \<lparr>if_name = [], att_node = None, if_mac = zeros 6, l2_mode = ACCESS,
     vlans = replicate MAX_VLAN_MEMBERSHIP 0, is_ipadd_config = False, ip_add = [], if_mask = 0\<rparr>"

definition zero_node :: node where
  "zero_node = \<lparr>node_name = [], intf = replicate MAX_INTF_PER_NODE None, node_arp_table = [],
     node_mac_table = [], is_lb_addr_config = False, lb_addr = [], node_route_table = [],
     udp_sock_fd = 0, udp_port_number = 0, node_debug = DEBUG_ON\<rparr>"

definition zero_link :: link where
  "zero_link = \<lparr>intf1 = zero_interface, intf2 = zero_interface, link_cost = 0\<rparr>"

definition init_node_nw_prop :: "node \<Rightarrow> node" where
  "init_node_nw_prop nd = nd\<lparr>is_lb_addr_config := False, lb_addr := [],
     node_arp_table := init_arp_table, node_mac_table := init_mac_table,
     node_route_table := init_rt_table\<rparr>"

definition init_intf_nw_prop :: "interface \<Rightarrow> interface" where
  "init_intf_nw_prop i = i\<lparr>if_mac := zeros 6, is_ipadd_config := False, ip_add := [],
     if_mask := 0, l2_mode := ACCESS\<rparr>"

definition IS_INTF_L3_MODE :: "interface \<Rightarrow> bool" where
  "IS_INTF_L3_MODE i = is_ipadd_config i"


section \<open>Pointers\<close>

fun other_side :: "side \<Rightarrow> side" where
  "other_side Intf1 = Intf2"
| "other_side Intf2 = Intf1"

fun iface :: "graph \<Rightarrow> ifptr \<Rightarrow> interface" where
  "iface g (l, Intf1) = intf1 (links g l)"
| "iface g (l, Intf2) = intf2 (links g l)"

fun upd_iface :: "graph \<Rightarrow> ifptr \<Rightarrow> (interface \<Rightarrow> interface) \<Rightarrow> graph" where
  "upd_iface g (l, Intf1) f =
     g\<lparr>links := (links g)(l := (links g l)\<lparr>intf1 := f (intf1 (links g l))\<rparr>)\<rparr>"
| "upd_iface g (l, Intf2) f =
     g\<lparr>links := (links g)(l := (links g l)\<lparr>intf2 := f (intf2 (links g l))\<rparr>)\<rparr>"

definition upd_node :: "graph \<Rightarrow> nid \<Rightarrow> (node \<Rightarrow> node) \<Rightarrow> graph" where
  "upd_node g n f = g\<lparr>nodes := (nodes g)(n := f (nodes g n))\<rparr>"

definition remote_intf :: "ifptr \<Rightarrow> ifptr" where
  "remote_intf p = (fst p, other_side (snd p))"

text \<open>\<^verbatim>\<open>get_nbr_node\<close>: the node at the other end of the link.\<close>

definition get_nbr_node :: "graph \<Rightarrow> ifptr \<Rightarrow> nid option" where
  "get_nbr_node g p =
     (case snd p of
        Intf2 \<Rightarrow> att_node (intf1 (links g (fst p)))
      | Intf1 \<Rightarrow> att_node (intf2 (links g (fst p))))"

fun slot_loop :: "ifptr option list \<Rightarrow> nat \<Rightarrow> nat option" where
  "slot_loop [] index = None"
| "slot_loop (s # ss) index = (if s = None then Some index else slot_loop ss (Suc index))"

definition get_node_intf_available_slot :: "node \<Rightarrow> nat option" where
  "get_node_intf_available_slot nd = slot_loop (take (MAX_INTF_PER_NODE - 1) (intf nd)) 0"

text \<open>A scan of the slots that stops at the first empty one.\<close>

fun slot_search :: "(ifptr \<Rightarrow> bool) \<Rightarrow> ifptr option list \<Rightarrow> ifptr option" where
  "slot_search P [] = None"
| "slot_search P (None # ss) = None"
| "slot_search P (Some p # ss) = (if P p then Some p else slot_search P ss)"

definition get_node_if_by_name :: "graph \<Rightarrow> nid \<Rightarrow> string \<Rightarrow> ifptr option" where
  "get_node_if_by_name g n name =
     slot_search (\<lambda>p. if_name (iface g p) = name)
       (take (MAX_INTF_PER_NODE - 1) (intf (nodes g n)))"

definition get_node_by_node_name :: "graph \<Rightarrow> string \<Rightarrow> nid option" where
  "get_node_by_node_name g name =
     List.find (\<lambda>n. strncmp_eq (node_name (nodes g n)) name) (node_list g)"

definition set_node_debug_status :: "graph \<Rightarrow> nid \<Rightarrow> debug_status \<Rightarrow> graph" where
  "set_node_debug_status g n status = upd_node g n (\<lambda>nd. nd\<lparr>node_debug := status\<rparr>)"


section \<open>Generated MAC addresses\<close>

text \<open>The characters are signed (x86-64), the arithmetic is modulo \<open>2 ^ 32\<close>.\<close>

definition hash_code :: "bytes \<Rightarrow> u32" where
  "hash_code str = fold (\<lambda>c v. (v + scast c) * 97) str 0"

definition gen_mac :: "string \<Rightarrow> string \<Rightarrow> bytes" where
  "gen_mac nname iname =
     le32 (hash_code (char_array NODE_NAME_SIZE nname) * hash_code (char_array IF_NAME_SIZE iname))
     @ zeros 2"

definition interface_assign_mac_address :: "graph \<Rightarrow> ifptr \<Rightarrow> graph" where
  "interface_assign_mac_address g p =
     (case att_node (iface g p) of
        None \<Rightarrow> g
      | Some n \<Rightarrow>
          upd_iface g p (\<lambda>i. i\<lparr>if_mac := gen_mac (node_name (nodes g n)) (if_name i)\<rparr>))"


section \<open>Building a graph\<close>

definition create_new_graph :: "string \<Rightarrow> graph" where
  "create_new_graph name = \<lparr>topolgy_name = strncpy_term 32 name, node_list = [],
     nodes = (\<lambda>_. zero_node), links = (\<lambda>_. zero_link), n_nodes = 0, n_links = 0,
     udp_counter = 40000\<rparr>"

text \<open>\<open>sock\<close> is what the operating system answers: the bound socket, or \<open>None\<close> when
  \<^verbatim>\<open>bind\<close> fails; then the descriptor stays zero.\<close>

definition init_udp_socket :: "int option \<Rightarrow> u32 \<Rightarrow> node \<Rightarrow> node" where
  "init_udp_socket sock port nd =
     (let nd1 = nd\<lparr>udp_port_number := port\<rparr> in
      case sock of None \<Rightarrow> nd1 | Some fd \<Rightarrow> nd1\<lparr>udp_sock_fd := fd\<rparr>)"

definition create_graph_node :: "graph \<Rightarrow> string \<Rightarrow> int option \<Rightarrow> (nid \<times> graph) res" where
  "create_graph_node g name sock =
     rbind (strcpy_to NODE_NAME_SIZE name) (\<lambda>nm.
     let n = n_nodes g;
         port = udp_counter g + 1;
         nd = (init_node_nw_prop (init_udp_socket sock port (zero_node\<lparr>node_name := nm\<rparr>)))
                \<lparr>node_debug := DEBUG_OFF\<rparr>
     in Inr (n, g\<lparr>nodes := (nodes g)(n := nd), n_nodes := Suc n, udp_counter := port,
                  node_list := n # node_list g\<rparr>))"

definition set_slot :: "graph \<Rightarrow> nid \<Rightarrow> nat \<Rightarrow> ifptr \<Rightarrow> graph" where
  "set_slot g n k p = upd_node g n (\<lambda>nd. nd\<lparr>intf := (intf nd)[k := Some p]\<rparr>)"

definition insert_link_between_two_nodes ::
  "graph \<Rightarrow> nid \<Rightarrow> nid \<Rightarrow> string \<Rightarrow> string \<Rightarrow> u32 \<Rightarrow> graph" where
  "insert_link_between_two_nodes g node1 node2 from_if_name to_if_name cost =
     (case (get_node_intf_available_slot (nodes g node1),
            get_node_intf_available_slot (nodes g node2)) of
        (Some node1_slot, Some node2_slot) \<Rightarrow>
          let l = n_links g;
              lk = zero_link
                \<lparr>intf1 := zero_interface\<lparr>if_name := strncpy_term IF_NAME_SIZE from_if_name,
                            att_node := Some node1\<rparr>,
                 intf2 := zero_interface\<lparr>if_name := strncpy_term IF_NAME_SIZE to_if_name,
                            att_node := Some node2\<rparr>,
                 link_cost := cost\<rparr>;
              g1 = g\<lparr>links := (links g)(l := lk), n_links := Suc l\<rparr>;
              g2 = set_slot (set_slot g1 node1 node1_slot (l, Intf1)) node2 node2_slot (l, Intf2);
              g3 = upd_iface (upd_iface g2 (l, Intf1) init_intf_nw_prop) (l, Intf2) init_intf_nw_prop
          in interface_assign_mac_address (interface_assign_mac_address g3 (l, Intf1)) (l, Intf2)
      | _ \<Rightarrow> g)"


text \<open>
  \<^verbatim>\<open>delete_graph\<close> frees the struct of the graph alone. The pointer dangles afterwards; here it is
  a null pointer, so that following it is a fault as well.
\<close>

definition delete_graph :: "graph option \<Rightarrow> graph option" where
  "delete_graph g = None"


section \<open>Reading back what was written\<close>

lemma iface_upd_iface [simp]: "iface (upd_iface g p f) q = (if q = p then f (iface g p) else iface g q)"
  by (cases "(g, p, f)" rule: upd_iface.cases; cases q rule: prod.exhaust; cases "snd q") auto

lemma upd_iface_frame [simp, frame_simps]:
  "nodes (upd_iface g p f) = nodes g" "node_list (upd_iface g p f) = node_list g"
  "n_nodes (upd_iface g p f) = n_nodes g" "n_links (upd_iface g p f) = n_links g"
  "udp_counter (upd_iface g p f) = udp_counter g" "topolgy_name (upd_iface g p f) = topolgy_name g"
  by (induction g p f rule: upd_iface.induct) simp_all

lemma links_eq_iface: "links g' = links g \<Longrightarrow> iface g' p = iface g p"
  by (cases "(g, p)" rule: iface.cases) simp_all

declare upd_iface.simps [simp del] iface.simps [simp del]
declare split_paired_All [simp del] split_paired_Ex [simp del]

lemma upd_node_frame [simp, frame_simps]:
  "links (upd_node g n f) = links g" "node_list (upd_node g n f) = node_list g"
  "n_nodes (upd_node g n f) = n_nodes g" "n_links (upd_node g n f) = n_links g"
  "udp_counter (upd_node g n f) = udp_counter g" "topolgy_name (upd_node g n f) = topolgy_name g"
  "nodes (upd_node g n f) m = (if m = n then f (nodes g n) else nodes g m)"
  by (simp_all add: upd_node_def)

lemma iface_upd_node [simp]: "iface (upd_node g n f) p = iface g p"
  by (rule links_eq_iface) simp

lemma set_slot_frame [simp, frame_simps]:
  "links (set_slot g n k p) = links g" "node_list (set_slot g n k p) = node_list g"
  "n_nodes (set_slot g n k p) = n_nodes g" "n_links (set_slot g n k p) = n_links g"
  "udp_counter (set_slot g n k p) = udp_counter g"
  "iface (set_slot g n k p) q = iface g q"
  "nodes (set_slot g n k p) m =
     (if m = n then (nodes g n)\<lparr>intf := (intf (nodes g n))[k := Some p]\<rparr> else nodes g m)"
  by (simp_all add: set_slot_def)

lemma assign_mac_frame [simp, frame_simps]:
  "nodes (interface_assign_mac_address g p) = nodes g"
  "node_list (interface_assign_mac_address g p) = node_list g"
  "n_nodes (interface_assign_mac_address g p) = n_nodes g"
  "n_links (interface_assign_mac_address g p) = n_links g"
  "udp_counter (interface_assign_mac_address g p) = udp_counter g"
  by (simp_all add: interface_assign_mac_address_def split: option.split)

lemma iface_assign_mac:
  "iface (interface_assign_mac_address g p) q =
     (if q = p then
        (case att_node (iface g p) of None \<Rightarrow> iface g p
         | Some n \<Rightarrow> (iface g p)\<lparr>if_mac := gen_mac (node_name (nodes g n)) (if_name (iface g p))\<rparr>)
      else iface g q)"
  by (simp add: interface_assign_mac_address_def split: option.split)

lemma other_side_simps [simp]: "other_side (other_side s) = s" "other_side s \<noteq> s" "s \<noteq> other_side s"
  by (cases s; simp)+

lemma remote_remote [simp]: "remote_intf (remote_intf p) = p"
  by (simp add: remote_intf_def)

lemma remote_intf_neq [simp]: "remote_intf p \<noteq> p"
  by (cases p) (simp add: remote_intf_def)

lemma fst_remote_intf [simp]: "fst (remote_intf p) = fst p"
  by (simp add: remote_intf_def)

lemma get_nbr_node_remote: "get_nbr_node g p = att_node (iface g (remote_intf p))"
  by (cases "(g, p)" rule: iface.cases) (simp_all add: get_nbr_node_def remote_intf_def iface.simps)


section \<open>Slots\<close>

text \<open>The slots of a node that was only ever extended: pointers, then empty slots.\<close>

definition slots :: "ifptr list \<Rightarrow> ifptr option list" where
  "slots ps = map Some ps @ replicate (MAX_INTF_PER_NODE - length ps) None"

lemma slot_loop_slots:
  "slot_loop (map Some ps @ replicate k None) i = (if k = 0 then None else Some (i + length ps))"
  by (induction ps arbitrary: i) (cases k, auto)

lemma usable_slots [simp]: "MAX_INTF_PER_NODE - Suc 0 = 9"
  by (simp add: MAX_INTF_PER_NODE_def)

lemma take_slots:
  "length ps \<le> 9 \<Longrightarrow> take 9 (slots ps) = map Some ps @ replicate (9 - length ps) None"
  by (simp add: slots_def MAX_INTF_PER_NODE_def min_def)

lemma available_slot_slots:
  assumes "intf nd = slots ps" and "length ps \<le> 9"
  shows "get_node_intf_available_slot nd = (if length ps = 9 then None else Some (length ps))"
  using assms by (simp add: get_node_intf_available_slot_def take_slots slot_loop_slots)

lemma slot_search_slots: "slot_search P (map Some ps @ replicate k None) = List.find P ps"
  by (induction ps) (cases k, auto)

lemma slots_update:
  assumes "length ps < 10"
  shows "(slots ps)[length ps := Some p] = slots (ps @ [p])"
proof -
  from assms obtain k where k: "10 - length ps = Suc k" by (cases "10 - length ps") auto
  then have "10 - Suc (length ps) = k" by simp
  then show ?thesis
    using k by (simp add: slots_def MAX_INTF_PER_NODE_def list_update_append)
qed

lemma set_slots: "Some p \<in> set (slots ps) \<longleftrightarrow> p \<in> set ps"
  by (auto simp: slots_def)

definition node_intfs :: "graph \<Rightarrow> nid \<Rightarrow> ifptr list" where
  "node_intfs g n = List.map_filter id (intf (nodes g n))"

lemma map_filter_slots [simp]: "List.map_filter id (slots ps) = ps"
proof -
  have "List.map_filter id (replicate k None) = []" for k :: nat
    by (induction k) (simp_all add: List.map_filter_simps)
  moreover have "List.map_filter id (map Some ps @ ys) = ps @ List.map_filter id ys" for ys
    by (induction ps) (simp_all add: List.map_filter_simps)
  ultimately show ?thesis by (simp add: slots_def)
qed


section \<open>Well-formed graphs\<close>

text \<open>
  The nodes are listed newest first; the slots of a node are filled from the front without
  gaps, name each interface once and only interfaces attached to it; every end of a link is
  in a slot of the node that it is attached to, and its arrays have the declared sizes.
\<close>

definition iface_wf :: "graph \<Rightarrow> ifptr \<Rightarrow> bool" where
  "iface_wf g p \<longleftrightarrow>
     (\<exists>n < n_nodes g. att_node (iface g p) = Some n \<and> Some p \<in> set (intf (nodes g n))) \<and>
     fits IF_NAME_SIZE (if_name (iface g p)) \<and> length (if_mac (iface g p)) = 6 \<and>
     length (vlans (iface g p)) = MAX_VLAN_MEMBERSHIP"

definition node_wf :: "graph \<Rightarrow> nid \<Rightarrow> bool" where
  "node_wf g n \<longleftrightarrow> fits NODE_NAME_SIZE (node_name (nodes g n)) \<and>
     (\<exists>ps. intf (nodes g n) = slots ps \<and> length ps \<le> 9 \<and> distinct ps \<and>
        (\<forall>p \<in> set ps. fst p < n_links g \<and> att_node (iface g p) = Some n))"

definition graph_wf :: "graph \<Rightarrow> bool" where
  "graph_wf g \<longleftrightarrow> node_list g = rev [0..<n_nodes g] \<and> (\<forall>n < n_nodes g. node_wf g n) \<and>
     (\<forall>p. fst p < n_links g \<longrightarrow> iface_wf g p)"

lemma node_wf_slots: "node_wf g n \<Longrightarrow> intf (nodes g n) = slots (node_intfs g n)"
  by (auto simp: node_wf_def node_intfs_def)

lemma node_wf_props:
  assumes "node_wf g n"
  shows "length (node_intfs g n) \<le> 9" "distinct (node_intfs g n)"
    "\<And>p. p \<in> set (node_intfs g n) \<Longrightarrow> fst p < n_links g \<and> att_node (iface g p) = Some n"
    "fits NODE_NAME_SIZE (node_name (nodes g n))"
  using assms by (auto simp: node_wf_def node_intfs_def)

lemma node_wfI:
  "\<lbrakk>fits NODE_NAME_SIZE (node_name (nodes g n)); intf (nodes g n) = slots ps; length ps \<le> 9;
    distinct ps; \<And>p. p \<in> set ps \<Longrightarrow> fst p < n_links g \<and> att_node (iface g p) = Some n\<rbrakk>
   \<Longrightarrow> node_wf g n"
  by (auto simp: node_wf_def)

lemma graph_wf_node: "graph_wf g \<Longrightarrow> n < n_nodes g \<Longrightarrow> node_wf g n"
  by (simp add: graph_wf_def)

lemma graph_wf_iface: "graph_wf g \<Longrightarrow> fst p < n_links g \<Longrightarrow> iface_wf g p"
  by (simp add: graph_wf_def)

lemma graph_wf_att:
  assumes "graph_wf g" and "fst p < n_links g"
  obtains n where "n < n_nodes g" "att_node (iface g p) = Some n" "p \<in> set (node_intfs g n)"
proof -
  obtain n where n: "n < n_nodes g" "att_node (iface g p) = Some n" "Some p \<in> set (intf (nodes g n))"
    using graph_wf_iface [OF assms] by (auto simp: iface_wf_def)
  then show thesis
    using that node_wf_slots [OF graph_wf_node [OF assms(1) n(1)]] by (simp add: set_slots)
qed

lemma graph_wf_new [wf_intros]: "graph_wf (create_new_graph name)"
  by (simp add: graph_wf_def create_new_graph_def)

text \<open>Looking an interface up by name finds the first of the node's interfaces so called.\<close>

lemma get_node_if_by_name_find:
  assumes "node_wf g n"
  shows "get_node_if_by_name g n nm = List.find (\<lambda>p. if_name (iface g p) = nm) (node_intfs g n)"
  using node_wf_props(1) [OF assms]
  by (simp add: get_node_if_by_name_def node_wf_slots [OF assms] take_slots slot_search_slots)

lemma get_node_if_by_name_Some:
  assumes "node_wf g n" and "get_node_if_by_name g n nm = Some p"
  shows "p \<in> set (node_intfs g n)" "if_name (iface g p) = nm"
  using assms(2) by (auto simp: get_node_if_by_name_find [OF assms(1)] find_Some_iff)

lemma get_node_if_by_name_self:
  assumes "node_wf g n" and "p \<in> set (node_intfs g n)"
    and "inj_on (\<lambda>q. if_name (iface g q)) (set (node_intfs g n))"
  shows "get_node_if_by_name g n (if_name (iface g p)) = Some p"
proof -
  have "List.find (\<lambda>q. if_name (iface g q) = if_name (iface g p)) (node_intfs g n) \<noteq> None"
    using assms(2) by (auto simp: find_None_iff)
  then obtain q where q: "get_node_if_by_name g n (if_name (iface g p)) = Some q"
    by (auto simp: get_node_if_by_name_find [OF assms(1)])
  then have "q = p"
    using get_node_if_by_name_Some [OF assms(1) q] assms(2,3) by (auto dest: inj_onD)
  then show ?thesis using q by simp
qed

text \<open>What the two builders produce.\<close>

lemma create_graph_node_result:
  assumes "create_graph_node g name sock = Inr (n, g')"
  shows "n = n_nodes g" "n_nodes g' = Suc (n_nodes g)" "n_links g' = n_links g"
    "node_list g' = n_nodes g # node_list g" "links g' = links g"
    "m \<noteq> n \<Longrightarrow> nodes g' m = nodes g m"
    "node_name (nodes g' n) = name" "intf (nodes g' n) = slots []" "length name < NODE_NAME_SIZE"
    "udp_port_number (nodes g' n) = udp_counter g + 1" "udp_counter g' = udp_counter g + 1"
    "node_arp_table (nodes g' n) = init_arp_table" "node_mac_table (nodes g' n) = []"
    "node_route_table (nodes g' n) = []" "lb_addr (nodes g' n) = []"
    "node_debug (nodes g' n) = DEBUG_OFF"
    "sock = Some fd \<Longrightarrow> udp_sock_fd (nodes g' n) = fd"
  using assms
  by (auto simp: create_graph_node_def rbind_eq_Inr Let_def init_node_nw_prop_def slots_def
      init_udp_socket_def zero_node_def init_mac_table_def init_rt_table_def
      split: option.splits dest!: strcpy_to_InrD)

definition fresh_intf :: "graph \<Rightarrow> nid \<Rightarrow> string \<Rightarrow> interface" where
  "fresh_intf g n nm = zero_interface\<lparr>if_name := strncpy_term IF_NAME_SIZE nm, att_node := Some n,
     if_mac := gen_mac (node_name (nodes g n)) (strncpy_term IF_NAME_SIZE nm)\<rparr>"

lemma insert_link_result:
  assumes "intf (nodes g n1) = slots ps" "length ps < 9"
    and "intf (nodes g n2) = slots qs" "length qs < 9" and "n1 \<noteq> n2"
  shows "n_links (insert_link_between_two_nodes g n1 n2 a b c) = Suc (n_links g)"
    "n_nodes (insert_link_between_two_nodes g n1 n2 a b c) = n_nodes g"
    "node_list (insert_link_between_two_nodes g n1 n2 a b c) = node_list g"
    "udp_counter (insert_link_between_two_nodes g n1 n2 a b c) = udp_counter g"
    "iface (insert_link_between_two_nodes g n1 n2 a b c) p =
       (if p = (n_links g, Intf1) then fresh_intf g n1 a
        else if p = (n_links g, Intf2) then fresh_intf g n2 b else iface g p)"
    "nodes (insert_link_between_two_nodes g n1 n2 a b c) m =
       (if m = n1 then (nodes g m)\<lparr>intf := slots (ps @ [(n_links g, Intf1)])\<rparr>
        else if m = n2 then (nodes g m)\<lparr>intf := slots (qs @ [(n_links g, Intf2)])\<rparr>
        else nodes g m)"
proof -
  define l where "l = n_links g"
  define lk where "lk = zero_link
    \<lparr>intf1 := zero_interface\<lparr>if_name := strncpy_term IF_NAME_SIZE a, att_node := Some n1\<rparr>,
     intf2 := zero_interface\<lparr>if_name := strncpy_term IF_NAME_SIZE b, att_node := Some n2\<rparr>,
     link_cost := c\<rparr>"
  define g1 where "g1 = g\<lparr>links := (links g)(l := lk), n_links := Suc l\<rparr>"
  note sl = available_slot_slots [OF assms(1)] available_slot_slots [OF assms(3)]
  have e: "insert_link_between_two_nodes g n1 n2 a b c =
     interface_assign_mac_address (interface_assign_mac_address
       (upd_iface (upd_iface (set_slot (set_slot g1 n1 (length ps) (l, Intf1)) n2 (length qs) (l, Intf2))
         (l, Intf1) init_intf_nw_prop) (l, Intf2) init_intf_nw_prop) (l, Intf1)) (l, Intf2)"
    using assms sl by (simp add: insert_link_between_two_nodes_def Let_def g1_def lk_def l_def)
  note [simp] = iface.simps
  have i1: "iface g1 (l, Intf1) = zero_interface\<lparr>if_name := strncpy_term IF_NAME_SIZE a, att_node := Some n1\<rparr>"
    "iface g1 (l, Intf2) = zero_interface\<lparr>if_name := strncpy_term IF_NAME_SIZE b, att_node := Some n2\<rparr>"
    by (simp_all add: g1_def lk_def)
  have i2: "iface g1 p = iface g p" if "p \<noteq> (l, Intf1)" "p \<noteq> (l, Intf2)" for p
    using that by (cases "(g, p)" rule: iface.cases) (auto simp: g1_def)
  note [simp del] = iface.simps
  have f: "nodes g1 = nodes g" "n_links g1 = Suc l" "n_nodes g1 = n_nodes g"
    "node_list g1 = node_list g" "udp_counter g1 = udp_counter g"
    by (simp_all add: g1_def)
  show "n_links (insert_link_between_two_nodes g n1 n2 a b c) = Suc (n_links g)"
    "n_nodes (insert_link_between_two_nodes g n1 n2 a b c) = n_nodes g"
    "node_list (insert_link_between_two_nodes g n1 n2 a b c) = node_list g"
    "udp_counter (insert_link_between_two_nodes g n1 n2 a b c) = udp_counter g"
    unfolding e by (simp_all add: f l_def)
  show "iface (insert_link_between_two_nodes g n1 n2 a b c) p =
       (if p = (n_links g, Intf1) then fresh_intf g n1 a
        else if p = (n_links g, Intf2) then fresh_intf g n2 b else iface g p)"
    unfolding e l_def [symmetric]
    by (auto simp: iface_assign_mac i1 i2 f init_intf_nw_prop_def fresh_intf_def zero_interface_def)
  show "nodes (insert_link_between_two_nodes g n1 n2 a b c) m =
       (if m = n1 then (nodes g m)\<lparr>intf := slots (ps @ [(n_links g, Intf1)])\<rparr>
        else if m = n2 then (nodes g m)\<lparr>intf := slots (qs @ [(n_links g, Intf2)])\<rparr>
        else nodes g m)"
    unfolding e l_def [symmetric]
    using assms slots_update [of ps] slots_update [of qs] by (simp add: f)
qed


lemma insert_link_full:
  assumes "node_wf g n1" "node_wf g n2"
    and "length (node_intfs g n1) = 9 \<or> length (node_intfs g n2) = 9"
  shows "insert_link_between_two_nodes g n1 n2 a b c = g"
  using assms available_slot_slots [OF node_wf_slots [OF assms(1)] node_wf_props(1) [OF assms(1)]]
    available_slot_slots [OF node_wf_slots [OF assms(2)] node_wf_props(1) [OF assms(2)]]
  by (auto simp: insert_link_between_two_nodes_def split: option.splits)

lemma insert_link_node_intfs:
  assumes "node_wf g n1" "node_wf g n2" "n1 \<noteq> n2"
    and "length (node_intfs g n1) < 9" "length (node_intfs g n2) < 9"
  shows "node_intfs (insert_link_between_two_nodes g n1 n2 a b c) m =
    node_intfs g m @ (if m = n1 then [(n_links g, Intf1)] else if m = n2 then [(n_links g, Intf2)] else [])"
  using insert_link_result(6) [OF node_wf_slots [OF assms(1)] assms(4) node_wf_slots [OF assms(2)]
      assms(5,3)] by (simp add: node_intfs_def)

lemma fits_gen_name: "nul_free nm \<Longrightarrow> fits IF_NAME_SIZE (strncpy_term IF_NAME_SIZE nm)"
  by (simp add: fits_strncpy_term IF_NAME_SIZE_def)

lemma length_gen_mac [simp]: "length (gen_mac a b) = 6"
  by (simp add: gen_mac_def)

lemma fresh_intf_sel [simp]:
  "att_node (fresh_intf g n nm) = Some n" "if_name (fresh_intf g n nm) = strncpy_term IF_NAME_SIZE nm"
  "length (if_mac (fresh_intf g n nm)) = 6" "length (vlans (fresh_intf g n nm)) = MAX_VLAN_MEMBERSHIP"
  "is_ipadd_config (fresh_intf g n nm) = False" "l2_mode (fresh_intf g n nm) = ACCESS"
  "ip_add (fresh_intf g n nm) = []" "if_mask (fresh_intf g n nm) = 0"
  "vlans (fresh_intf g n nm) = replicate MAX_VLAN_MEMBERSHIP 0"
  by (simp_all add: fresh_intf_def zero_interface_def)

lemma graph_wf_create [wf_intros]:
  assumes wf: "graph_wf g" and c: "create_graph_node g name sock = Inr (n, g')" and "nul_free name"
  shows "graph_wf g'"
proof -
  note r = create_graph_node_result [OF c]
  have i: "iface g' p = iface g p" for p by (rule links_eq_iface) (rule r(5))
  have new: "node_wf g' n"
    by (rule node_wfI [of _ _ "[]"]) (use r(7-9) assms(3) in \<open>simp_all add: fits_def\<close>)
  have old: "node_wf g' m" if m: "m < n_nodes g" for m
    using graph_wf_node [OF wf m] r(1,3) r(6) [of m] m by (simp add: node_wf_def i)
  have ends: "iface_wf g' p" if p: "fst p < n_links g" for p
  proof -
    obtain k where "k < n_nodes g" "att_node (iface g p) = Some k" "Some p \<in> set (intf (nodes g k))"
      using graph_wf_iface [OF wf p] by (auto simp: iface_wf_def)
    then show ?thesis
      using graph_wf_iface [OF wf p] r(1,2) r(6) [of k] by (auto simp: iface_wf_def i)
  qed
  show ?thesis
    using wf new old ends r(1-4) by (auto simp: graph_wf_def less_Suc_eq)
qed

lemma graph_wf_insert [wf_intros]:
  assumes wf: "graph_wf g" and n: "n1 < n_nodes g" "n2 < n_nodes g" "n1 \<noteq> n2"
    and nm: "nul_free a" "nul_free b"
  shows "graph_wf (insert_link_between_two_nodes g n1 n2 a b c)" (is "graph_wf ?g")
proof -
  note w1 = graph_wf_node [OF wf n(1)] and w2 = graph_wf_node [OF wf n(2)]
  show ?thesis
  proof (cases "length (node_intfs g n1) = 9 \<or> length (node_intfs g n2) = 9")
    case True
    then show ?thesis using wf insert_link_full [OF w1 w2] by simp
  next
    case False
    then have l: "length (node_intfs g n1) < 9" "length (node_intfs g n2) < 9"
      using node_wf_props(1) [OF w1] node_wf_props(1) [OF w2] by linarith+
    let ?l = "n_links g"
    note r = insert_link_result [OF node_wf_slots [OF w1] l(1) node_wf_slots [OF w2] l(2) n(3)]
    have old: "(?l, s) \<notin> set (node_intfs g m)" if "m < n_nodes g" for m s
      using node_wf_props(3) [OF graph_wf_node [OF wf that], of "(?l, s)"] by auto
    have nodes_ok: "node_wf ?g m" if m: "m < n_nodes g" for m
    proof (rule node_wfI)
      let ?ps = "node_intfs g m @ (if m = n1 then [(?l, Intf1)] else if m = n2 then [(?l, Intf2)] else [])"
      note wm = graph_wf_node [OF wf m]
      show "fits NODE_NAME_SIZE (node_name (nodes ?g m))"
        using node_wf_props(4) [OF wm] by (auto simp: r(6))
      show "intf (nodes ?g m) = slots ?ps"
        using node_wf_slots [OF wm] n(3) by (auto simp: r(6))
      show "length ?ps \<le> 9" using node_wf_props(1) [OF wm] l by auto
      show "distinct ?ps" using node_wf_props(2) [OF wm] old [OF m] by auto
      show "fst p < n_links ?g \<and> att_node (iface ?g p) = Some m" if "p \<in> set ?ps" for p
        using node_wf_props(3) [OF wm, of p] that
        by (auto simp: r(1,5) less_Suc_eq split: if_splits)
    qed
    have "iface_wf ?g p" if "fst p < Suc ?l" for p
    proof (cases "fst p = ?l")
      case True
      then have p: "p = (?l, Intf1) \<or> p = (?l, Intf2)" by (cases p; cases "snd p") auto
      then show ?thesis
        using n nm by (auto simp: iface_wf_def r(2,5,6) set_slots fits_gen_name)
    next
      case False
      then have p: "fst p < ?l" using that by simp
      obtain k where k: "k < n_nodes g" "att_node (iface g p) = Some k" "p \<in> set (node_intfs g k)"
        by (rule graph_wf_att [OF wf p])
      have e: "iface ?g p = iface g p" using False by (auto simp: r(5))
      have "Some p \<in> set (intf (nodes ?g k))"
        using k(3) node_wf_slots [OF graph_wf_node [OF wf k(1)]] by (auto simp: r(6) set_slots)
      then show ?thesis
        using graph_wf_iface [OF wf p] k unfolding iface_wf_def e by (auto simp: r(2))
    qed
    then show ?thesis
      using wf nodes_ok by (simp add: graph_wf_def r(1-3))
  qed
qed

text \<open>The neighbour relation is symmetric: the far end's far end is the near end.\<close>

lemma nbr_sym:
  assumes "graph_wf g" and "fst p < n_links g" and "att_node (iface g p) = Some n"
    and "get_nbr_node g p = Some m"
  shows "get_nbr_node g (remote_intf p) = Some n \<and> remote_intf p \<in> set (node_intfs g m)"
proof -
  have r: "fst (remote_intf p) < n_links g" using assms(2) by simp
  show ?thesis
    by (rule graph_wf_att [OF assms(1) r]) (use assms(3,4) in \<open>auto simp: get_nbr_node_remote\<close>)
qed

section \<open>Looking nodes up by name\<close>

lemma find_rev_upt:
  "List.find P (rev [0..<k]) = Some n \<longleftrightarrow> n < k \<and> P n \<and> (\<forall>m. n < m \<and> m < k \<longrightarrow> \<not> P m)"
  by (induction k) (auto simp: less_Suc_eq)

lemma strncmp_eq_self [simp]: "strncmp_eq s s"
  by (simp add: strncmp_eq_def)


section \<open>Properties\<close>

text \<open>A graph for examples: two nodes and a link.\<close>

definition example_graph :: graph where
  "example_graph = (case create_graph_node (create_new_graph ''g'') ''R0'' (Some 3) of
     Inr (a, g1) \<Rightarrow> (case create_graph_node g1 ''R1'' (Some 4) of
       Inr (b, g2) \<Rightarrow> insert_link_between_two_nodes g2 a b ''eth0'' ''eth1'' 1
     | Inl _ \<Rightarrow> g1) | Inl _ \<Rightarrow> create_new_graph ''g'')"

lemma example_nodes:
  obtains g1 g2 where "create_graph_node (create_new_graph ''g'') ''R0'' (Some 3) = Inr (0, g1)"
    "create_graph_node g1 ''R1'' (Some 4) = Inr (1, g2)" "n_nodes g1 = 1" "n_nodes g2 = 2"
    "graph_wf g1" "graph_wf g2" "n_links g2 = 0"
    "example_graph = insert_link_between_two_nodes g2 0 1 ''eth0'' ''eth1'' 1"
proof -
  have n0: "n_nodes (create_new_graph ''g'') = 0" "n_links (create_new_graph ''g'') = 0"
    by (simp_all add: create_new_graph_def)
  obtain a g1 where g1: "create_graph_node (create_new_graph ''g'') ''R0'' (Some 3) = Inr (a, g1)"
    by (simp add: create_graph_node_def strcpy_to_def NODE_NAME_SIZE_def Let_def)
  note r1 = create_graph_node_result [OF g1]
  obtain b g2 where g2: "create_graph_node g1 ''R1'' (Some 4) = Inr (b, g2)"
    by (simp add: create_graph_node_def strcpy_to_def NODE_NAME_SIZE_def Let_def)
  note r2 = create_graph_node_result [OF g2]
  have w1: "graph_wf g1"
    by (rule graph_wf_create [OF graph_wf_new g1]) (simp add: nul_free_def byte_of_char_def)
  moreover have "graph_wf g2"
    by (rule graph_wf_create [OF w1 g2]) (simp add: nul_free_def byte_of_char_def)
  moreover have "example_graph = insert_link_between_two_nodes g2 a b ''eth0'' ''eth1'' 1"
    by (simp add: example_graph_def g1 g2)
  ultimately show thesis
    using that g1 g2 r1(1-3) r2(1-3) n0 by simp
qed

lemma graph_wf_example: "graph_wf example_graph" "n_nodes example_graph = 2" "n_links example_graph = 1"
  "att_node (iface example_graph (0, Intf1)) = Some 0" "att_node (iface example_graph (0, Intf2)) = Some 1"
proof -
  obtain g1 g2 where g: "create_graph_node (create_new_graph ''g'') ''R0'' (Some 3) = Inr (0, g1)"
    "create_graph_node g1 ''R1'' (Some 4) = Inr (1, g2)"
    "graph_wf g2" "n_links g2 = 0" "n_nodes g2 = 2"
    "example_graph = insert_link_between_two_nodes g2 0 1 ''eth0'' ''eth1'' 1"
    by (rule example_nodes)
  note r = create_graph_node_result [OF g(2)] and r1 = create_graph_node_result [OF g(1)]
  have s0: "intf (nodes g2 0) = slots []" using r(6) [of 0] r1(8) by simp
  note res = insert_link_result [OF s0 _ r(8), where a = "''eth0''" and b = "''eth1''" and c = 1]
  show "graph_wf example_graph"
    unfolding g(6) by (rule graph_wf_insert [OF g(3)]) (simp_all add: g(5) nul_free_def byte_of_char_def)
  show "n_nodes example_graph = 2" "n_links example_graph = 1"
    "att_node (iface example_graph (0, Intf1)) = Some 0" "att_node (iface example_graph (0, Intf2)) = Some 1"
    unfolding g(6) by (simp_all add: res g(4,5) del: One_nat_def)
qed

lemma node_intfs_example:
  "node_intfs example_graph 0 = [(0, Intf1)]" "node_intfs example_graph 1 = [(0, Intf2)]"
  "if_name (iface example_graph (0, Intf1)) = ''eth0''" "if_name (iface example_graph (0, Intf2)) = ''eth1''"
  "\<exists>g. iface example_graph (0, Intf1) = fresh_intf g 0 ''eth0''"
proof -
  obtain g1 g2 where g: "create_graph_node (create_new_graph ''g'') ''R0'' (Some 3) = Inr (0, g1)"
    "create_graph_node g1 ''R1'' (Some 4) = Inr (1, g2)"
    "graph_wf g2" "n_links g2 = 0" "n_nodes g2 = 2"
    "example_graph = insert_link_between_two_nodes g2 0 1 ''eth0'' ''eth1'' 1"
    by (rule example_nodes)
  note r = create_graph_node_result [OF g(2)] and r1 = create_graph_node_result [OF g(1)]
  have s0: "intf (nodes g2 0) = slots []" using r(6) [of 0] r1(8) by simp
  note res = insert_link_result [OF s0 _ r(8), where a = "''eth0''" and b = "''eth1''" and c = 1]
  show "node_intfs example_graph 0 = [(0, Intf1)]" "node_intfs example_graph 1 = [(0, Intf2)]"
    "if_name (iface example_graph (0, Intf1)) = ''eth0''" "if_name (iface example_graph (0, Intf2)) = ''eth1''"
    unfolding g(6)
    by (simp_all add: res g(4,5) node_intfs_def strncpy_term_def IF_NAME_SIZE_def del: One_nat_def)
  show "\<exists>g. iface example_graph (0, Intf1) = fresh_intf g 0 ''eth0''"
    unfolding g(6) by (auto simp: res g(4) simp del: One_nat_def)
qed

lemma example_tables:
  "k < 2 \<Longrightarrow> node_route_table (nodes example_graph k) = []"
  "k < 2 \<Longrightarrow> node_arp_table (nodes example_graph k) = init_arp_table"
  "k < 2 \<Longrightarrow> node_debug (nodes example_graph k) = DEBUG_OFF"
  "k < 2 \<Longrightarrow> lb_addr (nodes example_graph k) = []"
  "node_name (nodes example_graph 0) = ''R0''" "node_name (nodes example_graph 1) = ''R1''"
  "udp_sock_fd (nodes example_graph 0) = 3" "udp_sock_fd (nodes example_graph 1) = 4"
proof -
  obtain g1 g2 where g: "create_graph_node (create_new_graph ''g'') ''R0'' (Some 3) = Inr (0, g1)"
    "create_graph_node g1 ''R1'' (Some 4) = Inr (1, g2)"
    "graph_wf g2" "n_links g2 = 0" "n_nodes g2 = 2"
    "example_graph = insert_link_between_two_nodes g2 0 1 ''eth0'' ''eth1'' 1"
    by (rule example_nodes)
  note r = create_graph_node_result [OF g(2)] and r1 = create_graph_node_result [OF g(1)]
  have s0: "intf (nodes g2 0) = slots []" using r(6) [of 0] r1(8) by simp
  note res = insert_link_result(6) [OF s0 _ r(8), where a = "''eth0''" and b = "''eth1''" and c = 1]
  have z: "nodes g2 0 = nodes g1 0" using r(6) [of 0] by simp
  have "node_route_table (nodes g2 k) = [] \<and> node_arp_table (nodes g2 k) = init_arp_table \<and>
      node_debug (nodes g2 k) = DEBUG_OFF \<and> lb_addr (nodes g2 k) = []" if "k < 2" for k
    using that r(12-16) r1(12-16) z by (auto simp: less_Suc_eq numeral_2_eq_2)
  then show "k < 2 \<Longrightarrow> node_route_table (nodes example_graph k) = []"
    "k < 2 \<Longrightarrow> node_arp_table (nodes example_graph k) = init_arp_table"
    "k < 2 \<Longrightarrow> node_debug (nodes example_graph k) = DEBUG_OFF"
    "k < 2 \<Longrightarrow> lb_addr (nodes example_graph k) = []"
    unfolding g(6) by (simp_all add: res del: One_nat_def)
  show "node_name (nodes example_graph 0) = ''R0''" "node_name (nodes example_graph 1) = ''R1''"
    unfolding g(6) using z r(7) r1(7) by (simp_all add: res del: One_nat_def)
  show "udp_sock_fd (nodes example_graph 0) = 3" "udp_sock_fd (nodes example_graph 1) = 4"
    unfolding g(6) using z r(17) r1(17) by (simp_all add: res del: One_nat_def)
qed

text \<open>Inserting a link between two different nodes keeps the graph well formed; when both
  nodes have one of their nine usable slots free the two new ends are neighbours, have
  generated MAC addresses and are found by name if the names are new on their nodes;
  otherwise the graph is unchanged.\<close>

theorem insert_link_connects:
  assumes wf: "graph_wf g" and n: "n1 < n_nodes g" "n2 < n_nodes g" "n1 \<noteq> n2"
    and nm: "fits IF_NAME_SIZE a" "fits IF_NAME_SIZE b"
  shows "let g' = insert_link_between_two_nodes g n1 n2 a b c; p = (n_links g, Intf1) in
    graph_wf g' \<and>
    (if length (node_intfs g n1) < 9 \<and> length (node_intfs g n2) < 9 then
       get_nbr_node g' p = Some n2 \<and> get_nbr_node g' (remote_intf p) = Some n1 \<and>
       if_mac (iface g' p) = gen_mac (node_name (nodes g n1)) a \<and>
       node_intfs g' n1 = node_intfs g n1 @ [p] \<and> node_intfs g' n2 = node_intfs g n2 @ [remote_intf p] \<and>
       (get_node_if_by_name g n1 a = None \<longrightarrow> get_node_if_by_name g' n1 a = Some p)
     else g' = g)"
proof -
  let ?g = "insert_link_between_two_nodes g n1 n2 a b c" and ?p = "(n_links g, Intf1)"
  note w1 = graph_wf_node [OF wf n(1)] and w2 = graph_wf_node [OF wf n(2)]
  have wf': "graph_wf ?g"
    by (rule graph_wf_insert [OF wf n]) (use nm in \<open>simp_all add: fits_def\<close>)
  show ?thesis
  proof (cases "length (node_intfs g n1) < 9 \<and> length (node_intfs g n2) < 9")
    case True
    note r = insert_link_result [OF node_wf_slots [OF w1] _ node_wf_slots [OF w2] _ n(3), where a = a and b = b and c = c]
    note s = insert_link_node_intfs [OF w1 w2 n(3), where a = a and b = b and c = c]
    have t: "strncpy_term IF_NAME_SIZE a = a" using nm by (simp add: strncpy_term_def fits_def IF_NAME_SIZE_def)
    have w1': "node_wf ?g n1" by (rule graph_wf_node [OF wf']) (use r(2) True n in simp)
    have old: "iface ?g q = iface g q" if "q \<in> set (node_intfs g n1)" for q
      using node_wf_props(3) [OF w1 that] r(5) [of q] True by auto
    have byname: "get_node_if_by_name ?g n1 a = Some ?p" if none: "get_node_if_by_name g n1 a = None"
    proof -
      have "\<forall>q \<in> set (node_intfs g n1). if_name (iface g q) \<noteq> a"
        using none by (auto simp: get_node_if_by_name_find [OF w1] find_None_iff)
      then have f: "List.find (\<lambda>q. if_name (iface ?g q) = a) (node_intfs g n1) = None"
        using old by (auto simp: find_None_iff)
      have "List.find P (xs @ ys) = (case List.find P xs of None \<Rightarrow> List.find P ys | Some y \<Rightarrow> Some y)"
        for P and xs ys :: "ifptr list"
        by (induction xs) auto
      then show ?thesis
        using f r(5) [of ?p] True by (simp add: get_node_if_by_name_find [OF w1'] s t)
    qed
    show ?thesis
      using wf' True byname r(5) s n(3) t
      by (simp add: get_nbr_node_remote remote_intf_def fresh_intf_def)
  next
    case False
    then have "length (node_intfs g n1) = 9 \<or> length (node_intfs g n2) = 9"
      using node_wf_props(1) [OF w1] node_wf_props(1) [OF w2] by linarith
    then show ?thesis using wf insert_link_full [OF w1 w2] False by simp
  qed
qed

lemma insert_link_connects_witness:
  "graph_wf (insert_link_between_two_nodes example_graph 1 0 ''eth2'' ''eth3'' 1)"
  using insert_link_connects [OF graph_wf_example(1), of 1 0 "''eth2''" "''eth3''" 1]
  by (simp add: Let_def graph_wf_example fits_def IF_NAME_SIZE_def nul_free_def byte_of_char_def)

text \<open>A name finds the newest node of which it is a prefix, whatever follows the prefix; so
  the exact name of a node may find another one, unless no newer name extends it.\<close>

theorem node_by_name_is_newest_prefix:
  assumes "graph_wf g"
  shows "(get_node_by_node_name g name = Some n \<longleftrightarrow>
      n < n_nodes g \<and> strncmp_eq (node_name (nodes g n)) name \<and>
      (\<forall>m. n < m \<and> m < n_nodes g \<longrightarrow> \<not> strncmp_eq (node_name (nodes g m)) name)) \<and>
    (n < n_nodes g \<longrightarrow>
      (get_node_by_node_name g (node_name (nodes g n)) = Some n \<longleftrightarrow>
       (\<forall>m. n < m \<and> m < n_nodes g \<longrightarrow> \<not> strncmp_eq (node_name (nodes g m)) (node_name (nodes g n)))))"
  using assms by (auto simp: graph_wf_def get_node_by_node_name_def find_rev_upt)

lemma node_by_name_is_newest_prefix_witness:
  "get_node_by_node_name example_graph ''R'' = Some 1"
proof -
  obtain g1 g2 where g: "create_graph_node (create_new_graph ''g'') ''R0'' (Some 3) = Inr (0, g1)"
    "create_graph_node g1 ''R1'' (Some 4) = Inr (1, g2)"
    "graph_wf g2" "n_nodes g2 = 2" "n_links g2 = 0"
    "example_graph = insert_link_between_two_nodes g2 0 1 ''eth0'' ''eth1'' 1"
    by (rule example_nodes)
  note r = create_graph_node_result [OF g(2)] and r1 = create_graph_node_result [OF g(1)]
  have s0: "intf (nodes g2 0) = slots []" using r(6) [of 0] r1(8) by simp
  have "node_name (nodes example_graph 1) = ''R1''"
    unfolding g(6) using insert_link_result(6) [OF s0 _ r(8), where m = 1] r(7) by simp
  then show ?thesis
    using node_by_name_is_newest_prefix [OF graph_wf_example(1), of "''R''" 1]
    by (auto simp: graph_wf_example(2) strncmp_eq_def)
qed

end
