(* ===== verification/Net.thy ===== *)
theory Net
  imports Graph
begin

text \<open>
  Configuration of nodes and interfaces: \<^verbatim>\<open>src/net.c\<close>. The functions on one interface come
  first, then those that find it by name on a node.
\<close>

section \<open>Addresses\<close>

definition node_set_loopback_address :: "graph \<Rightarrow> nid \<Rightarrow> string \<Rightarrow> graph res" where
  "node_set_loopback_address g n ip_addr =
     rbind (strcpy_to 16 ip_addr) (\<lambda>ip.
     rbind (rt_table_add_direct_route (node_route_table (nodes g n)) ip_addr 32) (\<lambda>rt.
     Inr (upd_node g n (\<lambda>nd. nd\<lparr>is_lb_addr_config := True, lb_addr := ip,
                                  node_route_table := rt\<rparr>))))"

text \<open>What the two functions below write into the interface.\<close>

definition intf_set_ip :: "string \<Rightarrow> u8 \<Rightarrow> interface \<Rightarrow> interface" where
  "intf_set_ip ip msk i =
     i\<lparr>is_ipadd_config := True, if_mask := msk, l2_mode := L2_MODE_UNKNOWN, ip_add := ip\<rparr>"

definition intf_unset_ip :: "interface \<Rightarrow> interface" where
  "intf_unset_ip i = i\<lparr>is_ipadd_config := False, ip_add := [], if_mask := 0\<rparr>"

definition node_set_intf_ip_address ::
  "graph \<Rightarrow> nid \<Rightarrow> string \<Rightarrow> string \<Rightarrow> u8 \<Rightarrow> (bool \<times> graph) res" where
  "node_set_intf_ip_address g n local_if ip_addr msk =
     (case get_node_if_by_name g n local_if of
        None \<Rightarrow> Inr (False, g)
      | Some p \<Rightarrow>
          rbind (strcpy_to 16 ip_addr) (\<lambda>ip.
          let g1 = upd_iface g p (intf_set_ip ip msk) in
          rbind (apply_mask ip_addr msk) (\<lambda>dest.
          rbind (rt_table_add_direct_route (node_route_table (nodes g1 n)) dest msk) (\<lambda>rt.
          Inr (True, upd_node g1 n (\<lambda>nd. nd\<lparr>node_route_table := rt\<rparr>))))))"

definition node_unset_intf_ip_address :: "graph \<Rightarrow> nid \<Rightarrow> string \<Rightarrow> bool \<times> graph" where
  "node_unset_intf_ip_address g n local_if =
     (case get_node_if_by_name g n local_if of
        None \<Rightarrow> (False, g)
      | Some p \<Rightarrow> (True, upd_iface g p intf_unset_ip))"

text \<open>The scan for the first configured interface whose network holds the address.\<close>

fun subnet_loop :: "graph \<Rightarrow> string \<Rightarrow> ifptr option list \<Rightarrow> ifptr option res" where
  "subnet_loop g ip_addr [] = Inr None"
| "subnet_loop g ip_addr (None # ss) = Inr None"
| "subnet_loop g ip_addr (Some p # ss) =
     (if \<not> is_ipadd_config (iface g p) then subnet_loop g ip_addr ss
      else
        rbind (apply_mask ip_addr (if_mask (iface g p))) (\<lambda>ip_subnet.
        rbind (apply_mask (ip_add (iface g p)) (if_mask (iface g p))) (\<lambda>if_subnet.
        if if_subnet = ip_subnet then Inr (Some p) else subnet_loop g ip_addr ss)))"

definition node_get_matching_subnet_interface :: "graph \<Rightarrow> nid \<Rightarrow> string \<Rightarrow> ifptr option res" where
  "node_get_matching_subnet_interface g n ip_addr =
     subnet_loop g ip_addr (take (MAX_INTF_PER_NODE - 1) (intf (nodes g n)))"


section \<open>L2 mode and VLANs of one interface\<close>

definition set_l2_mode :: "intf_l2_mode \<Rightarrow> interface \<Rightarrow> interface" where
  "set_l2_mode m i =
     (if l2_mode i = m then i
      else if IS_INTF_L3_MODE i then i
      else
        (if l2_mode i = TRUNK \<and> m = ACCESS
         then i\<lparr>vlans := take 1 (vlans i) @ replicate (MAX_VLAN_MEMBERSHIP - 1) 0\<rparr> else i)
        \<lparr>l2_mode := m\<rparr>)"

text \<open>The scan of \<^verbatim>\<open>add_vlan_to_trunk_membership\<close>: \<open>None\<close> when the VLAN is found, otherwise the
  first empty slot, if there is one.\<close>

fun add_vlan_loop :: "u16 \<Rightarrow> u16 list \<Rightarrow> nat \<Rightarrow> nat option \<Rightarrow> nat option option" where
  "add_vlan_loop vlan_id [] slot empty_slot = Some empty_slot"
| "add_vlan_loop vlan_id (v # vs) slot empty_slot =
     (if vlan_id = v then None
      else add_vlan_loop vlan_id vs (Suc slot)
             (if v = 0 \<and> empty_slot = None then Some slot else empty_slot))"

definition add_vlan_to_trunk_membership :: "u16 \<Rightarrow> interface \<Rightarrow> interface" where
  "add_vlan_to_trunk_membership vlan_id i =
     (case add_vlan_loop vlan_id (vlans i) 0 None of
        None \<Rightarrow> i
      | Some None \<Rightarrow> i
      | Some (Some empty_slot) \<Rightarrow> i\<lparr>vlans := (vlans i)[empty_slot := vlan_id]\<rparr>)"

definition interface_set_vlan :: "u16 \<Rightarrow> interface \<Rightarrow> interface" where
  "interface_set_vlan vlan_id i =
     (if IS_INTF_L3_MODE i then i
      else case l2_mode i of
        L2_MODE_UNKNOWN \<Rightarrow> i
      | ACCESS \<Rightarrow> i\<lparr>vlans := (vlans i)[0 := vlan_id]\<rparr>
      | TRUNK \<Rightarrow> add_vlan_to_trunk_membership vlan_id i)"

fun clear_first :: "u16 \<Rightarrow> u16 list \<Rightarrow> u16 list" where
  "clear_first vlan_id [] = []"
| "clear_first vlan_id (v # vs) = (if v = vlan_id then 0 # vs else v # clear_first vlan_id vs)"

definition remove_vlan :: "u16 \<Rightarrow> interface \<Rightarrow> interface" where
  "remove_vlan vlan_id i =
     (if l2_mode i = L2_MODE_UNKNOWN then i else i\<lparr>vlans := clear_first vlan_id (vlans i)\<rparr>)"

definition get_access_intf_operating_vlan_id :: "interface \<Rightarrow> u16" where
  "get_access_intf_operating_vlan_id i = (if l2_mode i \<noteq> ACCESS then 0 else vlans i ! 0)"

definition is_trunk_interface_vlan_member :: "interface \<Rightarrow> u16 \<Rightarrow> bool" where
  "is_trunk_interface_vlan_member i vlan_id \<longleftrightarrow>
     l2_mode i = TRUNK \<and> vlan_id \<in> set (vlans i)"


section \<open>The same by name on a node\<close>

definition on_named_intf :: "graph \<Rightarrow> nid \<Rightarrow> string \<Rightarrow> (interface \<Rightarrow> interface) \<Rightarrow> graph" where
  "on_named_intf g n name f =
     (case get_node_if_by_name g n name of None \<Rightarrow> g | Some p \<Rightarrow> upd_iface g p f)"

definition node_set_intf_l2_mode :: "graph \<Rightarrow> nid \<Rightarrow> string \<Rightarrow> intf_l2_mode \<Rightarrow> graph" where
  "node_set_intf_l2_mode g n name m = on_named_intf g n name (set_l2_mode m)"

definition node_set_intf_vlan_membership :: "graph \<Rightarrow> nid \<Rightarrow> string \<Rightarrow> u16 \<Rightarrow> graph" where
  "node_set_intf_vlan_membership g n name vlan_id = on_named_intf g n name (interface_set_vlan vlan_id)"

definition node_remove_vlan_membership :: "graph \<Rightarrow> nid \<Rightarrow> string \<Rightarrow> u16 \<Rightarrow> graph" where
  "node_remove_vlan_membership g n name vlan_id = on_named_intf g n name (remove_vlan vlan_id)"


section \<open>VLAN membership as a set\<close>

text \<open>
  The abstract view of the ten slots: the set of the non-zero VLANs in them. The slots are
  sound when no VLAN is in two of them; an access interface uses the first slot only.
\<close>

definition members :: "interface \<Rightarrow> u16 set" where
  "members i = set (vlans i) - {0}"

definition vlans_ok :: "interface \<Rightarrow> bool" where
  "vlans_ok i \<longleftrightarrow> length (vlans i) = MAX_VLAN_MEMBERSHIP \<and> distinct (filter (\<lambda>v. v \<noteq> 0) (vlans i)) \<and>
     (l2_mode i = ACCESS \<longrightarrow> (\<forall>v \<in> set (tl (vlans i)). v = 0))"

lemma card_members: "vlans_ok i \<Longrightarrow> card (members i) = length (filter (\<lambda>v. v \<noteq> 0) (vlans i))"
proof -
  assume a: "vlans_ok i"
  have "members i = set (filter (\<lambda>v. v \<noteq> 0) (vlans i))" by (auto simp: members_def)
  moreover have "distinct (filter (\<lambda>v. v \<noteq> 0) (vlans i))" using a by (simp add: vlans_ok_def)
  ultimately show ?thesis by (simp only: distinct_card)
qed

lemma members_full:
  assumes "vlans_ok i"
  shows "card (members i) \<le> MAX_VLAN_MEMBERSHIP"
    "card (members i) = MAX_VLAN_MEMBERSHIP \<longleftrightarrow> 0 \<notin> set (vlans i)"
proof -
  have l: "length (vlans i) = MAX_VLAN_MEMBERSHIP" using assms by (simp add: vlans_ok_def)
  then show "card (members i) \<le> MAX_VLAN_MEMBERSHIP"
    using card_members [OF assms] length_filter_le [of "\<lambda>v. v \<noteq> 0" "vlans i"] by simp
  have "length (filter (\<lambda>v. v \<noteq> 0) xs) = length xs \<longleftrightarrow> 0 \<notin> set xs" for xs :: "u16 list"
    using length_filter_less [of 0 xs "\<lambda>v. v \<noteq> 0"]
    by (metis (mono_tags, lifting) filter_True nat_neq_iff)
  then show "card (members i) = MAX_VLAN_MEMBERSHIP \<longleftrightarrow> 0 \<notin> set (vlans i)"
    unfolding card_members [OF assms] l [symmetric] .
qed

text \<open>The scan, and what a write to an empty slot does to the set.\<close>

lemma add_vlan_loop_result:
  "add_vlan_loop v vs k e =
     (if v \<in> set vs then None
      else Some (case e of Some s \<Rightarrow> Some s
                 | None \<Rightarrow> if 0 \<in> set vs then Some (k + length (takeWhile (\<lambda>x. x \<noteq> 0) vs)) else None))"
  by (induction vs arbitrary: k e) (auto split: option.splits)

lemma split_first_zero:
  assumes "(0 :: u16) \<in> set vs"
  obtains as bs where "vs = as @ 0 # bs" "0 \<notin> set as" "takeWhile (\<lambda>x. x \<noteq> 0) vs = as"
proof -
  obtain as bs where s: "vs = as @ 0 # bs" "0 \<notin> set as"
    using split_list_first [OF assms] by blast
  then have "takeWhile (\<lambda>x. x \<noteq> 0) vs = as" by (auto simp: takeWhile_append2 takeWhile_tail)
  with s show thesis by (rule that)
qed

lemma trunk_add_result:
  assumes "v \<noteq> 0"
  shows "add_vlan_to_trunk_membership v i =
    (if v \<in> members i \<or> 0 \<notin> set (vlans i) then i
     else i\<lparr>vlans := (vlans i)[length (takeWhile (\<lambda>x. x \<noteq> 0) (vlans i)) := v]\<rparr>)"
  using assms
  by (auto simp: add_vlan_to_trunk_membership_def add_vlan_loop_result members_def split: option.splits)

lemma trunk_add_members:
  assumes ok: "vlans_ok i" and v: "v \<noteq> 0"
  shows "members (add_vlan_to_trunk_membership v i) =
      (if card (members i) = MAX_VLAN_MEMBERSHIP then members i else insert v (members i))"
    and "l2_mode i = TRUNK \<Longrightarrow> vlans_ok (add_vlan_to_trunk_membership v i)"
proof -
  have "members (add_vlan_to_trunk_membership v i) =
      (if card (members i) = MAX_VLAN_MEMBERSHIP then members i else insert v (members i)) \<and>
      (l2_mode i = TRUNK \<longrightarrow> vlans_ok (add_vlan_to_trunk_membership v i))"
  proof (cases "v \<in> members i \<or> 0 \<notin> set (vlans i)")
    case True
    then show ?thesis using members_full(2) [OF ok] ok v by (auto simp: trunk_add_result)
  next
    case False
    then obtain as bs where s: "vlans i = as @ 0 # bs" "0 \<notin> set as"
      "takeWhile (\<lambda>x. x \<noteq> 0) (vlans i) = as"
      using split_first_zero by metis
    have e: "add_vlan_to_trunk_membership v i = i\<lparr>vlans := as @ v # bs\<rparr>"
      using False v unfolding trunk_add_result [OF v] s(3) by (simp add: s(1) list_update_append)
    have "v \<notin> set as" "v \<notin> set bs" using False v by (auto simp: s(1) members_def)
    then show ?thesis
      using members_full(2) [OF ok] ok v s(2) unfolding e
      by (auto simp: members_def s(1) vlans_ok_def)
  qed
  then show "members (add_vlan_to_trunk_membership v i) =
      (if card (members i) = MAX_VLAN_MEMBERSHIP then members i else insert v (members i))"
    "l2_mode i = TRUNK \<Longrightarrow> vlans_ok (add_vlan_to_trunk_membership v i)" by simp_all
qed

lemma filter_clear_first:
  assumes "v \<noteq> 0"
  shows "filter (\<lambda>x. x \<noteq> 0) (clear_first v vs) = remove1 v (filter (\<lambda>x. x \<noteq> 0) vs)"
  using assms by (induction vs) auto

lemma set_clear_first:
  assumes "distinct (filter (\<lambda>v. v \<noteq> 0) vs)" and "v \<noteq> 0"
  shows "set (clear_first v vs) - {0} = set vs - {0} - {v}"
    "distinct (filter (\<lambda>x. x \<noteq> 0) (clear_first v vs))"
proof -
  have nz: "set xs - {0} = set (filter (\<lambda>x. x \<noteq> 0) xs)" for xs :: "u16 list" by auto
  show "set (clear_first v vs) - {0} = set vs - {0} - {v}"
    unfolding nz filter_clear_first [OF assms(2)] by (rule set_remove1_eq [OF assms(1)])
  show "distinct (filter (\<lambda>x. x \<noteq> 0) (clear_first v vs))"
    unfolding filter_clear_first [OF assms(2)] using assms(1) by simp
qed

lemma length_clear_first [simp]: "length (clear_first v vs) = length vs"
  by (induction vs) auto

lemma clear_first_zero [simp]: "clear_first 0 vs = vs"
  by (induction vs) auto

lemma clear_first_zeros: "\<forall>x \<in> set vs. x = 0 \<Longrightarrow> clear_first v vs = vs"
  by (induction vs) auto

lemma tl_clear_first: "\<forall>x \<in> set (tl vs). x = 0 \<Longrightarrow> tl (clear_first v vs) = tl vs"
  by (cases vs) (auto simp: clear_first_zeros)

lemma remove_members:
  assumes "vlans_ok i"
  shows "members (remove_vlan v i) = (if l2_mode i = L2_MODE_UNKNOWN then members i else members i - {v})"
    "vlans_ok (remove_vlan v i)"
proof -
  have d: "distinct (filter (\<lambda>v. v \<noteq> 0) (vlans i))" using assms by (simp add: vlans_ok_def)
  show "members (remove_vlan v i) = (if l2_mode i = L2_MODE_UNKNOWN then members i else members i - {v})"
    using set_clear_first(1) [OF d] by (cases "v = 0") (auto simp: remove_vlan_def members_def)
  show "vlans_ok (remove_vlan v i)"
    using set_clear_first(2) [OF d] assms tl_clear_first [of "vlans i" v]
    by (cases "v = 0") (auto simp: remove_vlan_def vlans_ok_def)
qed

lemma set_mode_members:
  assumes "vlans_ok i" and "l2_mode i \<noteq> L2_MODE_UNKNOWN" and "m \<noteq> L2_MODE_UNKNOWN"
  shows "vlans_ok (set_l2_mode m i)"
    "m = TRUNK \<Longrightarrow> members (set_l2_mode m i) = members i"
    "members (set_l2_mode m i) \<subseteq> members i"
proof -
  obtain v vs where v: "vlans i = v # vs" "length vs = 9"
    using assms(1) by (cases "vlans i") (auto simp: vlans_ok_def MAX_VLAN_MEMBERSHIP_def)
  show "vlans_ok (set_l2_mode m i)" "m = TRUNK \<Longrightarrow> members (set_l2_mode m i) = members i"
    "members (set_l2_mode m i) \<subseteq> members i"
    using assms v by (cases m; cases "l2_mode i";
        auto simp: set_l2_mode_def vlans_ok_def members_def MAX_VLAN_MEMBERSHIP_def)+
qed

lemma set_vlan_ok:
  assumes "vlans_ok i"
  shows "vlans_ok (interface_set_vlan v i)"
proof (cases "l2_mode i")
  case ACCESS
  obtain w ws where w: "vlans i = w # ws" "\<forall>x \<in> set ws. x = 0"
    using assms ACCESS by (cases "vlans i") (auto simp: vlans_ok_def MAX_VLAN_MEMBERSHIP_def)
  have "filter (\<lambda>x. x \<noteq> 0) ws = []" using w(2) by (auto simp: filter_empty_conv)
  then show ?thesis
    using assms ACCESS w by (auto simp: interface_set_vlan_def vlans_ok_def)
next
  case TRUNK
  show ?thesis
  proof (cases "v = 0")
    case True
    have "add_vlan_to_trunk_membership 0 i = i"
      by (auto simp: add_vlan_to_trunk_membership_def add_vlan_loop_result)
    then show ?thesis using assms TRUNK True by (simp add: interface_set_vlan_def)
  next
    case False
    then show ?thesis
      using trunk_add_members(2) [OF assms False TRUNK] assms TRUNK by (simp add: interface_set_vlan_def)
  qed
qed (simp add: interface_set_vlan_def assms)



section \<open>Configured graphs\<close>

text \<open>
  What configuration guarantees to the forwarding code: an interface with an address is in
  no L2 mode, its mask is a prefix length and its address a proper one; the tables of a
  node satisfy their invariants.
\<close>

definition intf_cfg_ok :: "interface \<Rightarrow> bool" where
  "intf_cfg_ok i \<longleftrightarrow> (is_ipadd_config i \<longrightarrow>
     l2_mode i = L2_MODE_UNKNOWN \<and> valid_mask (if_mask i) \<and> canonical_ip (ip_add i))"

definition node_cfg_ok :: "node \<Rightarrow> bool" where
  "node_cfg_ok nd \<longleftrightarrow> rt_ok (node_route_table nd) \<and> arp_table_ok (node_arp_table nd) \<and>
     mac_table_ok (node_mac_table nd)"

definition config_ok :: "graph \<Rightarrow> bool" where
  "config_ok g \<longleftrightarrow> graph_wf g \<and> (\<forall>p. fst p < n_links g \<longrightarrow> intf_cfg_ok (iface g p)) \<and>
     (\<forall>n < n_nodes g. node_cfg_ok (nodes g n))"

lemma config_ok_intf: "config_ok g \<Longrightarrow> fst p < n_links g \<Longrightarrow> intf_cfg_ok (iface g p)"
  by (simp add: config_ok_def)

lemma config_ok_node: "config_ok g \<Longrightarrow> n < n_nodes g \<Longrightarrow> node_cfg_ok (nodes g n)"
  by (simp add: config_ok_def)

lemma config_ok_wf: "config_ok g \<Longrightarrow> graph_wf g"
  by (simp add: config_ok_def)

lemma node_intfs_links: "graph_wf g \<Longrightarrow> n < n_nodes g \<Longrightarrow> p \<in> set (node_intfs g n) \<Longrightarrow> fst p < n_links g"
  using node_wf_props(3) graph_wf_node by blast

text \<open>Updates that keep what well-formedness is about.\<close>

lemma graph_wf_upd_iface [wf_intros]:
  assumes "graph_wf g"
    and "\<And>i. if_name (f i) = if_name i" "\<And>i. att_node (f i) = att_node i"
    and "\<And>i. length (if_mac i) = 6 \<Longrightarrow> length (if_mac (f i)) = 6"
    and "\<And>i. length (vlans i) = MAX_VLAN_MEMBERSHIP \<Longrightarrow> length (vlans (f i)) = MAX_VLAN_MEMBERSHIP"
  shows "graph_wf (upd_iface g p f)"
proof -
  have e: "att_node (iface (upd_iface g p f) q) = att_node (iface g q)"
    "if_name (iface (upd_iface g p f) q) = if_name (iface g q)" for q
    by (simp_all add: assms(2,3))
  have "node_wf (upd_iface g p f) n \<longleftrightarrow> node_wf g n" for n
    unfolding node_wf_def e by simp
  moreover have "iface_wf g q \<Longrightarrow> iface_wf (upd_iface g p f) q" for q
    unfolding iface_wf_def e using assms(4,5) by auto
  ultimately show ?thesis using assms(1) by (simp add: graph_wf_def)
qed

lemma graph_wf_upd_node [wf_intros]:
  assumes "graph_wf g" and "\<And>nd. node_name (f nd) = node_name nd" "\<And>nd. intf (f nd) = intf nd"
  shows "graph_wf (upd_node g n f)"
proof -
  have e: "node_name (nodes (upd_node g n f) m) = node_name (nodes g m)"
    "intf (nodes (upd_node g n f) m) = intf (nodes g m)" for m
    by (simp_all add: assms(2,3))
  have "node_wf (upd_node g n f) m \<longleftrightarrow> node_wf g m" for m
    unfolding node_wf_def e by simp
  moreover have "iface_wf (upd_node g n f) q \<longleftrightarrow> iface_wf g q" for q
    unfolding iface_wf_def e by simp
  ultimately show ?thesis using assms(1) by (simp add: graph_wf_def)
qed

lemma config_ok_upd_iface:
  assumes "config_ok g" and "fst p < n_links g"
    and "\<And>i. if_name (f i) = if_name i" "\<And>i. att_node (f i) = att_node i"
    and "\<And>i. length (if_mac i) = 6 \<Longrightarrow> length (if_mac (f i)) = 6"
    and "\<And>i. length (vlans i) = MAX_VLAN_MEMBERSHIP \<Longrightarrow> length (vlans (f i)) = MAX_VLAN_MEMBERSHIP"
    and "intf_cfg_ok (iface g p) \<Longrightarrow> intf_cfg_ok (f (iface g p))"
  shows "config_ok (upd_iface g p f)"
  using assms graph_wf_upd_iface [of g f p] by (auto simp: config_ok_def)

lemma config_ok_upd_node:
  assumes "config_ok g"
    and "\<And>nd. node_name (f nd) = node_name nd" "\<And>nd. intf (f nd) = intf nd"
    and "node_cfg_ok (nodes g n) \<Longrightarrow> node_cfg_ok (f (nodes g n))"
  shows "config_ok (upd_node g n f)"
  using assms graph_wf_upd_node [of g f n] by (auto simp: config_ok_def)

lemma set_l2_mode_frame [simp]:
  "if_name (set_l2_mode m i) = if_name i" "att_node (set_l2_mode m i) = att_node i"
  "if_mac (set_l2_mode m i) = if_mac i" "is_ipadd_config (set_l2_mode m i) = is_ipadd_config i"
  "ip_add (set_l2_mode m i) = ip_add i" "if_mask (set_l2_mode m i) = if_mask i"
  "length (vlans i) = MAX_VLAN_MEMBERSHIP \<Longrightarrow> length (vlans (set_l2_mode m i)) = MAX_VLAN_MEMBERSHIP"
  by (simp_all add: set_l2_mode_def MAX_VLAN_MEMBERSHIP_def)

lemma set_vlan_frame [simp]:
  "if_name (interface_set_vlan v i) = if_name i" "att_node (interface_set_vlan v i) = att_node i"
  "if_mac (interface_set_vlan v i) = if_mac i"
  "is_ipadd_config (interface_set_vlan v i) = is_ipadd_config i"
  "ip_add (interface_set_vlan v i) = ip_add i" "if_mask (interface_set_vlan v i) = if_mask i"
  "l2_mode (interface_set_vlan v i) = l2_mode i"
  "length (vlans (interface_set_vlan v i)) = length (vlans i)"
  by (auto simp: interface_set_vlan_def add_vlan_to_trunk_membership_def
      split: intf_l2_mode.split option.split)

lemma remove_vlan_frame [simp]:
  "if_name (remove_vlan v i) = if_name i" "att_node (remove_vlan v i) = att_node i"
  "if_mac (remove_vlan v i) = if_mac i" "is_ipadd_config (remove_vlan v i) = is_ipadd_config i"
  "ip_add (remove_vlan v i) = ip_add i" "if_mask (remove_vlan v i) = if_mask i"
  "l2_mode (remove_vlan v i) = l2_mode i" "length (vlans (remove_vlan v i)) = length (vlans i)"
  by (auto simp: remove_vlan_def)

lemma get_if_links:
  assumes "config_ok g" and "n < n_nodes g" and "get_node_if_by_name g n nm = Some p"
  shows "fst p < n_links g"
  using assms get_node_if_by_name_Some graph_wf_node node_intfs_links config_ok_wf by metis

lemma config_ok_named:
  assumes "config_ok g" and "n < n_nodes g"
    and "\<And>i. if_name (f i) = if_name i" "\<And>i. att_node (f i) = att_node i"
    and "\<And>i. length (if_mac i) = 6 \<Longrightarrow> length (if_mac (f i)) = 6"
    and "\<And>i. length (vlans i) = MAX_VLAN_MEMBERSHIP \<Longrightarrow> length (vlans (f i)) = MAX_VLAN_MEMBERSHIP"
    and "\<And>i. intf_cfg_ok i \<Longrightarrow> intf_cfg_ok (f i)"
  shows "config_ok (on_named_intf g n nm f)"
  using assms get_if_links [OF assms(1,2)]
  by (auto simp: on_named_intf_def split: option.split intro!: config_ok_upd_iface)

lemma config_ok_set_l2_mode: "config_ok g \<Longrightarrow> n < n_nodes g \<Longrightarrow> config_ok (node_set_intf_l2_mode g n nm m)"
  unfolding node_set_intf_l2_mode_def
  by (rule config_ok_named) (auto simp: intf_cfg_ok_def set_l2_mode_def IS_INTF_L3_MODE_def)

lemma config_ok_set_vlan:
  "config_ok g \<Longrightarrow> n < n_nodes g \<Longrightarrow> config_ok (node_set_intf_vlan_membership g n nm v)"
  unfolding node_set_intf_vlan_membership_def
  by (rule config_ok_named) (auto simp: intf_cfg_ok_def)

lemma config_ok_remove_vlan:
  "config_ok g \<Longrightarrow> n < n_nodes g \<Longrightarrow> config_ok (node_remove_vlan_membership g n nm v)"
  unfolding node_remove_vlan_membership_def
  by (rule config_ok_named) (auto simp: intf_cfg_ok_def)

lemma config_ok_loopback:
  assumes "config_ok g" and "node_set_loopback_address g n ip = Inr g'"
  shows "config_ok g'"
proof -
  obtain rt where rt: "rt_table_add_direct_route (node_route_table (nodes g n)) ip 32 = Inr rt"
    and g': "g' = upd_node g n (\<lambda>nd. nd\<lparr>is_lb_addr_config := True, lb_addr := ip, node_route_table := rt\<rparr>)"
    using assms(2) by (auto simp: node_set_loopback_address_def rbind_eq_Inr dest!: strcpy_to_InrD)
  have "valid_mask 32" by (simp add: valid_mask_def)
  then show ?thesis
    unfolding g' using rt_ok_add_direct [OF rt] assms(1)
    by (intro config_ok_upd_node) (auto simp: node_cfg_ok_def)
qed

lemma config_ok_set_ip:
  assumes ok: "config_ok g" and n: "n < n_nodes g"
    and "node_set_intf_ip_address g n nm ip m = Inr (b, g')" and "valid_mask m" "canonical_ip ip"
  shows "config_ok g'"
proof (cases "get_node_if_by_name g n nm")
  case None
  then show ?thesis using assms by (simp add: node_set_intf_ip_address_def)
next
  case (Some p)
  let ?g1 = "upd_iface g p (intf_set_ip ip m)"
  obtain dest rt where rt: "rt_table_add_direct_route (node_route_table (nodes ?g1 n)) dest m = Inr rt"
    and g': "g' = upd_node ?g1 n (\<lambda>nd. nd\<lparr>node_route_table := rt\<rparr>)"
    using assms(3) Some
    by (auto simp: node_set_intf_ip_address_def rbind_eq_Inr Let_def dest!: strcpy_to_InrD)
  have "config_ok ?g1"
    using assms(4,5) get_if_links [OF ok n Some]
    by (intro config_ok_upd_iface [OF ok]) (auto simp: intf_cfg_ok_def intf_set_ip_def)
  then show ?thesis
    unfolding g' using rt_ok_add_direct [OF rt _ assms(4)]
    by (intro config_ok_upd_node) (auto simp: node_cfg_ok_def)
qed

lemma config_ok_unset_ip:
  "config_ok g \<Longrightarrow> n < n_nodes g \<Longrightarrow> config_ok (snd (node_unset_intf_ip_address g n nm))"
  using get_if_links [of g n nm]
  by (auto simp: node_unset_intf_ip_address_def intf_unset_ip_def intf_cfg_ok_def split: option.split
      intro!: config_ok_upd_iface)

lemma config_ok_new: "config_ok (create_new_graph nm)"
  using graph_wf_new [of nm] by (simp add: config_ok_def create_new_graph_def)

lemma config_ok_create:
  assumes "config_ok g" and c: "create_graph_node g nm sock = Inr (n, g')" and "nul_free nm"
  shows "config_ok g'"
proof -
  note r = create_graph_node_result [OF c]
  have i: "iface g' p = iface g p" for p by (rule links_eq_iface) (rule r(5))
  have "node_cfg_ok (nodes g' m)" if "m < n_nodes g'" for m
  proof (cases "m = n")
    case True
    then show ?thesis using r(12-14) by (simp add: node_cfg_ok_def rt_ok_def mac_table_ok_def)
  next
    case False
    then show ?thesis using config_ok_node [OF assms(1), of m] that r(1,2) r(6) [of m] by simp
  qed
  then show ?thesis
    using graph_wf_create [OF config_ok_wf [OF assms(1)] c assms(3)] assms(1)
    by (simp add: config_ok_def i r(3))
qed

lemma insert_link_iface_cases:
  assumes "graph_wf g" "n1 < n_nodes g" "n2 < n_nodes g" "n1 \<noteq> n2"
  shows "fst p < n_links (insert_link_between_two_nodes g n1 n2 a b c) \<Longrightarrow>
     fst p < n_links g \<and> iface (insert_link_between_two_nodes g n1 n2 a b c) p = iface g p \<or>
     (\<exists>n nm. iface (insert_link_between_two_nodes g n1 n2 a b c) p = fresh_intf g n nm)"
    and "nodes (insert_link_between_two_nodes g n1 n2 a b c) m =
      (nodes g m)\<lparr>intf := intf (nodes (insert_link_between_two_nodes g n1 n2 a b c) m)\<rparr>"
    and "n_nodes (insert_link_between_two_nodes g n1 n2 a b c) = n_nodes g"
proof -
  note w1 = graph_wf_node [OF assms(1,2)] and w2 = graph_wf_node [OF assms(1,3)]
  let ?g = "insert_link_between_two_nodes g n1 n2 a b c"
  have "(fst p < n_links ?g \<longrightarrow> fst p < n_links g \<and> iface ?g p = iface g p \<or>
      (\<exists>n nm. iface ?g p = fresh_intf g n nm)) \<and> nodes ?g m = (nodes g m)\<lparr>intf := intf (nodes ?g m)\<rparr> \<and>
      n_nodes ?g = n_nodes g"
  proof (cases "length (node_intfs g n1) = 9 \<or> length (node_intfs g n2) = 9")
    case True
    show ?thesis unfolding insert_link_full [OF w1 w2 True] by simp
  next
    case False
    then have l: "length (node_intfs g n1) < 9" "length (node_intfs g n2) < 9"
      using node_wf_props(1) [OF w1] node_wf_props(1) [OF w2] by linarith+
    note r = insert_link_result [OF node_wf_slots [OF w1] l(1) node_wf_slots [OF w2] l(2) assms(4)]
    have "p = (n_links g, Intf1) \<or> p = (n_links g, Intf2)" if "fst p = n_links g"
      using that by (cases p; cases "snd p") auto
    then show ?thesis by (auto simp: r less_Suc_eq)
  qed
  then show "fst p < n_links ?g \<Longrightarrow> fst p < n_links g \<and> iface ?g p = iface g p \<or>
      (\<exists>n nm. iface ?g p = fresh_intf g n nm)"
    "nodes ?g m = (nodes g m)\<lparr>intf := intf (nodes ?g m)\<rparr>" "n_nodes ?g = n_nodes g" by blast+
qed

lemma config_ok_insert:
  assumes "config_ok g" "n1 < n_nodes g" "n2 < n_nodes g" "n1 \<noteq> n2" "nul_free a" "nul_free b"
  shows "config_ok (insert_link_between_two_nodes g n1 n2 a b c)" (is "config_ok ?g")
proof -
  note wf = config_ok_wf [OF assms(1)]
  note r = insert_link_iface_cases [OF wf assms(2-4), where a = a and b = b and c = c]
  have "intf_cfg_ok (iface ?g p)" if "fst p < n_links ?g" for p
    using r(1) [OF that] config_ok_intf [OF assms(1), of p] by (auto simp: intf_cfg_ok_def)
  moreover have "node_cfg_ok (nodes ?g m)" if "m < n_nodes ?g" for m
    using config_ok_node [OF assms(1), of m] that by (subst r(2)) (simp add: node_cfg_ok_def r(3))
  ultimately show ?thesis
    using graph_wf_insert [OF wf assms(2-6)] by (simp add: config_ok_def)
qed



section \<open>The subnet scan\<close>

definition intf_addr :: "interface \<Rightarrow> u32" where
  "intf_addr i = convert_ip_from_str_to_int (ip_add i)"

definition on_subnet :: "u32 \<Rightarrow> interface \<Rightarrow> bool" where
  "on_subnet w i \<longleftrightarrow> is_ipadd_config i \<and> same_prefix (if_mask i) (intf_addr i) w"

lemma str_to_int_ntop [simp]: "convert_ip_from_str_to_int (inet_ntop w) = w"
  by (simp add: convert_ip_from_str_to_int_def)

lemma ip_add_canonical:
  "intf_cfg_ok i \<Longrightarrow> is_ipadd_config i \<Longrightarrow> ip_add i = inet_ntop (intf_addr i)"
  by (auto simp: intf_cfg_ok_def canonical_ip_def intf_addr_def)

lemma subnet_loop_find:
  assumes "\<And>p. p \<in> set ps \<Longrightarrow> intf_cfg_ok (iface g p)"
  shows "subnet_loop g (inet_ntop w) (map Some ps @ replicate k None) =
    Inr (List.find (\<lambda>p. on_subnet w (iface g p)) ps)"
  using assms
proof (induction ps)
  case Nil
  then show ?case by (cases k) simp_all
next
  case (Cons p ps)
  show ?case
  proof (cases "is_ipadd_config (iface g p)")
    case True
    have c: "intf_cfg_ok (iface g p)" by (rule Cons.prems) simp
    then have m: "valid_mask (if_mask (iface g p))" using True by (simp add: intf_cfg_ok_def)
    show ?thesis
      using Cons ip_add_canonical [OF c True] True m
      by (auto simp: apply_mask_ntop network_eq_iff on_subnet_def)
  next
    case False
    then show ?thesis using Cons by (simp add: on_subnet_def)
  qed
qed

lemma matching_subnet_find:
  assumes "config_ok g" and "n < n_nodes g"
  shows "node_get_matching_subnet_interface g n (inet_ntop w) =
    Inr (List.find (\<lambda>p. on_subnet w (iface g p)) (node_intfs g n))"
proof -
  note wf = graph_wf_node [OF config_ok_wf [OF assms(1)] assms(2)]
  have "intf_cfg_ok (iface g p)" if "p \<in> set (node_intfs g n)" for p
    using config_ok_intf [OF assms(1)] node_wf_props(3) [OF wf that] by simp
  then show ?thesis
    by (simp add: node_get_matching_subnet_interface_def node_wf_slots [OF wf]
        take_slots [OF node_wf_props(1) [OF wf]] subnet_loop_find)
qed


section \<open>Everything configuration can reach\<close>

text \<open>
  One step of configuration, with the arguments the callers in the repository give: names
  are C strings, masks prefix lengths from 1 to 32, interface addresses proper ones, and the
  two ends of a link different nodes.
\<close>

inductive config_step :: "graph \<Rightarrow> graph \<Rightarrow> bool" where
  create: "create_graph_node g nm sock = Inr (n, g') \<Longrightarrow> nul_free nm \<Longrightarrow> config_step g g'"
| insert_link: "n1 < n_nodes g \<Longrightarrow> n2 < n_nodes g \<Longrightarrow> n1 \<noteq> n2 \<Longrightarrow> nul_free a \<Longrightarrow> nul_free b \<Longrightarrow>
    config_step g (insert_link_between_two_nodes g n1 n2 a b c)"
| loopback: "n < n_nodes g \<Longrightarrow> node_set_loopback_address g n ip = Inr g' \<Longrightarrow> config_step g g'"
| set_ip: "n < n_nodes g \<Longrightarrow> valid_mask m \<Longrightarrow> canonical_ip ip \<Longrightarrow>
    node_set_intf_ip_address g n nm ip m = Inr (b, g') \<Longrightarrow> config_step g g'"
| unset_ip: "n < n_nodes g \<Longrightarrow> config_step g (snd (node_unset_intf_ip_address g n nm))"
| set_mode: "n < n_nodes g \<Longrightarrow> config_step g (node_set_intf_l2_mode g n nm m)"
| add_vlan: "n < n_nodes g \<Longrightarrow> config_step g (node_set_intf_vlan_membership g n nm v)"
| remove_vlan: "n < n_nodes g \<Longrightarrow> config_step g (node_remove_vlan_membership g n nm v)"
| debug: "n < n_nodes g \<Longrightarrow> config_step g (set_node_debug_status g n st)"
| route: "n < n_nodes g \<Longrightarrow> valid_mask m \<Longrightarrow>
    rt_table_add_route (node_route_table (nodes g n)) dst m gw oif = Inr rt \<Longrightarrow>
    config_step g (upd_node g n (\<lambda>nd. nd\<lparr>node_route_table := rt\<rparr>))"

lemma config_ok_step: "config_step g g' \<Longrightarrow> config_ok g \<Longrightarrow> config_ok g'"
proof (induction rule: config_step.induct)
  case (route n g m dst gw oif rt)
  then show ?case
    using rt_ok_add_route [OF route.hyps(3)] by (intro config_ok_upd_node) (auto simp: node_cfg_ok_def)
next
  case (debug n g st)
  then show ?case
    unfolding set_node_debug_status_def by (intro config_ok_upd_node) (auto simp: node_cfg_ok_def)
qed (auto intro: config_ok_create config_ok_insert config_ok_loopback config_ok_set_ip
    config_ok_unset_ip config_ok_set_l2_mode config_ok_set_vlan config_ok_remove_vlan)

text \<open>The counter of ports is static, so a later graph starts with any value of it.\<close>

definition fresh_graph :: "u32 \<Rightarrow> string \<Rightarrow> graph" where
  "fresh_graph k nm = (create_new_graph nm)\<lparr>udp_counter := k\<rparr>"

definition configured :: "graph \<Rightarrow> bool" where
  "configured g \<longleftrightarrow> (\<exists>k nm. config_step\<^sup>*\<^sup>* (fresh_graph k nm) g)"

lemma fresh_graph_simps [simp]:
  "nodes (fresh_graph k nm) = nodes (create_new_graph nm)" "links (fresh_graph k nm) = links (create_new_graph nm)"
  "node_list (fresh_graph k nm) = []" "n_nodes (fresh_graph k nm) = 0" "n_links (fresh_graph k nm) = 0"
  "topolgy_name (fresh_graph k nm) = strncpy_term 32 nm" "udp_counter (fresh_graph k nm) = k"
  by (simp_all add: fresh_graph_def create_new_graph_def)

lemma config_ok_fresh: "config_ok (fresh_graph k nm)"
  by (simp add: config_ok_def graph_wf_def)

lemma create_new_fresh: "create_new_graph nm = fresh_graph 40000 nm"
  by (simp add: fresh_graph_def create_new_graph_def)

lemma configured_ok: "configured g \<Longrightarrow> config_ok g"
proof -
  assume "configured g"
  then obtain k nm where "config_step\<^sup>*\<^sup>* (fresh_graph k nm) g" by (auto simp: configured_def)
  then show ?thesis
    by (induction rule: rtranclp_induct) (auto intro: config_ok_fresh config_ok_step)
qed

text \<open>Generated addresses.\<close>

lemma gen_mac_tail: "drop 4 (gen_mac a b) = [0, 0]"
  by (simp add: gen_mac_def zeros_def numeral_eq_Suc)

lemma gen_mac_not_broadcast: "gen_mac a b \<noteq> broadcast_mac"
proof
  assume "gen_mac a b = broadcast_mac"
  then have "hd (drop 4 broadcast_mac) = (0 :: u8)" using gen_mac_tail [of a b] by simp
  then show False by (simp add: broadcast_mac_def)
qed

lemma gen_mac_swap: "gen_mac a b = gen_mac b a"
  by (simp add: gen_mac_def NODE_NAME_SIZE_def IF_NAME_SIZE_def mult.commute)

section \<open>Properties\<close>

lemma configured_fresh: "configured (fresh_graph k nm)"
  by (auto simp: configured_def)

lemma configured_new: "configured (create_new_graph nm)"
  unfolding create_new_fresh by (rule configured_fresh)

lemma configured_step: "configured g \<Longrightarrow> config_step g g' \<Longrightarrow> configured g'"
  unfolding configured_def by (meson rtranclp.rtrancl_into_rtrancl)

lemma configured_example: "configured example_graph"
proof -
  obtain g1 g2 where g: "create_graph_node (create_new_graph ''g'') ''R0'' (Some 3) = Inr (0, g1)"
    "create_graph_node g1 ''R1'' (Some 4) = Inr (1, g2)" "n_nodes g2 = 2"
    "example_graph = insert_link_between_two_nodes g2 0 1 ''eth0'' ''eth1'' 1"
    by (rule example_nodes)
  have nf: "nul_free ''R0''" "nul_free ''R1''" "nul_free ''eth0''" "nul_free ''eth1''"
    by (simp_all add: nul_free_def byte_of_char_def)
  have "configured g2"
    using configured_step [OF configured_step [OF configured_new config_step.create [OF g(1) nf(1)]]
        config_step.create [OF g(2) nf(2)]] .
  then show ?thesis
    unfolding g(4) by (rule configured_step) (rule config_step.insert_link, simp_all add: g(3) nf)
qed

text \<open>C16: whatever sequence of configuration steps is run on a new graph, the graph stays well
  formed, an interface with an address is in no L2 mode and has a usable mask, the tables
  are sound, and so no route lookup and no subnet scan can leave the defined behaviour.\<close>

theorem configured_graphs_are_sound:
  assumes "configured g"
  shows "config_ok g \<and>
    (\<forall>n w. n < n_nodes g \<longrightarrow>
      (\<exists>r. l3rib_lookup_lpm (node_route_table (nodes g n)) w = Inr r) \<and>
      (\<exists>p. node_get_matching_subnet_interface g n (inet_ntop w) = Inr p))"
  using configured_ok [OF assms] config_ok_node [OF configured_ok [OF assms]] lookup_total
    matching_subnet_find [OF configured_ok [OF assms]]
  by (auto simp: node_cfg_ok_def)

lemma configured_graphs_are_sound_witness:
  "\<exists>p. node_get_matching_subnet_interface example_graph 1 (inet_ntop 7) = Inr p"
  using configured_graphs_are_sound [OF configured_example] by (simp add: graph_wf_example)

lemma find_first:
  "List.find P xs = Some p \<longleftrightarrow> (\<exists>as bs. xs = as @ p # bs \<and> P p \<and> (\<forall>q \<in> set as. \<not> P q))"
proof (induction xs)
  case (Cons x xs)
  show ?case
  proof (cases "P x")
    case True
    then show ?thesis by (auto simp: Cons_eq_append_conv)
  next
    case False
    then have "(\<exists>as bs. x # xs = as @ p # bs \<and> P p \<and> (\<forall>q \<in> set as. \<not> P q)) \<longleftrightarrow>
        (\<exists>as bs. xs = as @ p # bs \<and> P p \<and> (\<forall>q \<in> set as. \<not> P q))"
      by (fastforce simp: Cons_eq_append_conv intro: exI [of _ "x # _"])
    then show ?thesis using False Cons by simp
  qed
qed simp

text \<open>The scan finds the first interface of the node whose own address shares its masked
  leading bits with the given one, and nothing exactly when there is none.\<close>

lemma subnet_scan_finds_first:
  assumes "configured g" and "n < n_nodes g"
  shows "(node_get_matching_subnet_interface g n (inet_ntop w) = Inr (Some p) \<longleftrightarrow>
      (\<exists>xs ys. node_intfs g n = xs @ p # ys \<and> on_subnet w (iface g p) \<and>
         (\<forall>q \<in> set xs. \<not> on_subnet w (iface g q)))) \<and>
    (node_get_matching_subnet_interface g n (inet_ntop w) = Inr None \<longleftrightarrow>
      (\<forall>q \<in> set (node_intfs g n). \<not> on_subnet w (iface g q)))"
  by (auto simp: matching_subnet_find [OF configured_ok [OF assms(1)] assms(2)] find_None_iff find_first)

text \<open>C32: on a trunk port the ten VLAN slots implement a set of at most ten VLANs: adding inserts
  unless the set is full, removing deletes, membership is membership, and the slots never
  hold a VLAN twice.\<close>

theorem trunk_vlans_are_a_set:
  assumes "vlans_ok i" and "l2_mode i = TRUNK" and "\<not> is_ipadd_config i" and "v \<noteq> 0"
  shows "members (interface_set_vlan v i) =
      (if card (members i) = 10 then members i else insert v (members i)) \<and>
    members (remove_vlan v i) = members i - {v} \<and>
    (is_trunk_interface_vlan_member i v \<longleftrightarrow> v \<in> members i) \<and>
    vlans_ok (interface_set_vlan v i) \<and> vlans_ok (remove_vlan v i) \<and> card (members i) \<le> 10"
  using trunk_add_members(1) [OF assms(1,4)] remove_members [OF assms(1)] set_vlan_ok [OF assms(1)]
    members_full(1) [OF assms(1)] assms(2-4)
  by (auto simp: interface_set_vlan_def IS_INTF_L3_MODE_def MAX_VLAN_MEMBERSHIP_def
      is_trunk_interface_vlan_member_def members_def)

definition example_trunk :: interface where
  "example_trunk = zero_interface\<lparr>l2_mode := TRUNK, vlans := [10, 0, 11, 0, 0, 0, 0, 0, 0, 0]\<rparr>"

lemma trunk_vlans_are_a_set_witness:
  "members (interface_set_vlan 12 example_trunk) = {10, 11, 12} \<and>
   members (remove_vlan 10 example_trunk) = {11}"
proof -
  have m: "members example_trunk = {10, 11}" by (auto simp: members_def example_trunk_def)
  have ok: "vlans_ok example_trunk"
    by (simp add: vlans_ok_def example_trunk_def MAX_VLAN_MEMBERSHIP_def)
  have k: "l2_mode example_trunk = TRUNK" "\<not> is_ipadd_config example_trunk"
    by (simp_all add: example_trunk_def zero_interface_def)
  show ?thesis
    using trunk_vlans_are_a_set [OF ok k, of 12] trunk_vlans_are_a_set [OF ok k, of 10] by (auto simp: m)
qed

text \<open>The VLAN commands of the command line on one interface.\<close>

datatype vlan_cmd = Mode_access | Mode_trunk | Vlan_add u16 | Vlan_remove u16

fun run_vlan_cmd :: "vlan_cmd \<Rightarrow> interface \<Rightarrow> interface" where
  "run_vlan_cmd Mode_access i = set_l2_mode ACCESS i"
| "run_vlan_cmd Mode_trunk i = set_l2_mode TRUNK i"
| "run_vlan_cmd (Vlan_add v) i = interface_set_vlan v i"
| "run_vlan_cmd (Vlan_remove v) i = remove_vlan v i"

lemma l2_mode_set [simp]: "\<not> is_ipadd_config i \<Longrightarrow> l2_mode (set_l2_mode m i) = m"
  by (simp add: set_l2_mode_def IS_INTF_L3_MODE_def)

lemma vlan_cmd_ok:
  assumes "vlans_ok i" "l2_mode i \<noteq> L2_MODE_UNKNOWN" "\<not> is_ipadd_config i"
  shows "vlans_ok (run_vlan_cmd c i) \<and> l2_mode (run_vlan_cmd c i) \<noteq> L2_MODE_UNKNOWN \<and>
    \<not> is_ipadd_config (run_vlan_cmd c i)"
  using set_mode_members(1) [OF assms(1,2)] set_vlan_ok [OF assms(1)] remove_members(2) [OF assms(1)] assms(2,3)
  by (cases c) simp_all

text \<open>No sequence of VLAN commands on a fresh interface puts a VLAN into two slots, gives an
  access interface a second VLAN, or takes the interface out of the two L2 modes.\<close>

theorem vlan_commands_keep_slots_sound:
  "vlans_ok (fold run_vlan_cmd cmds (fresh_intf g n nm)) \<and>
   l2_mode (fold run_vlan_cmd cmds (fresh_intf g n nm)) \<noteq> L2_MODE_UNKNOWN"
proof -
  have "vlans_ok i \<and> l2_mode i \<noteq> L2_MODE_UNKNOWN \<and> \<not> is_ipadd_config i \<Longrightarrow>
      vlans_ok (fold run_vlan_cmd cmds i) \<and> l2_mode (fold run_vlan_cmd cmds i) \<noteq> L2_MODE_UNKNOWN" for i
    by (induction cmds arbitrary: i) (auto dest: vlan_cmd_ok)
  moreover have "vlans_ok (fresh_intf g n nm)"
    by (simp add: vlans_ok_def MAX_VLAN_MEMBERSHIP_def)
  ultimately show ?thesis by simp
qed

text \<open>An address that is set and unset on a trunk leaves its VLANs behind in access mode, and
  then a VLAN can be entered twice.\<close>

theorem stale_vlans_after_address:
  "\<not> vlans_ok (interface_set_vlan 11 (set_l2_mode ACCESS (intf_unset_ip (intf_set_ip ip m
      (interface_set_vlan 11 (interface_set_vlan 10 (set_l2_mode TRUNK (fresh_intf g n nm))))))))"
proof -
  have "replicate MAX_VLAN_MEMBERSHIP (0 :: u16) = [0, 0, 0, 0, 0, 0, 0, 0, 0, 0]"
    by (simp add: MAX_VLAN_MEMBERSHIP_def numeral_eq_Suc)
  then show ?thesis
    by (simp add: set_l2_mode_def interface_set_vlan_def IS_INTF_L3_MODE_def intf_set_ip_def
        intf_unset_ip_def add_vlan_to_trunk_membership_def vlans_ok_def)
qed

text \<open>A generated MAC address is never the broadcast address, but exchanging the names of
  node and interface gives the same address.\<close>

theorem generated_macs:
  "length (gen_mac node_nm intf_nm) = 6 \<and> gen_mac node_nm intf_nm \<noteq> broadcast_mac \<and>
   gen_mac node_nm intf_nm = gen_mac intf_nm node_nm"
  using gen_mac_not_broadcast gen_mac_swap by simp

section \<open>An example network\<close>

text \<open>The two nodes of the example graph as hosts 10.1.1.1/24 and 10.1.1.2/24 with loopback
  addresses 1.1.1.1 and 2.2.2.2.\<close>

definition direct_route :: "u32 \<Rightarrow> u8 \<Rightarrow> layer3_route" where
  "direct_route a m = \<lparr>rt_dest = inet_ntop (network a m), rt_mask = m, is_direct = True,
     rt_gw = [], rt_oif = []\<rparr>"

lemma short_ntop [simp]: "length (inet_ntop a) < 16"
  using length_inet_ntop [of a] by simp

lemma set_ip_result:
  assumes "get_node_if_by_name g n nm = Some p" and "valid_mask m"
  shows "node_set_intf_ip_address g n nm (inet_ntop a) m =
    Inr (True, upd_node (upd_iface g p (intf_set_ip (inet_ntop a) m)) n
      (\<lambda>nd. nd\<lparr>node_route_table := direct_route a m # node_route_table (nodes g n)\<rparr>))"
  using assms
  by (simp add: node_set_intf_ip_address_def Let_def strcpy_to_def apply_mask_ntop
      rt_table_add_direct_route_def direct_route_def)

lemma set_loopback_result:
  "node_set_loopback_address g n (inet_ntop a) =
    Inr (upd_node g n (\<lambda>nd. nd\<lparr>is_lb_addr_config := True, lb_addr := inet_ntop a,
           node_route_table := direct_route a 32 # node_route_table (nodes g n)\<rparr>))"
  by (simp add: node_set_loopback_address_def strcpy_to_def rt_table_add_direct_route_def
      direct_route_def network_32)

definition with_loopbacks :: graph where
  "with_loopbacks =
     upd_node (upd_node example_graph
       0 (\<lambda>nd. nd\<lparr>is_lb_addr_config := True, lb_addr := inet_ntop 0x01010101,
                   node_route_table := direct_route 0x01010101 32 # node_route_table (nodes example_graph 0)\<rparr>))
       1 (\<lambda>nd. nd\<lparr>is_lb_addr_config := True, lb_addr := inet_ntop 0x02020202,
                   node_route_table := direct_route 0x02020202 32 # node_route_table (nodes example_graph 1)\<rparr>)"

definition host_graph :: graph where
  "host_graph =
     upd_node (upd_iface
       (upd_node (upd_iface with_loopbacks (0, Intf1) (intf_set_ip (inet_ntop 0x0101010A) 24))
         0 (\<lambda>nd. nd\<lparr>node_route_table := direct_route 0x0101010A 24 # node_route_table (nodes with_loopbacks 0)\<rparr>))
       (0, Intf2) (intf_set_ip (inet_ntop 0x0201010A) 24))
       1 (\<lambda>nd. nd\<lparr>node_route_table := direct_route 0x0201010A 24 # node_route_table (nodes with_loopbacks 1)\<rparr>)"

lemma if_by_name_cong:
  "intf (nodes g' n) = intf (nodes g n) \<Longrightarrow> (\<And>q. if_name (iface g' q) = if_name (iface g q)) \<Longrightarrow>
     get_node_if_by_name g' n nm = get_node_if_by_name g n nm"
  by (simp add: get_node_if_by_name_def)

lemma configured_host_graph: "configured host_graph"
proof -
  let ?g1 = "upd_node example_graph
       0 (\<lambda>nd. nd\<lparr>is_lb_addr_config := True, lb_addr := inet_ntop 0x01010101,
                   node_route_table := direct_route 0x01010101 32 # node_route_table (nodes example_graph 0)\<rparr>)"
  have 1: "config_step example_graph ?g1"
    by (rule config_step.loopback [OF _ set_loopback_result]) (simp add: graph_wf_example)
  have 2: "config_step ?g1 with_loopbacks"
    using config_step.loopback [OF _ set_loopback_result [of ?g1 1 "0x02020202"]]
    by (simp add: graph_wf_example with_loopbacks_def)
  let ?g3 = "upd_node (upd_iface with_loopbacks (0, Intf1) (intf_set_ip (inet_ntop 0x0101010A) 24))
         0 (\<lambda>nd. nd\<lparr>node_route_table := direct_route 0x0101010A 24 # node_route_table (nodes with_loopbacks 0)\<rparr>)"
  have m: "valid_mask 24" by (simp add: valid_mask_def)
  have w: "node_wf example_graph 0" "node_wf example_graph 1"
    using graph_wf_node [OF graph_wf_example(1)] graph_wf_example(2) by auto
  have n0: "get_node_if_by_name with_loopbacks 0 ''eth0'' = Some (0, Intf1)"
    using if_by_name_cong [of with_loopbacks 0 example_graph "''eth0''"] get_node_if_by_name_find [OF w(1)]
    by (simp add: with_loopbacks_def node_intfs_example del: One_nat_def)
  have 3: "config_step with_loopbacks ?g3"
    by (rule config_step.set_ip [OF _ m _ set_ip_result [OF n0 m]])
      (simp_all add: with_loopbacks_def graph_wf_example)
  have n1: "get_node_if_by_name ?g3 1 ''eth1'' = Some (0, Intf2)"
    using if_by_name_cong [of ?g3 1 example_graph "''eth1''"] get_node_if_by_name_find [OF w(2)]
    by (simp add: with_loopbacks_def node_intfs_example intf_set_ip_def del: One_nat_def)
  have 4: "config_step ?g3 host_graph"
    using config_step.set_ip [OF _ m _ set_ip_result [OF n1 m, of "0x0201010A"]]
    by (simp add: with_loopbacks_def graph_wf_example host_graph_def del: One_nat_def)
  show ?thesis
    using configured_step [OF configured_step [OF configured_step [OF configured_step [OF configured_example 1] 2] 3] 4] .
qed

lemma host_graph_sel:
  "n_nodes host_graph = 2" "n_links host_graph = 1"
  "node_intfs host_graph 0 = [(0, Intf1)]" "node_intfs host_graph 1 = [(0, Intf2)]"
  "att_node (iface host_graph (0, Intf1)) = Some 0" "att_node (iface host_graph (0, Intf2)) = Some 1"
  "is_ipadd_config (iface host_graph (0, Intf1))" "is_ipadd_config (iface host_graph (0, Intf2))"
  "ip_add (iface host_graph (0, Intf1)) = inet_ntop 0x0101010A"
  "ip_add (iface host_graph (0, Intf2)) = inet_ntop 0x0201010A"
  "if_mask (iface host_graph (0, Intf1)) = 24" "if_mask (iface host_graph (0, Intf2)) = 24"
  "if_name (iface host_graph (0, Intf1)) = ''eth0''" "if_name (iface host_graph (0, Intf2)) = ''eth1''"
  using node_intfs_example graph_wf_example
  by (simp_all add: host_graph_def with_loopbacks_def node_intfs_def intf_set_ip_def del: One_nat_def)

end
