(* ===== verification/Comm.thy ===== *)
theory Comm
  imports Net
begin

text \<open>
  The wires (\<^verbatim>\<open>src/communications.c\<close>). A link is a pair of UDP ports: a frame sent on an
  interface becomes a datagram to the neighbour's port, with the name of the remote
  interface in its first 16 bytes. The operating system carries the datagrams; here they
  are the list \<open>sent\<close>, oldest first.
\<close>

record dgram =
  dport :: u16
  dg_data :: bytes

text \<open>The messages for the user, other than debug output.\<close>

datatype report =
    Echo_reply_received nid u16 string u16 u8
  | Network_unreachable nid string string
  | Unreachable_other nid string string
  | Ttl_expired nid string string

record world =
  topo :: graph
  sent :: "dgram list"
  reports :: "report list"

text \<open>\<^verbatim>\<open>sendto\<close> on the local host; the port is truncated to 16 bits.\<close>

definition sendto :: "world \<Rightarrow> bytes \<Rightarrow> u32 \<Rightarrow> world" where
  "sendto w data dst_udp_port_no =
     w\<lparr>sent := sent w @ [\<lparr>dport = ucast dst_udp_port_no, dg_data = data\<rparr>]\<rparr>"

text \<open>
  \<^verbatim>\<open>send_pkt_out\<close>: the packet is at offset \<open>p\<close> of the buffer \<open>b\<close>. The static send buffer has
  2048 bytes; the last access, to the sender's debug status, follows \<^verbatim>\<open>att_node\<close>.
\<close>

definition send_pkt_out :: "world \<Rightarrow> bytes \<Rightarrow> nat \<Rightarrow> u32 \<Rightarrow> ifptr \<Rightarrow> world res" where
  "send_pkt_out w b p pkt_size oif =
     (case get_nbr_node (topo w) oif of
        None \<Rightarrow> Inr w
      | Some nbr_node \<Rightarrow>
          let dst_udp_port_no = udp_port_number (nodes (topo w) nbr_node);
              send_buffer = zeros MAX_PACKET_BUFFER_SIZE;
              name = map byte_of_char (if_name (iface (topo w) (remote_intf oif))) @ [0]
          in
          rbind (wr send_buffer 0 name) (\<lambda>b1.
          rbind (wr b1 IF_NAME_SIZE [0]) (\<lambda>b2.
          rbind (rd b p (unat pkt_size)) (\<lambda>pkt.
          rbind (wr b2 IF_NAME_SIZE pkt) (\<lambda>b3.
          rbind (rd b3 0 (unat (pkt_size + of_nat IF_NAME_SIZE))) (\<lambda>out.
          rbind (deref (att_node (iface (topo w) oif))) (\<lambda>sending_node.
          Inr (sendto w out dst_udp_port_no))))))))"

fun flood_loop :: "world \<Rightarrow> bytes \<Rightarrow> nat \<Rightarrow> u32 \<Rightarrow> ifptr option \<Rightarrow> ifptr option list \<Rightarrow> world res" where
  "flood_loop w b p pkt_size exempted_intf [] = Inr w"
| "flood_loop w b p pkt_size exempted_intf (None # ss) = flood_loop w b p pkt_size exempted_intf ss"
| "flood_loop w b p pkt_size exempted_intf (Some q # ss) =
     (if Some q = exempted_intf then flood_loop w b p pkt_size exempted_intf ss
      else rbind (send_pkt_out w b p pkt_size q) (\<lambda>w1. flood_loop w1 b p pkt_size exempted_intf ss))"

definition send_pkt_flood :: "world \<Rightarrow> nid \<Rightarrow> ifptr option \<Rightarrow> bytes \<Rightarrow> nat \<Rightarrow> u32 \<Rightarrow> world res" where
  "send_pkt_flood w n exempted_intf b p pkt_size =
     flood_loop w b p pkt_size exempted_intf (intf (nodes (topo w) n))"

text \<open>
  Reception: the receiver thread clears its 2048 byte buffer and reads one datagram into it;
  \<open>frame_recv\<close> is \<^verbatim>\<open>layer2_frame_recv\<close>. With debugging on, the interface is used for output
  before it is tested.
\<close>

definition recv_buffer :: "bytes \<Rightarrow> bytes \<times> u32" where
  "recv_buffer data =
     (let d = take MAX_PACKET_BUFFER_SIZE data in
      (d @ zeros (MAX_PACKET_BUFFER_SIZE - length d), of_nat (length d)))"

definition pkt_receive ::
  "(world \<Rightarrow> nid \<Rightarrow> ifptr \<Rightarrow> bytes \<Rightarrow> nat \<Rightarrow> u32 \<Rightarrow> world res) \<Rightarrow>
   world \<Rightarrow> nid \<Rightarrow> bytes \<Rightarrow> u32 \<Rightarrow> world res" where
  "pkt_receive frame_recv w receiving_node pkt_with_aux_data pkt_size =
     (case get_node_if_by_name (topo w) receiving_node (text_of pkt_with_aux_data) of
        None \<Rightarrow>
          (if node_debug (nodes (topo w) receiving_node) = DEBUG_ON then Inl Null_deref else Inr w)
      | Some recv_intf \<Rightarrow>
          frame_recv w receiving_node recv_intf pkt_with_aux_data IF_NAME_SIZE
            (pkt_size - of_nat IF_NAME_SIZE))"


section \<open>What arrives is what was sent\<close>

definition frame_dgram :: "world \<Rightarrow> ifptr \<Rightarrow> bytes \<Rightarrow> dgram" where
  "frame_dgram w oif pkt =
     \<lparr>dport = ucast (udp_port_number (nodes (topo w) (the (get_nbr_node (topo w) oif)))),
      dg_data = char_array IF_NAME_SIZE (if_name (iface (topo w) (remote_intf oif))) @ pkt\<rparr>"

lemma zeros_split: "m \<le> n \<Longrightarrow> zeros n = zeros m @ zeros (n - m)"
  by (simp add: zeros_def replicate_add [symmetric])

lemma wr_zeros: "length xs \<le> n \<Longrightarrow> wr (zeros n) 0 xs = Inr (xs @ zeros (n - length xs))"
  by (simp add: wr_def splice_def)

text \<open>A packet of at most 2032 bytes goes out whole, behind the name of the remote interface.\<close>

lemma send_pkt_out_ok:
  assumes nbr: "get_nbr_node (topo w) oif = Some m" and att: "att_node (iface (topo w) oif) = Some n"
    and nm: "fits IF_NAME_SIZE (if_name (iface (topo w) (remote_intf oif)))"
    and pkt: "rd b p (unat k) = Inr pkt" and k: "unat k \<le> 2032"
  shows "send_pkt_out w b p k oif = Inr (w\<lparr>sent := sent w @ [frame_dgram w oif pkt]\<rparr>)"
proof -
  define nme where "nme = if_name (iface (topo w) (remote_intf oif))"
  have l: "length nme < 16" using nm by (simp add: nme_def fits_def IF_NAME_SIZE_def)
  have lp: "length pkt = unat k" using rd_InrD [OF pkt] by blast
  let ?c = "char_array 16 nme"
  have z: "zeros (2047 - length nme) = zeros (15 - length nme) @ zeros 2032"
    using l zeros_split [of "15 - length nme" "2047 - length nme"] by simp
  have c: "?c = map byte_of_char nme @ 0 # zeros (15 - length nme)"
  proof -
    obtain d where d: "16 - length nme = Suc d" using l by (cases "16 - length nme") auto
    then have "15 - length nme = d" by simp
    then show ?thesis using d by (simp add: char_array_def zeros_def)
  qed
  have w1: "wr (zeros 2048) 0 (map byte_of_char nme @ [0]) = Inr (?c @ zeros 2032)"
    using l wr_zeros [of "map byte_of_char nme @ [0]" 2048] by (simp add: z c)
  have lc: "length ?c = 16" using l by simp
  have zz: "zeros 2032 = [0] @ zeros 2031" by (simp add: zeros_def numeral_eq_Suc)
  have w2: "wr (?c @ zeros 2032) 16 [0] = Inr (?c @ zeros 2032)"
    unfolding zz by (rule wr_seg) (simp_all add: lc)
  have zk: "zeros 2032 = zeros (unat k) @ zeros (2032 - unat k)" using k by (rule zeros_split)
  have w3: "wr (?c @ zeros 2032) 16 pkt = Inr (?c @ pkt @ zeros (2032 - unat k))"
    unfolding zk by (rule wr_seg) (simp_all add: lc lp)
  have u: "unat (k + 16) = 16 + unat k" using k by (simp add: unat_add_lem [THEN iffD1] unat_word_ariths)
  have r: "rd ([] @ (?c @ pkt) @ zeros (2032 - unat k)) 0 (16 + unat k) = Inr (?c @ pkt)"
    by (rule rd_seg) (simp_all add: lc lp)
  show ?thesis
    using nbr att pkt w1 w2 w3 r u
    by (simp add: send_pkt_out_def nme_def [symmetric] MAX_PACKET_BUFFER_SIZE_def IF_NAME_SIZE_def
        frame_dgram_def sendto_def)
qed

text \<open>The receiver finds the name it was sent to and the packet behind it.\<close>

lemma recv_buffer_frame:
  assumes "fits IF_NAME_SIZE (if_name (iface (topo w) (remote_intf oif)))" and "length pkt \<le> 2032"
  shows "recv_buffer (dg_data (frame_dgram w oif pkt)) =
    (char_array IF_NAME_SIZE (if_name (iface (topo w) (remote_intf oif))) @ pkt @ zeros (2032 - length pkt),
     of_nat (16 + length pkt))"
  using assms by (simp add: recv_buffer_def frame_dgram_def fits_def size_consts Let_def)

lemma pkt_receive_frame:
  assumes "graph_wf (topo w)" and "fst oif < n_links (topo w)"
    and nbr: "get_nbr_node (topo w) oif = Some m"
    and uniq: "inj_on (\<lambda>q. if_name (iface (topo w) q)) (set (node_intfs (topo w) m))"
    and len: "length pkt \<le> 2032"
  shows "(case recv_buffer (dg_data (frame_dgram w oif pkt)) of (buf, n) \<Rightarrow> pkt_receive fr w m buf n) =
    fr w m (remote_intf oif)
      (char_array IF_NAME_SIZE (if_name (iface (topo w) (remote_intf oif))) @ pkt @ zeros (2032 - length pkt))
      16 (of_nat (length pkt))"
proof -
  have r: "fst (remote_intf oif) < n_links (topo w)" using assms(2) by simp
  have fit: "fits IF_NAME_SIZE (if_name (iface (topo w) (remote_intf oif)))"
    using graph_wf_iface [OF assms(1) r] by (simp add: iface_wf_def)
  obtain m' where m': "m' < n_nodes (topo w)" "att_node (iface (topo w) (remote_intf oif)) = Some m'"
    "remote_intf oif \<in> set (node_intfs (topo w) m')"
    by (rule graph_wf_att [OF assms(1) r])
  have m: "m' = m" using nbr m'(2) by (simp add: get_nbr_node_remote)
  have g: "get_node_if_by_name (topo w) m (if_name (iface (topo w) (remote_intf oif))) = Some (remote_intf oif)"
    using get_node_if_by_name_self [OF graph_wf_node [OF assms(1)]] m' uniq unfolding m by blast
  show ?thesis
    using recv_buffer_frame [OF fit len] text_of_char_array [OF fit]
    by (simp add: pkt_receive_def g IF_NAME_SIZE_def)
qed

section \<open>Properties\<close>

definition example_world :: world where
  "example_world = \<lparr>topo = example_graph, sent = [], reports = []\<rparr>"

text \<open>C17: the wires deliver: a packet of at most 2032 bytes that is sent on an interface becomes one
  datagram to the port of the node at the other end, and when that node reads it the frame
  handler gets exactly the packet, its size, and the interface at the other end of the link,
  if the node's interface names are distinct.\<close>

theorem frame_arrives_intact:
  assumes wf: "graph_wf (topo w)" and q: "fst q < n_links (topo w)"
    and nbr: "get_nbr_node (topo w) q = Some m"
    and uniq: "inj_on (\<lambda>r. if_name (iface (topo w) r)) (set (node_intfs (topo w) m))"
    and pkt: "rd b p (unat k) = Inr pkt" and k: "unat k \<le> 2032"
  shows "\<exists>dg hd. send_pkt_out w b p k q = Inr (w\<lparr>sent := sent w @ [dg]\<rparr>) \<and>
    dport dg = ucast (udp_port_number (nodes (topo w) m)) \<and> length hd = 16 \<and>
    (\<forall>fr w'. topo w' = topo w \<longrightarrow>
      (case recv_buffer (dg_data dg) of (buf, n) \<Rightarrow> pkt_receive fr w' m buf n) =
      fr w' m (remote_intf q) (hd @ pkt @ zeros (2032 - length pkt)) 16 k)"
proof -
  have r: "fst (remote_intf q) < n_links (topo w)" using q by simp
  obtain n where n: "att_node (iface (topo w) q) = Some n" by (rule graph_wf_att [OF wf q])
  have fit: "fits IF_NAME_SIZE (if_name (iface (topo w) (remote_intf q)))"
    using graph_wf_iface [OF wf r] by (simp add: iface_wf_def)
  have len: "length pkt = unat k" using rd_InrD [OF pkt] by blast
  let ?hd = "char_array IF_NAME_SIZE (if_name (iface (topo w) (remote_intf q)))"
  have "(case recv_buffer (dg_data (frame_dgram w q pkt)) of (buf, n) \<Rightarrow> pkt_receive fr w' m buf n) =
      fr w' m (remote_intf q) (?hd @ pkt @ zeros (2032 - length pkt)) 16 k"
    if t: "topo w' = topo w" for fr w'
  proof -
    have "frame_dgram w q pkt = frame_dgram w' q pkt" using t by (simp add: frame_dgram_def)
    then show ?thesis
      using pkt_receive_frame [of w' q m pkt fr] wf q nbr uniq k len by (simp add: t)
  qed
  moreover have "length ?hd = 16" using fit by (simp add: fits_def IF_NAME_SIZE_def)
  ultimately show ?thesis
    using send_pkt_out_ok [OF nbr n fit pkt k] nbr
    by (intro exI [of _ "frame_dgram w q pkt"] exI [of _ ?hd]) (simp add: frame_dgram_def)
qed

lemma frame_arrives_intact_witness:
  "\<exists>dg hd. send_pkt_out example_world [2, 3] 0 2 (0, Intf1) =
      Inr (example_world\<lparr>sent := sent example_world @ [dg]\<rparr>) \<and>
    dport dg = ucast (udp_port_number (nodes (topo example_world) 1)) \<and> length hd = 16 \<and>
    (\<forall>fr w'. topo w' = topo example_world \<longrightarrow>
      (case recv_buffer (dg_data dg) of (buf, n) \<Rightarrow> pkt_receive fr w' 1 buf n) =
      fr w' 1 (remote_intf (0, Intf1)) (hd @ [2, 3] @ zeros (2032 - length [2, 3 :: u8])) 16 2)"
  by (rule frame_arrives_intact)
    (simp_all add: example_world_def graph_wf_example node_intfs_example get_nbr_node_remote
      remote_intf_def rd_def del: One_nat_def)

text \<open>C40: a larger packet overruns the static send buffer.\<close>

theorem oversized_packet_overruns:
  assumes "get_nbr_node (topo w) q = Some m" and "if_name (iface (topo w) (remote_intf q)) = nm" "length nm < 16"
    and "rd b p (unat k) = Inr pkt" and "unat k > 2032"
  shows "send_pkt_out w b p k q = Inl Out_of_bounds"
proof -
  have len: "length pkt = unat k" using rd_InrD [OF assms(4)] by blast
  obtain b1 where b1: "wr (zeros 2048) 0 (map byte_of_char nm @ [0]) = Inr b1" "length b1 = 2048"
    using assms(3) by (simp add: wr_def)
  obtain b2 where b2: "wr b1 16 [0] = Inr b2" "length b2 = 2048"
    using b1(2) by (simp add: wr_def)
  have "wr b2 16 pkt = Inl Out_of_bounds"
    using b2(2) len assms(5) by (simp add: wr_def)
  then show ?thesis
    using assms b1 b2 by (simp add: send_pkt_out_def MAX_PACKET_BUFFER_SIZE_def IF_NAME_SIZE_def)
qed

lemma oversized_packet_overruns_witness:
  "send_pkt_out example_world (zeros 2033) 0 2033 (0, Intf1) = Inl Out_of_bounds"
  by (rule oversized_packet_overruns [where m = 1 and nm = "''eth1''" and pkt = "zeros 2033"])
    (simp_all add: example_world_def graph_wf_example node_intfs_example get_nbr_node_remote
      remote_intf_def rd_def del: One_nat_def)

end
