(* ===== verification/L2_Switch.thy ===== *)
theory L2_Switch
  imports Comm
begin

text \<open>
  The switch (\<^verbatim>\<open>src/layer2/l2switch.c\<close>, lines 79--165) and the admission of frames
  (\<^verbatim>\<open>l2_frame_recv_qualify_on_interface\<close> of \<^verbatim>\<open>include/layer2/layer2.h\<close>).
\<close>

text \<open>
  What the C program leaves to its environment: the values of local variables that are read
  before they are written (arbitrary, hence parameters), and what the receiver thread does
  to the world while another thread sleeps.
\<close>

record env =
  uninit_vlan :: "world \<Rightarrow> u16"
  uninit_tag :: "world \<Rightarrow> u16"
  uninit_addr :: "world \<Rightarrow> u32"
  asleep :: "world \<Rightarrow> world"


section \<open>Admission\<close>

text \<open>The verdict, with the value stored in \<^verbatim>\<open>*output_vlan_id\<close> when one is stored.\<close>

definition l2_frame_recv_qualify_on_interface ::
  "interface \<Rightarrow> bytes \<Rightarrow> nat \<Rightarrow> (bool \<times> u16 option) res" where
  "l2_frame_recv_qualify_on_interface i b p =
     rbind (is_pkt_vlan_tagged b p) (\<lambda>tagged.
     rbind (if tagged then get_8021q_vlan_id b p else Inr 0) (\<lambda>vlan_id.
     if \<not> IS_INTF_L3_MODE i \<and> l2_mode i = L2_MODE_UNKNOWN then Inr (False, None)
     else if IS_INTF_L3_MODE i \<and> tagged then Inr (False, None)
     else if l2_mode i = ACCESS then
       (let if_access_vlan = get_access_intf_operating_vlan_id i in
        if tagged \<and> vlan_id \<noteq> if_access_vlan then Inr (False, None)
        else Inr (True, Some if_access_vlan))
     else if l2_mode i = TRUNK then
       (if \<not> tagged then Inr (False, None)
        else Inr (is_trunk_interface_vlan_member i vlan_id, None))
     else
       rbind (eth_dest b p) (\<lambda>dest_mac.
       Inr (if_mac i = dest_mac \<or> is_mac_broadcast_addr dest_mac, None))))"


section \<open>Learning and forwarding\<close>

definition l2_switch_perform_mac_learning :: "world \<Rightarrow> nid \<Rightarrow> bytes \<Rightarrow> string \<Rightarrow> world res" where
  "l2_switch_perform_mac_learning w n smac name =
     rbind (strcpy_to IF_NAME_SIZE name) (\<lambda>oif_name.
     Inr (w\<lparr>topo := upd_node (topo w) n
       (\<lambda>nd. nd\<lparr>node_mac_table := mac_learn (node_mac_table nd) smac oif_name\<rparr>)\<rparr>))"

text \<open>The buffer is a result too: untagging rewrites the frame in place.\<close>

definition l2_switch_send_pkt_out ::
  "env \<Rightarrow> world \<Rightarrow> bytes \<Rightarrow> nat \<Rightarrow> u32 \<Rightarrow> ifptr option \<Rightarrow> (bool \<times> world \<times> bytes) res" where
  "l2_switch_send_pkt_out E w b p pkt_size oif_ptr =
     rbind (deref oif_ptr) (\<lambda>oif.
     let i = iface (topo w) oif in
     if IS_INTF_L3_MODE i then Inl Assert_failed
     else
       rbind (is_pkt_vlan_tagged b p) (\<lambda>tagged.
       rbind (if tagged then get_8021q_vlan_id b p else Inr (uninit_vlan E w)) (\<lambda>vlan_id.
       case l2_mode i of
         TRUNK \<Rightarrow>
           (if \<not> is_trunk_interface_vlan_member i vlan_id then Inr (False, w, b)
            else rbind (send_pkt_out w b p pkt_size oif) (\<lambda>w1. Inr (True, w1, b)))
       | ACCESS \<Rightarrow>
           (if get_access_intf_operating_vlan_id i \<noteq> vlan_id then Inr (False, w, b)
            else
              rbind (untag_pkt_with_vlan_id b p pkt_size) (\<lambda>(b1, p1, new_pkt_size).
              rbind (send_pkt_out w b1 p1 new_pkt_size oif) (\<lambda>w1. Inr (True, w1, b1))))
       | L2_MODE_UNKNOWN \<Rightarrow> Inr (False, w, b))))"

fun l2_flood_loop ::
  "env \<Rightarrow> ifptr \<Rightarrow> nat \<Rightarrow> u32 \<Rightarrow> ifptr option list \<Rightarrow> world \<Rightarrow> bytes \<Rightarrow> (world \<times> bytes) res" where
  "l2_flood_loop E exempted_intf p pkt_size [] w b = Inr (w, b)"
| "l2_flood_loop E exempted_intf p pkt_size (None # ss) w b =
     l2_flood_loop E exempted_intf p pkt_size ss w b"
| "l2_flood_loop E exempted_intf p pkt_size (Some q # ss) w b =
     (if q = exempted_intf \<or> l2_mode (iface (topo w) q) = L2_MODE_UNKNOWN
      then l2_flood_loop E exempted_intf p pkt_size ss w b
      else rbind (l2_switch_send_pkt_out E w b p pkt_size (Some q)) (\<lambda>(_, w1, b1).
           l2_flood_loop E exempted_intf p pkt_size ss w1 b1))"

definition l2_switch_flood_pkt_out ::
  "env \<Rightarrow> world \<Rightarrow> nid \<Rightarrow> ifptr \<Rightarrow> bytes \<Rightarrow> nat \<Rightarrow> u32 \<Rightarrow> world res" where
  "l2_switch_flood_pkt_out E w n exempted_intf b p pkt_size =
     rbind (l2_flood_loop E exempted_intf p pkt_size (intf (nodes (topo w) n)) w b) (\<lambda>(w1, _). Inr w1)"

definition l2_switch_forward_frame ::
  "env \<Rightarrow> world \<Rightarrow> nid \<Rightarrow> ifptr \<Rightarrow> bytes \<Rightarrow> nat \<Rightarrow> u32 \<Rightarrow> world res" where
  "l2_switch_forward_frame E w n iif b p pkt_size =
     rbind (eth_dest b p) (\<lambda>dest_mac.
     if is_mac_broadcast_addr dest_mac then l2_switch_flood_pkt_out E w n iif b p pkt_size
     else
       case mac_table_entry_lookup (node_mac_table (nodes (topo w) n)) dest_mac of
         None \<Rightarrow> l2_switch_flood_pkt_out E w n iif b p pkt_size
       | Some mac_entry \<Rightarrow>
           rbind (l2_switch_send_pkt_out E w b p pkt_size
                   (get_node_if_by_name (topo w) n (mac_oif mac_entry))) (\<lambda>(_, w1, _). Inr w1))"

definition l2_switch_recv_frame :: "env \<Rightarrow> world \<Rightarrow> ifptr \<Rightarrow> bytes \<Rightarrow> nat \<Rightarrow> u32 \<Rightarrow> world res" where
  "l2_switch_recv_frame E w iif b p pkt_size =
     rbind (deref (att_node (iface (topo w) iif))) (\<lambda>n.
     rbind (eth_src b p) (\<lambda>smac.
     rbind (l2_switch_perform_mac_learning w n smac (if_name (iface (topo w) iif))) (\<lambda>w1.
     l2_switch_forward_frame E w1 n iif b p pkt_size)))"



section \<open>Transmission on well-formed graphs\<close>

definition transmit :: "world \<Rightarrow> ifptr \<Rightarrow> bytes \<Rightarrow> world" where
  "transmit w q pkt = w\<lparr>sent := sent w @ [frame_dgram w q pkt]\<rparr>"

lemma transmit_frame [simp, frame_simps]:
  "topo (transmit w q pkt) = topo w" "reports (transmit w q pkt) = reports w"
  "sent (transmit w q pkt) = sent w @ [frame_dgram w q pkt]"
  by (simp_all add: transmit_def)

lemma frame_dgram_topo: "topo w' = topo w \<Longrightarrow> frame_dgram w' q pkt = frame_dgram w q pkt"
  by (simp add: frame_dgram_def)

lemma frame_dgram_sent: "frame_dgram (w\<lparr>sent := x\<rparr>) q pkt = frame_dgram w q pkt"
  by (simp add: frame_dgram_def)

lemma send_pkt_out_transmit:
  assumes "graph_wf (topo w)" and "fst q < n_links (topo w)"
    and "rd b p (unat k) = Inr pkt" and "unat k \<le> 2032"
  shows "send_pkt_out w b p k q = Inr (transmit w q pkt)"
proof -
  have r: "fst (remote_intf q) < n_links (topo w)" using assms(2) by simp
  obtain n where n: "att_node (iface (topo w) q) = Some n" by (rule graph_wf_att [OF assms(1,2)])
  obtain m where m: "att_node (iface (topo w) (remote_intf q)) = Some m" by (rule graph_wf_att [OF assms(1) r])
  show ?thesis
    unfolding transmit_def
    by (rule send_pkt_out_ok [OF _ n _ assms(3,4)])
      (use m graph_wf_iface [OF assms(1) r] in \<open>simp_all add: get_nbr_node_remote iface_wf_def\<close>)
qed

lemma send_pkt_out_topo:
  assumes "send_pkt_out w b p k q = Inr w'"
  shows "topo w' = topo w" "reports w' = reports w"
  using assms by (auto simp: send_pkt_out_def rbind_eq_Inr sendto_def Let_def split: option.splits)


section \<open>Which port may carry a VLAN\<close>

definition carries :: "interface \<Rightarrow> u16 \<Rightarrow> bool" where
  "carries i v \<longleftrightarrow> l2_mode i = TRUNK \<and> v \<in> set (vlans i) \<or> l2_mode i = ACCESS \<and> vlans i ! 0 = v"

text \<open>A tagged frame: addresses, tag, and what follows the tag.\<close>

definition tagged_frame :: "bytes \<Rightarrow> bytes \<Rightarrow> u16 \<Rightarrow> bytes \<Rightarrow> bytes" where
  "tagged_frame d s tci rest = d @ s @ le16 VLAN_TAG @ le16 tci @ rest"

definition frame_at :: "bytes \<Rightarrow> nat \<Rightarrow> bytes \<Rightarrow> bytes \<Rightarrow> u16 \<Rightarrow> bytes \<Rightarrow> bool" where
  "frame_at b p d s tci rest \<longleftrightarrow>
     length d = 6 \<and> length s = 6 \<and> (\<exists>pre. length pre = p \<and> b = pre @ tagged_frame d s tci rest)"

lemma frame_at_fields:
  assumes "frame_at b p d s tci rest"
  shows "is_pkt_vlan_tagged b p = Inr True" "get_8021q_vlan_id b p = Inr (tci_vid tci)"
    "eth_dest b p = Inr d" "eth_src b p = Inr s"
  using assms by (auto simp: frame_at_def tagged_frame_def frame_fields frame_tci)

lemma frame_at_rd:
  assumes "frame_at b p d s tci rest" and "k \<le> length rest"
  shows "rd b p (16 + k) = Inr (tagged_frame d s tci (take k rest))"
proof -
  obtain pre where b: "length pre = p" "b = pre @ tagged_frame d s tci rest"
    and l: "length d = 6" "length s = 6" using assms(1) by (auto simp: frame_at_def)
  have e: "tagged_frame d s tci rest = tagged_frame d s tci (take k rest) @ drop k rest"
    by (simp add: tagged_frame_def)
  show ?thesis
    unfolding b(2) e by (rule rd_seg) (use b(1) l assms(2) in \<open>simp_all add: tagged_frame_def\<close>)
qed

lemma frame_at_untag:
  assumes "frame_at b p d s tci rest" and "k \<le> length rest"
  obtains b' where "untag_pkt_with_vlan_id b p n = Inr (b', p + 4, n)"
    and "rd b' (p + 4) (12 + k) = Inr (d @ s @ take k rest)"
    and "\<exists>pre. length pre = p \<and> b' = pre @ zeros 4 @ d @ s @ rest"
proof -
  obtain pre where b: "length pre = p" "b = pre @ tagged_frame d s tci rest"
    and l: "length d = 6" "length s = 6" using assms(1) by (auto simp: frame_at_def)
  have "rd ((pre @ zeros 4) @ (d @ s @ take k rest) @ drop k rest) (p + 4) (12 + k)
      = Inr (d @ s @ take k rest)"
    by (rule rd_seg) (use b(1) l assms(2) in simp_all)
  then have "rd (pre @ zeros 4 @ d @ s @ rest) (p + 4) (12 + k) = Inr (d @ s @ take k rest)"
    by simp
  moreover have "untag_pkt_with_vlan_id b p n = Inr (pre @ zeros 4 @ d @ s @ rest, p + 4, n)"
    unfolding b(2) tagged_frame_def by (rule untag_tagged) (use b(1) l in simp_all)
  ultimately show thesis using that b(1) by blast
qed

text \<open>VLAN isolation: what is sent, and that nothing is when the port does not carry the VLAN.\<close>

lemma l2_send_blocked:
  assumes "frame_at b p d s tci rest" and "\<not> is_ipadd_config (iface (topo w) q)"
    and "\<not> carries (iface (topo w) q) (tci_vid tci)"
  shows "l2_switch_send_pkt_out E w b p n (Some q) = Inr (False, w, b)"
  using assms(2,3)
  by (cases "l2_mode (iface (topo w) q)")
    (auto simp: l2_switch_send_pkt_out_def frame_at_fields [OF assms(1)] IS_INTF_L3_MODE_def Let_def
      carries_def is_trunk_interface_vlan_member_def get_access_intf_operating_vlan_id_def)

lemma l2_send_trunk:
  assumes "frame_at b p d s tci rest" and "\<not> is_ipadd_config (iface (topo w) q)"
    and "carries (iface (topo w) q) (tci_vid tci)" and "l2_mode (iface (topo w) q) = TRUNK"
    and "graph_wf (topo w)" "fst q < n_links (topo w)"
    and "unat n = 16 + k" "k \<le> length rest" "unat n \<le> 2032"
  shows "l2_switch_send_pkt_out E w b p n (Some q) =
    Inr (True, transmit w q (tagged_frame d s tci (take k rest)), b)"
  using assms(2-4) frame_at_rd [OF assms(1,8)] assms(7)
    send_pkt_out_transmit [OF assms(5,6) _ assms(9), of b p]
  by (auto simp: l2_switch_send_pkt_out_def frame_at_fields [OF assms(1)] IS_INTF_L3_MODE_def Let_def
      carries_def is_trunk_interface_vlan_member_def)

lemma l2_send_access:
  assumes "frame_at b p d s tci rest" and "\<not> is_ipadd_config (iface (topo w) q)"
    and "carries (iface (topo w) q) (tci_vid tci)" and "l2_mode (iface (topo w) q) = ACCESS"
    and "graph_wf (topo w)" "fst q < n_links (topo w)"
    and "unat n = 12 + k" "k \<le> length rest" "unat n \<le> 2032"
  obtains b' where "l2_switch_send_pkt_out E w b p n (Some q) =
      Inr (True, transmit w q (d @ s @ take k rest), b')"
    and "\<exists>pre. length pre = p \<and> b' = pre @ zeros 4 @ d @ s @ rest"
proof -
  obtain b' where b': "untag_pkt_with_vlan_id b p n = Inr (b', p + 4, n)"
    "rd b' (p + 4) (12 + k) = Inr (d @ s @ take k rest)"
    "\<exists>pre. length pre = p \<and> b' = pre @ zeros 4 @ d @ s @ rest"
    by (rule frame_at_untag [OF assms(1,8)])
  have "l2_switch_send_pkt_out E w b p n (Some q) = Inr (True, transmit w q (d @ s @ take k rest), b')"
    using assms(2-4,7) b'(1,2) send_pkt_out_transmit [OF assms(5,6) _ assms(9), of b' "p + 4"]
    by (auto simp: l2_switch_send_pkt_out_def frame_at_fields [OF assms(1)] IS_INTF_L3_MODE_def Let_def
        carries_def get_access_intf_operating_vlan_id_def)
  then show thesis using that b'(3) by blast
qed



section \<open>Flooding\<close>

definition transmit_all :: "world \<Rightarrow> ifptr list \<Rightarrow> bytes \<Rightarrow> world" where
  "transmit_all w qs pkt = w\<lparr>sent := sent w @ map (\<lambda>q. frame_dgram w q pkt) qs\<rparr>"

lemma transmit_all_frame [simp, frame_simps]:
  "topo (transmit_all w qs pkt) = topo w" "reports (transmit_all w qs pkt) = reports w"
  "sent (transmit_all w qs pkt) = sent w @ map (\<lambda>q. frame_dgram w q pkt) qs"
  by (simp_all add: transmit_all_def)

lemma transmit_all_simps [simp]:
  "transmit_all w [] pkt = w"
  "transmit_all (transmit w q pkt) qs pkt = transmit_all w (q # qs) pkt"
  by (simp_all add: transmit_all_def transmit_def frame_dgram_def)

text \<open>Ports that get the frame in a flood: not the one it came from, and carrying its VLAN.\<close>

definition flood_ports :: "graph \<Rightarrow> ifptr \<Rightarrow> u16 \<Rightarrow> ifptr list \<Rightarrow> ifptr list" where
  "flood_ports g iif v ps = filter (\<lambda>q. q \<noteq> iif \<and> carries (iface g q) v) ps"

definition only_trunks :: "graph \<Rightarrow> ifptr \<Rightarrow> u16 \<Rightarrow> ifptr list \<Rightarrow> bool" where
  "only_trunks g iif v ps \<longleftrightarrow> (\<forall>q \<in> set (flood_ports g iif v ps). l2_mode (iface g q) = TRUNK)"

lemma no_ip_in_l2: "intf_cfg_ok i \<Longrightarrow> l2_mode i \<noteq> L2_MODE_UNKNOWN \<Longrightarrow> \<not> is_ipadd_config i"
  by (auto simp: intf_cfg_ok_def)

lemma carries_known: "carries i v \<Longrightarrow> l2_mode i \<noteq> L2_MODE_UNKNOWN"
  by (auto simp: carries_def)

text \<open>As long as no access port takes the frame, each port that carries its VLAN gets a copy.\<close>

lemma flood_prefix:
  assumes fr: "frame_at b p d s tci rest"
    and n: "unat n = 16 + k" "k \<le> length rest" "unat n \<le> 2032"
    and wf: "graph_wf (topo w)"
    and ps: "\<forall>q \<in> set ps. fst q < n_links (topo w) \<and> intf_cfg_ok (iface (topo w) q)"
    and tr: "only_trunks (topo w) iif (tci_vid tci) ps"
  shows "l2_flood_loop E iif p n (map Some ps @ ss) w b =
    l2_flood_loop E iif p n ss
      (transmit_all w (flood_ports (topo w) iif (tci_vid tci) ps) (tagged_frame d s tci (take k rest))) b"
  using wf ps tr
proof (induction ps arbitrary: w)
  case Nil
  then show ?case by (simp add: flood_ports_def)
next
  case (Cons q ps)
  let ?i = "iface (topo w) q"
  have q: "fst q < n_links (topo w)" "intf_cfg_ok ?i" using Cons.prems(2) by auto
  have tr: "only_trunks (topo w) iif (tci_vid tci) ps"
    using Cons.prems(3) by (auto simp: only_trunks_def flood_ports_def)
  have rest: "\<forall>q \<in> set ps. fst q < n_links (topo w) \<and> intf_cfg_ok (iface (topo w) q)"
    using Cons.prems(2) by simp
  note IH = Cons.IH [of w, OF Cons.prems(1) rest tr]
  show ?case
  proof (cases "q = iif \<or> l2_mode ?i = L2_MODE_UNKNOWN")
    case True
    then show ?thesis using IH by (auto simp: flood_ports_def dest: carries_known)
  next
    case False
    then have ni: "\<not> is_ipadd_config ?i" using no_ip_in_l2 [OF q(2)] by simp
    show ?thesis
    proof (cases "carries ?i (tci_vid tci)")
      case True
      then have "l2_mode ?i = TRUNK"
        using Cons.prems(3) False by (simp add: only_trunks_def flood_ports_def)
      note send = l2_send_trunk [OF fr ni True this Cons.prems(1) q(1) n, of E]
      let ?w = "transmit w q (tagged_frame d s tci (take k rest))"
      have "l2_flood_loop E iif p n (map Some ps @ ss) ?w b = l2_flood_loop E iif p n ss
        (transmit_all ?w (flood_ports (topo w) iif (tci_vid tci) ps) (tagged_frame d s tci (take k rest))) b"
        using Cons.IH [of ?w] Cons.prems(1) rest tr by simp
      then show ?thesis using False True send by (simp add: flood_ports_def)
    next
      case nc: False
      show ?thesis
        using False nc IH l2_send_blocked [OF fr ni nc] by (simp add: flood_ports_def)
    qed
  qed
qed

text \<open>Once untagging has rewritten the buffer, the VLAN of what is left there is whatever the
  uninitialised variable holds, and ports that do not carry that value get nothing.\<close>

lemma flood_damaged:
  assumes "is_pkt_vlan_tagged b p = Inr False"
    and "\<forall>q \<in> set ps. intf_cfg_ok (iface (topo w) q) \<and> \<not> carries (iface (topo w) q) (uninit_vlan E w)"
  shows "l2_flood_loop E iif p n (map Some ps @ replicate k None) w b = Inr (w, b)"
  using assms(2)
proof (induction ps)
  case Nil
  show ?case by (induction k) simp_all
next
  case (Cons q ps)
  have "l2_mode (iface (topo w) q) \<noteq> L2_MODE_UNKNOWN \<Longrightarrow>
      l2_switch_send_pkt_out E w b p n (Some q) = Inr (False, w, b)"
    using Cons.prems assms(1) no_ip_in_l2 [of "iface (topo w) q"]
    by (cases "l2_mode (iface (topo w) q)")
      (auto simp: l2_switch_send_pkt_out_def IS_INTF_L3_MODE_def Let_def carries_def
        is_trunk_interface_vlan_member_def get_access_intf_operating_vlan_id_def)
  then show ?case using Cons by simp
qed

lemma untagged_residue:
  assumes "length pre = p" "length d = 6" "length s = 6"
    and "of_le16 (take 2 (drop 2 s)) \<noteq> VLAN_TAG"
  shows "is_pkt_vlan_tagged (pre @ zeros 4 @ d @ s @ rest) p = Inr False"
proof -
  have e: "pre @ zeros 4 @ d @ s @ rest = (pre @ zeros 4 @ d @ take 2 s) @ take 2 (drop 2 s) @ drop 4 s @ rest"
    using append_take_drop_id [of 2 s] append_take_drop_id [of 2 "drop 2 s"] by (simp add: ac_simps)
  have "rd (pre @ zeros 4 @ d @ s @ rest) (p + 12) 2 = Inr (take 2 (drop 2 s))"
    unfolding e by (rule rd_seg) (simp_all add: assms)
  then show ?thesis using assms(4) by (simp add: is_pkt_vlan_tagged_def eth_type_def rd16_def)
qed

lemma flood_access_first:
  assumes fr: "frame_at b p d s tci rest"
    and n: "unat n = 16 + k" "k + 4 \<le> length rest" "unat n \<le> 2032"
    and wf: "graph_wf (topo w)"
    and ps: "\<forall>q \<in> set (xs @ q # ys). fst q < n_links (topo w) \<and> intf_cfg_ok (iface (topo w) q)"
    and tr: "only_trunks (topo w) iif (tci_vid tci) xs"
    and q: "q \<noteq> iif" "carries (iface (topo w) q) (tci_vid tci)" "l2_mode (iface (topo w) q) = ACCESS"
    and tag: "of_le16 (take 2 (drop 2 s)) \<noteq> VLAN_TAG"
    and ys: "\<forall>w'. topo w' = topo w \<longrightarrow> (\<forall>r \<in> set ys. \<not> carries (iface (topo w) r) (uninit_vlan E w'))"
  shows "\<exists>b'. l2_flood_loop E iif p n (map Some (xs @ q # ys) @ replicate j None) w b =
    Inr (transmit (transmit_all w (flood_ports (topo w) iif (tci_vid tci) xs) (tagged_frame d s tci (take k rest)))
           q (d @ s @ take (k + 4) rest), b')"
proof -
  let ?w = "transmit_all w (flood_ports (topo w) iif (tci_vid tci) xs) (tagged_frame d s tci (take k rest))"
  have ni: "\<not> is_ipadd_config (iface (topo ?w) q)" using ps q(3) no_ip_in_l2 by simp
  obtain b' where b': "l2_switch_send_pkt_out E ?w b p n (Some q) =
      Inr (True, transmit ?w q (d @ s @ take (k + 4) rest), b')"
    and dam: "\<exists>pre. length pre = p \<and> b' = pre @ zeros 4 @ d @ s @ rest"
    by (rule l2_send_access [OF fr ni, of n "k + 4" E]) (use q wf ps n in simp_all)
  have unt: "is_pkt_vlan_tagged b' p = Inr False"
    using dam fr tag untagged_residue by (auto simp: frame_at_def)
  have pre: "l2_flood_loop E iif p n (map Some xs @ (Some q # map Some ys @ replicate j None)) w b =
     l2_flood_loop E iif p n (Some q # map Some ys @ replicate j None) ?w b"
    by (rule flood_prefix [OF fr n(1) _ n(3) wf _ tr]) (use ps n in auto)
  let ?w2 = "transmit ?w q (d @ s @ take (k + 4) rest)"
  have "l2_flood_loop E iif p n (map Some ys @ replicate j None) ?w2 b' = Inr (?w2, b')"
    by (rule flood_damaged [OF unt]) (use ps ys in auto)
  then show ?thesis
    using pre b' q by simp
qed



section \<open>Learned ports\<close>

definition learned :: "world \<Rightarrow> nid \<Rightarrow> bytes \<Rightarrow> string \<Rightarrow> world" where
  "learned w n smac name = w\<lparr>topo := upd_node (topo w) n
     (\<lambda>nd. nd\<lparr>node_mac_table := mac_learn (node_mac_table nd) smac name\<rparr>)\<rparr>"

lemma mac_learning_learned:
  "length name < IF_NAME_SIZE \<Longrightarrow> l2_switch_perform_mac_learning w n smac name = Inr (learned w n smac name)"
  by (simp add: l2_switch_perform_mac_learning_def strcpy_to_def learned_def)

lemma learned_frame [simp, frame_simps]:
  "sent (learned w n smac name) = sent w" "reports (learned w n smac name) = reports w"
  "iface (topo (learned w n smac name)) q = iface (topo w) q"
  "n_nodes (topo (learned w n smac name)) = n_nodes (topo w)"
  "n_links (topo (learned w n smac name)) = n_links (topo w)"
  "intf (nodes (topo (learned w n smac name)) m) = intf (nodes (topo w) m)"
  "node_mac_table (nodes (topo (learned w n smac name)) n) =
     mac_learn (node_mac_table (nodes (topo w) n)) smac name"
  by (simp_all add: learned_def)

lemma config_ok_learned:
  assumes "config_ok (topo w)" "length smac = 6"
  shows "config_ok (topo (learned w n smac name))"
proof -
  have "config_ok (upd_node (topo w) n (\<lambda>nd. nd\<lparr>node_mac_table := mac_learn (node_mac_table nd) smac name\<rparr>))"
    using assms
    by (intro config_ok_upd_node)
      (auto simp: node_cfg_ok_def mact.inv_learn mac_len_ok_def)
  then show ?thesis by (simp add: learned_def)
qed

lemma if_by_name_frame:
  "intf (nodes g' n) = intf (nodes g n) \<Longrightarrow> (\<And>q. iface g' q = iface g q) \<Longrightarrow>
     get_node_if_by_name g' n nm = get_node_if_by_name g n nm"
  by (simp add: get_node_if_by_name_def)

text \<open>A frame to an address on the table goes to the port of the entry and nowhere else.\<close>

lemma forward_known:
  assumes "eth_dest b p = Inr d" and "d \<noteq> broadcast_mac"
    and "mac_port (node_mac_table (nodes (topo w) n)) d = Some nm"
    and "get_node_if_by_name (topo w) n nm = Some q"
  shows "l2_switch_forward_frame E w n iif b p k =
    rbind (l2_switch_send_pkt_out E w b p k (Some q)) (\<lambda>(_, w1, _). Inr w1)"
  using assms by (auto simp: l2_switch_forward_frame_def is_mac_broadcast_addr_def mac_port_def)

lemma forward_unknown:
  assumes "eth_dest b p = Inr d"
    and "d = broadcast_mac \<or> mac_port (node_mac_table (nodes (topo w) n)) d = None"
  shows "l2_switch_forward_frame E w n iif b p k = l2_switch_flood_pkt_out E w n iif b p k"
  using assms by (auto simp: l2_switch_forward_frame_def is_mac_broadcast_addr_def mac_port_def)

lemma recv_frame_learned:
  assumes "att_node (iface (topo w) iif) = Some n" and "eth_src b p = Inr smac"
    and "length (if_name (iface (topo w) iif)) < IF_NAME_SIZE"
  shows "l2_switch_recv_frame E w iif b p k =
    l2_switch_forward_frame E (learned w n smac (if_name (iface (topo w) iif))) n iif b p k"
  using assms by (simp add: l2_switch_recv_frame_def mac_learning_learned)

lemma forward_learned:
  assumes ok: "config_ok (topo w)" and n: "n < n_nodes (topo w)"
    and q: "q \<in> set (node_intfs (topo w) n)"
    and uniq: "inj_on (\<lambda>r. if_name (iface (topo w) r)) (set (node_intfs (topo w) n))"
    and d: "eth_dest b p = Inr d" "length d = 6" "d \<noteq> broadcast_mac"
  shows "l2_switch_forward_frame E (learned w n d (if_name (iface (topo w) q))) n iif b p k =
    rbind (l2_switch_send_pkt_out E (learned w n d (if_name (iface (topo w) q))) b p k (Some q))
      (\<lambda>(_, w1, _). Inr w1)"
proof (rule forward_known [OF d(1,3)])
  note wn = graph_wf_node [OF config_ok_wf [OF ok] n]
  let ?nm = "if_name (iface (topo w) q)"
  have "mac_table_ok (node_mac_table (nodes (topo w) n))"
    using config_ok_node [OF ok n] by (simp add: node_cfg_ok_def)
  then show "mac_port (node_mac_table (nodes (topo (learned w n d ?nm)) n)) d = Some ?nm"
    using mact.lookup_learn d(2) by (simp add: mac_len_ok_def)
  show "get_node_if_by_name (topo (learned w n d ?nm)) n ?nm = Some q"
    using get_node_if_by_name_self [OF wn q uniq] if_by_name_frame [of "topo (learned w n d ?nm)" n "topo w"]
    by simp
qed

section \<open>Properties\<close>

text \<open>A switch for examples: the first node of the example graph, its port set to VLAN 10.\<close>

definition example_switch :: world where
  "example_switch = example_world\<lparr>topo := node_set_intf_vlan_membership example_graph 0 ''eth0'' 10\<rparr>"

definition example_env :: env where
  "example_env = \<lparr>uninit_vlan = (\<lambda>_. 0), uninit_tag = (\<lambda>_. 0), uninit_addr = (\<lambda>_. 0), asleep = (\<lambda>w. w)\<rparr>"

lemma configured_switch: "configured (topo example_switch)"
proof -
  have "config_step example_graph (node_set_intf_vlan_membership example_graph 0 ''eth0'' 10)"
    by (rule config_step.add_vlan) (simp add: graph_wf_example)
  then show ?thesis using configured_step [OF configured_example] by (simp add: example_switch_def)
qed

lemma switch_port:
  "n_nodes (topo example_switch) = 2" "n_links (topo example_switch) = 1"
  "node_intfs (topo example_switch) 0 = [(0, Intf1)]"
  "if_name (iface (topo example_switch) (0, Intf1)) = ''eth0''"
  "l2_mode (iface (topo example_switch) (0, Intf1)) = ACCESS"
  "vlans (iface (topo example_switch) (0, Intf1)) = [10, 0, 0, 0, 0, 0, 0, 0, 0, 0]"
  "\<not> is_ipadd_config (iface (topo example_switch) (0, Intf1))"
proof -
  have wf: "node_wf example_graph 0" by (rule graph_wf_node [OF graph_wf_example(1)]) (simp add: graph_wf_example)
  have g: "get_node_if_by_name example_graph 0 ''eth0'' = Some (0, Intf1)"
    by (simp add: get_node_if_by_name_find [OF wf] node_intfs_example)
  have t: "topo example_switch = upd_iface example_graph (0, Intf1) (interface_set_vlan 10)"
    by (simp add: example_switch_def node_set_intf_vlan_membership_def on_named_intf_def g)
  obtain h where h: "iface example_graph (0, Intf1) = fresh_intf h 0 ''eth0''"
    using node_intfs_example(5) by blast
  have z: "replicate MAX_VLAN_MEMBERSHIP (0 :: u16) = [0, 0, 0, 0, 0, 0, 0, 0, 0, 0]"
    by (simp add: MAX_VLAN_MEMBERSHIP_def numeral_eq_Suc)
  show "n_nodes (topo example_switch) = 2" "n_links (topo example_switch) = 1"
    "node_intfs (topo example_switch) 0 = [(0, Intf1)]"
    "if_name (iface (topo example_switch) (0, Intf1)) = ''eth0''"
    "l2_mode (iface (topo example_switch) (0, Intf1)) = ACCESS"
    "vlans (iface (topo example_switch) (0, Intf1)) = [10, 0, 0, 0, 0, 0, 0, 0, 0, 0]"
    "\<not> is_ipadd_config (iface (topo example_switch) (0, Intf1))"
    using node_intfs_example(1)
    by (simp_all add: t graph_wf_example h node_intfs_def interface_set_vlan_def IS_INTF_L3_MODE_def z
        strncpy_term_def IF_NAME_SIZE_def)
qed

text \<open>C18: which frames an interface lets in, and what it stores for tagging: an access port takes
  untagged frames and those tagged with its VLAN, a trunk takes frames tagged with one of
  its VLANs, and stores nothing, an interface with an address takes untagged frames to its
  own MAC or to all, and one in no mode nothing.\<close>

theorem frame_admission:
  assumes "intf_cfg_ok i" and "length pre = p" "length d = 6" "length s = 6"
  shows "l2_frame_recv_qualify_on_interface i (pre @ d @ s @ le16 t @ le16 c @ rest) p =
    Inr (case l2_mode i of
           ACCESS \<Rightarrow> (if t = VLAN_TAG \<and> tci_vid c \<noteq> vlans i ! 0 then (False, None)
                      else (True, Some (vlans i ! 0)))
         | TRUNK \<Rightarrow> (t = VLAN_TAG \<and> tci_vid c \<in> set (vlans i), None)
         | L2_MODE_UNKNOWN \<Rightarrow>
             (is_ipadd_config i \<and> t \<noteq> VLAN_TAG \<and> (d = if_mac i \<or> d = broadcast_mac), None))"
  using assms(1) frame_fields [OF assms(2-4), of t] frame_tci [OF assms(2-4), of t c rest]
  by (cases "l2_mode i"; cases "is_ipadd_config i"; cases "t = VLAN_TAG")
    (auto simp: l2_frame_recv_qualify_on_interface_def IS_INTF_L3_MODE_def intf_cfg_ok_def Let_def
      get_access_intf_operating_vlan_id_def is_trunk_interface_vlan_member_def is_mac_broadcast_addr_def)

lemma frame_admission_witness:
  "l2_frame_recv_qualify_on_interface (iface (topo example_switch) (0, Intf1))
     ([] @ broadcast_mac @ [1, 2, 3, 4, 0, 0] @ le16 VLAN_TAG @ le16 (tci_set_vid 0 11) @ []) 0 = Inr (False, None)"
proof -
  have c: "intf_cfg_ok (iface (topo example_switch) (0, Intf1))"
    using switch_port by (simp add: intf_cfg_ok_def)
  show ?thesis
    using frame_admission [OF c, of "[]" 0 broadcast_mac "[1, 2, 3, 4, 0, 0]" VLAN_TAG "tci_set_vid 0 11" "[]"]
      switch_port by (simp add: broadcast_mac_def tci_vid_set)
qed

text \<open>C12: VLAN isolation: the switch sends a tagged frame out of a port exactly if the port carries
  the frame's VLAN: unchanged on a trunk; on an access port without its tag, but with four
  more bytes of the buffer at the end; a port that does not carry the VLAN stays silent.\<close>

theorem vlan_isolation:
  assumes fr: "frame_at b p d s tci rest" and ok: "config_ok (topo w)" and q: "fst q < n_links (topo w)"
    and mode: "l2_mode (iface (topo w) q) \<noteq> L2_MODE_UNKNOWN"
    and n: "unat n = 16 + k" "k + 4 \<le> length rest" "unat n \<le> 2032"
  shows "\<exists>b'. l2_switch_send_pkt_out E w b p n (Some q) =
    Inr (if \<not> carries (iface (topo w) q) (tci_vid tci) then (False, w, b)
         else if l2_mode (iface (topo w) q) = TRUNK
              then (True, transmit w q (tagged_frame d s tci (take k rest)), b)
              else (True, transmit w q (d @ s @ take (k + 4) rest), b'))"
proof -
  note wf = config_ok_wf [OF ok]
  have ni: "\<not> is_ipadd_config (iface (topo w) q)" by (rule no_ip_in_l2 [OF config_ok_intf [OF ok q] mode])
  show ?thesis
  proof (cases "carries (iface (topo w) q) (tci_vid tci)")
    case False
    then show ?thesis using l2_send_blocked [OF fr ni] by simp
  next
    case True
    show ?thesis
    proof (cases "l2_mode (iface (topo w) q) = TRUNK")
      case tr: True
      then show ?thesis using True l2_send_trunk [OF fr ni True tr wf q n(1) _ n(3)] n(2) by simp
    next
      case False
      then have ac: "l2_mode (iface (topo w) q) = ACCESS" using True by (auto simp: carries_def)
      obtain b' where "l2_switch_send_pkt_out E w b p n (Some q) =
          Inr (True, transmit w q (d @ s @ take (k + 4) rest), b')"
        by (rule l2_send_access [OF fr ni True ac wf q, of n "k + 4" E]) (use n in simp_all)
      then show ?thesis using True False by simp
    qed
  qed
qed

lemma vlan_isolation_witness:
  "l2_switch_send_pkt_out example_env example_switch
     (tagged_frame broadcast_mac [1, 2, 3, 4, 0, 0] (tci_set_vid 0 11) (zeros 10)) 0 16 (Some (0, Intf1)) =
   Inr (False, example_switch, tagged_frame broadcast_mac [1, 2, 3, 4, 0, 0] (tci_set_vid 0 11) (zeros 10))"
proof -
  let ?b = "tagged_frame broadcast_mac [1, 2, 3, 4, 0, 0] (tci_set_vid 0 11) (zeros 10)"
  have f: "frame_at ?b 0 broadcast_mac [1, 2, 3, 4, 0, 0] (tci_set_vid 0 11) (zeros 10)"
    by (simp add: frame_at_def broadcast_mac_def)
  have m: "l2_mode (iface (topo example_switch) (0, Intf1)) \<noteq> L2_MODE_UNKNOWN"
    using switch_port by simp
  have c: "\<not> carries (iface (topo example_switch) (0, Intf1)) (tci_vid (tci_set_vid 0 11))"
    using switch_port by (simp add: carries_def tci_vid_set)
  show ?thesis
    using vlan_isolation [OF f configured_ok [OF configured_switch] _ m, of 16 0 example_env] c switch_port
    by simp
qed

text \<open>After a frame from an address came in on a port, a frame to that address leaves on that
  port and on no other, whatever port it came in on.\<close>

theorem learned_address_is_not_flooded:
  assumes ok: "config_ok (topo w)" and n: "n < n_nodes (topo w)"
    and q: "q \<in> set (node_intfs (topo w) n)"
    and uniq: "inj_on (\<lambda>r. if_name (iface (topo w) r)) (set (node_intfs (topo w) n))"
    and src: "eth_src b p = Inr m" and m: "m \<noteq> broadcast_mac"
    and dst: "eth_dest b' p' = Inr m"
  shows "\<exists>w1. l2_switch_recv_frame E w q b p k = l2_switch_forward_frame E w1 n q b p k \<and>
    l2_switch_forward_frame E w1 n iif b' p' k' =
      rbind (l2_switch_send_pkt_out E w1 b' p' k' (Some q)) (\<lambda>(_, w2, _). Inr w2)"
proof -
  note wn = graph_wf_node [OF config_ok_wf [OF ok] n]
  have a: "att_node (iface (topo w) q) = Some n" "fst q < n_links (topo w)"
    using node_wf_props(3) [OF wn q] by auto
  have l: "length (if_name (iface (topo w) q)) < IF_NAME_SIZE"
    using graph_wf_iface [OF config_ok_wf [OF ok] a(2)] by (simp add: iface_wf_def fits_def)
  have "length m = 6" using dst rd_InrD unfolding eth_dest_def by blast
  then show ?thesis
    using recv_frame_learned [OF a(1) src l, of E k] forward_learned [OF ok n q uniq dst _ m, of E iif k']
    by blast
qed

lemma learned_address_is_not_flooded_witness:
  "\<exists>w1. l2_switch_recv_frame example_env example_switch (0, Intf1)
       ([] @ broadcast_mac @ [1, 2, 3, 4, 0, 0] @ le16 IP_PROTO @ []) 0 14 =
     l2_switch_forward_frame example_env w1 0 (0, Intf1)
       ([] @ broadcast_mac @ [1, 2, 3, 4, 0, 0] @ le16 IP_PROTO @ []) 0 14 \<and>
    l2_switch_forward_frame example_env w1 0 (0, Intf2)
       ([] @ [1, 2, 3, 4, 0, 0] @ [5, 6, 7, 8, 0, 0] @ le16 IP_PROTO @ []) 0 14 =
     rbind (l2_switch_send_pkt_out example_env w1
       ([] @ [1, 2, 3, 4, 0, 0] @ [5, 6, 7, 8, 0, 0] @ le16 IP_PROTO @ []) 0 14 (Some (0, Intf1)))
       (\<lambda>(_, w2, _). Inr w2)"
proof (rule learned_address_is_not_flooded [OF configured_ok [OF configured_switch]])
  have l: "length broadcast_mac = 6" by (simp add: broadcast_mac_def)
  show "eth_src ([] @ broadcast_mac @ [1, 2, 3, 4, 0, 0] @ le16 IP_PROTO @ []) 0 = Inr [1, 2, 3, 4, 0, 0]"
    by (rule frame_fields) (simp_all add: l)
  show "eth_dest ([] @ [1, 2, 3, 4, 0, 0] @ [5, 6, 7, 8, 0, 0] @ le16 IP_PROTO @ []) 0 = Inr [1, 2, 3, 4, 0, 0]"
    by (rule frame_fields) simp_all
  show "[1, 2, 3, 4, 0, 0] \<noteq> broadcast_mac" by (simp add: broadcast_mac_list)
qed (simp_all add: switch_port)

text \<open>A flood that meets no access port of the frame's VLAN sends one unchanged copy out of
  each trunk port that carries the VLAN, except the one the frame came from, in slot order.\<close>

theorem flood_reaches_trunks:
  assumes fr: "frame_at b p d s tci rest" and ok: "config_ok (topo w)" and sw: "n < n_nodes (topo w)"
    and n: "unat k = 16 + j" "j \<le> length rest" "unat k \<le> 2032"
    and tr: "only_trunks (topo w) iif (tci_vid tci) (node_intfs (topo w) n)"
  shows "l2_switch_flood_pkt_out E w n iif b p k =
    Inr (transmit_all w (filter (\<lambda>q. q \<noteq> iif \<and> carries (iface (topo w) q) (tci_vid tci)) (node_intfs (topo w) n))
           (tagged_frame d s tci (take j rest)))"
proof -
  note wn = graph_wf_node [OF config_ok_wf [OF ok] sw]
  have ps: "\<forall>q \<in> set (node_intfs (topo w) n). fst q < n_links (topo w) \<and> intf_cfg_ok (iface (topo w) q)"
    using node_wf_props(3) [OF wn] config_ok_intf [OF ok] by blast
  have none: "l2_flood_loop E iif p k (replicate m None) w' b = Inr (w', b)" for m w'
    by (induction m) simp_all
  show ?thesis
    using flood_prefix [OF fr n config_ok_wf [OF ok] ps tr] none
    by (simp add: l2_switch_flood_pkt_out_def node_wf_slots [OF wn] slots_def flood_ports_def)
qed

lemma flood_reaches_trunks_witness:
  "l2_switch_flood_pkt_out example_env example_switch 0 (0, Intf1)
     (tagged_frame broadcast_mac [1, 2, 3, 4, 0, 0] (tci_set_vid 0 10) (zeros 10)) 0 16 = Inr example_switch"
proof -
  have f: "frame_at (tagged_frame broadcast_mac [1, 2, 3, 4, 0, 0] (tci_set_vid 0 10) (zeros 10)) 0
      broadcast_mac [1, 2, 3, 4, 0, 0] (tci_set_vid 0 10) (zeros 10)"
    by (simp add: frame_at_def broadcast_mac_def)
  show ?thesis
    using flood_reaches_trunks [OF f configured_ok [OF configured_switch], of 0 16 0 "(0, Intf1)" example_env]
    by (simp add: switch_port only_trunks_def flood_ports_def)
qed



end
