(* ===== verification/Layer2.thy ===== *)
theory Layer2
  imports L2_Switch
begin

text \<open>
  The data link layer of a host (\<^verbatim>\<open>src/layer2/layer2.c\<close>): building, answering and using ARP
  messages, and sending an IP packet to its next hop.
\<close>

section \<open>ARP messages\<close>

text \<open>The writes into a zeroed buffer that make an ARP frame: addresses, type, payload, FCS.\<close>

definition fill_arp_frame :: "bytes \<Rightarrow> bytes \<Rightarrow> bytes \<Rightarrow> arp_packet \<Rightarrow> bytes res" where
  "fill_arp_frame buf dmac smac arp =
     rbind (wr buf 0 dmac) (\<lambda>b1.
     rbind (wr b1 6 smac) (\<lambda>b2.
     rbind (wr16 b2 12 ARP_PACKET) (\<lambda>b3.
     rbind (wr b3 ETH_HDR_SIZE (arp_bytes arp)) (\<lambda>b4.
     wr b4 (ETH_HDR_SIZE + ARP_PACKET_SIZE) (zeros 4)))))"

definition ARP_FRAME_SIZE :: u32 where
  "ARP_FRAME_SIZE = of_nat (ETH_HDR_SIZE + ARP_PACKET_SIZE + 4)"

definition arp_request_on :: "world \<Rightarrow> ifptr \<Rightarrow> string \<Rightarrow> world res" where
  "arp_request_on w oif ip_addr =
     (let i = iface (topo w) oif;
          src_ip_l = convert_ip_from_str_to_int (ip_add i);
          dst_ip_l = convert_ip_from_str_to_int ip_addr;
          arp = \<lparr>hw_type = ETH_HW, proto_type = IP_PROTO, hw_addr_len = ETH_HW_LEN,
                 proto_addr_len = IP_PROTO_LEN, op_code = ARP_REQUEST, src_mac = if_mac i,
                 src_ip = htonl src_ip_l, dst_mac = zeros 6, dst_ip = htonl dst_ip_l\<rparr>
      in
      rbind (fill_arp_frame (zeros (unat ARP_FRAME_SIZE)) broadcast_mac (if_mac i) arp) (\<lambda>eth_frame.
      send_pkt_out w eth_frame 0 ARP_FRAME_SIZE oif))"

definition send_arp_broadcast_request :: "world \<Rightarrow> nid \<Rightarrow> ifptr option \<Rightarrow> string \<Rightarrow> world res" where
  "send_arp_broadcast_request w n oif_ptr ip_addr =
     (case oif_ptr of
        Some oif \<Rightarrow> arp_request_on w oif ip_addr
      | None \<Rightarrow>
          rbind (node_get_matching_subnet_interface (topo w) n ip_addr) (\<lambda>r.
          case r of
            None \<Rightarrow> Inr w
          | Some oif \<Rightarrow>
              if ip_addr = ip_add (iface (topo w) oif) then Inr w
              else arp_request_on w oif ip_addr))"

definition send_arp_reply_msg :: "world \<Rightarrow> bytes \<Rightarrow> nat \<Rightarrow> ifptr \<Rightarrow> world res" where
  "send_arp_reply_msg w b p oif =
     rbind (rd_arp b (p + ETH_HDR_SIZE)) (\<lambda>arp_request.
     rbind (eth_src b p) (\<lambda>dmac.
     let smac = if_mac (iface (topo w) oif);
         arp_reply = \<lparr>hw_type = ETH_HW, proto_type = IP_PROTO, hw_addr_len = ETH_HW_LEN,
                      proto_addr_len = IP_PROTO_LEN, op_code = ARP_REPLY, src_mac = smac,
                      src_ip = dst_ip arp_request, dst_mac = src_mac arp_request,
                      dst_ip = src_ip arp_request\<rparr>
     in
     rbind (fill_arp_frame (zeros MAX_PACKET_BUFFER_SIZE) dmac smac arp_reply) (\<lambda>eth_frame_out.
     rbind (pkt_buffer_shift_right eth_frame_out ARP_FRAME_SIZE (of_nat MAX_PACKET_BUFFER_SIZE))
       (\<lambda>(shifted, off). send_pkt_out w shifted off ARP_FRAME_SIZE oif))))"

definition process_arp_broadcast_request :: "world \<Rightarrow> nid \<Rightarrow> ifptr \<Rightarrow> bytes \<Rightarrow> nat \<Rightarrow> world res" where
  "process_arp_broadcast_request w n iif b p =
     rbind (rd_arp b (p + ETH_HDR_SIZE)) (\<lambda>arp_packet.
     let target_ip = convert_ip_from_int_to_str (htonl (dst_ip arp_packet)) in
     if ip_add (iface (topo w) iif) \<noteq> target_ip then Inr w
     else send_arp_reply_msg w b p iif)"

definition process_arp_reply_message :: "world \<Rightarrow> nid \<Rightarrow> ifptr \<Rightarrow> bytes \<Rightarrow> nat \<Rightarrow> world res" where
  "process_arp_reply_message w n iif b p =
     rbind (rd_arp b (p + ETH_HDR_SIZE)) (\<lambda>arp_packet.
     rbind (arp_table_update_from_arp_reply (node_arp_table (nodes (topo w) n)) arp_packet
              (if_name (iface (topo w) iif))) (\<lambda>t.
     Inr (w\<lparr>topo := upd_node (topo w) n (\<lambda>nd. nd\<lparr>node_arp_table := t\<rparr>)\<rparr>)))"

text \<open>The callback for packets that wait for an address.\<close>

definition pending_arp_processing_callback_function ::
  "world \<Rightarrow> ifptr \<Rightarrow> arp_entry \<Rightarrow> arp_pending_entry \<Rightarrow> world res" where
  "pending_arp_processing_callback_function w oif e pend =
     rbind (wr (pend_pkt pend) 0 (arp_mac e)) (\<lambda>b1.
     rbind (wr b1 6 (if_mac (iface (topo w) oif))) (\<lambda>b2.
     rbind (get_eth_hdr_size_excl_payload b2 0) (\<lambda>hdr_size.
     rbind (set_common_eth_fcs b2 0 (pend_size pend - hdr_size) 0) (\<lambda>b3.
     send_pkt_out w b3 0 (pend_size pend) oif))))"


section \<open>Between layers 2 and 3\<close>

text \<open>
  The layers call each other in a cycle; \<open>promote\<close> stands for \<^verbatim>\<open>promote_pkt_to_layer3\<close>, which
  \<open>Layer3\<close> defines. The last debug line of \<^verbatim>\<open>promote_pkt_to_layer2\<close> gives the type to a
  \<^verbatim>\<open>%s\<close>, so with debugging on an unknown type is followed as a pointer.
\<close>

type_synonym promote_fun =
  "world \<Rightarrow> nid \<Rightarrow> ifptr option \<Rightarrow> bytes \<Rightarrow> nat \<Rightarrow> u32 \<Rightarrow> u16 \<Rightarrow> world res"

definition promote_pkt_to_layer2 ::
  "promote_fun \<Rightarrow> world \<Rightarrow> nid \<Rightarrow> ifptr \<Rightarrow> bytes \<Rightarrow> nat \<Rightarrow> u32 \<Rightarrow> world res" where
  "promote_pkt_to_layer2 promote w n iif b p pkt_size =
     rbind (eth_type b p) (\<lambda>ethertype.
     if ethertype = ARP_PACKET then
       rbind (rd_arp b (p + ETH_HDR_SIZE)) (\<lambda>arp_packet.
       if op_code arp_packet = ARP_REQUEST then process_arp_broadcast_request w n iif b p
       else if op_code arp_packet = ARP_REPLY then process_arp_reply_message w n iif b p
       else Inr w)
     else if ethertype = IP_PROTO then
       rbind (get_ethernet_frame_payload b p) (\<lambda>payload.
       rbind (get_eth_hdr_size_excl_payload b p) (\<lambda>hdr_size.
       promote w n (Some iif) b payload (pkt_size - hdr_size) ethertype))
     else if node_debug (nodes (topo w) n) = DEBUG_ON then Inl Null_deref
     else Inr w)"

definition is_layer3_local_delivery :: "graph \<Rightarrow> nid \<Rightarrow> u32 \<Rightarrow> bool" where
  "is_layer3_local_delivery g n dst =
     (let ip_addr = convert_ip_from_int_to_str dst in
      lb_addr (nodes g n) = ip_addr \<or>
      list_ex (\<lambda>s. case s of None \<Rightarrow> False
                   | Some q \<Rightarrow> IS_INTF_L3_MODE (iface g q) \<and> ip_add (iface g q) = ip_addr)
        (intf (nodes g n)))"

text \<open>The end of \<^verbatim>\<open>l2_forward_ip_packet\<close>: the addresses go into the header and the frame out.\<close>

definition l2_send_resolved ::
  "world \<Rightarrow> ifptr option \<Rightarrow> arp_entry \<Rightarrow> bytes \<Rightarrow> nat \<Rightarrow> u32 \<Rightarrow> world res" where
  "l2_send_resolved w oif_ptr e b p pkt_size =
     rbind (wr b p (arp_mac e)) (\<lambda>b1.
     rbind (deref oif_ptr) (\<lambda>oif.
     rbind (wr b1 (p + 6) (if_mac (iface (topo w) oif))) (\<lambda>b2.
     rbind (set_common_eth_fcs b2 p (pkt_size - of_nat ETH_HDR_SIZE) 0) (\<lambda>b3.
     send_pkt_out w b3 p pkt_size oif))))"

text \<open>
  \<^verbatim>\<open>l2_forward_ip_packet\<close>: the interface is a name or null. The loop asks for the address
  once, sleeps for 50 ms and looks again; without an answer the packet is dropped.
\<close>

definition l2_forward_ip_packet ::
  "env \<Rightarrow> promote_fun \<Rightarrow> world \<Rightarrow> nid \<Rightarrow> u32 \<Rightarrow> string option \<Rightarrow> bytes \<Rightarrow> nat \<Rightarrow> u32 \<Rightarrow> world res" where
  "l2_forward_ip_packet E promote w n next_hop_ip intf_name b p pkt_size =
     (let next_hop_ip_str = inet_ntop next_hop_ip in
      if intf_name = None \<and> is_layer3_local_delivery (topo w) n next_hop_ip then
        rbind (get_ethernet_frame_payload b p) (\<lambda>payload.
        rbind (get_eth_hdr_size_excl_payload b p) (\<lambda>hdr_size.
        rbind (eth_type b p) (\<lambda>type.
        promote w n None b payload (pkt_size - hdr_size) type)))
      else
        rbind (case intf_name of
                 None \<Rightarrow>
                   rbind (node_get_matching_subnet_interface (topo w) n next_hop_ip_str) (\<lambda>oif.
                   if node_debug (nodes (topo w) n) = DEBUG_ON \<and> oif = None then Inl Null_deref
                   else Inr oif)
               | Some name \<Rightarrow> Inr (get_node_if_by_name (topo w) n name)) (\<lambda>oif.
        case arp_table_lookup (node_arp_table (nodes (topo w) n)) next_hop_ip_str of
          Some e \<Rightarrow> l2_send_resolved w oif e b p pkt_size
        | None \<Rightarrow>
            rbind (send_arp_broadcast_request w n oif next_hop_ip_str) (\<lambda>w1.
            let w2 = asleep E w1 in
            case arp_table_lookup (node_arp_table (nodes (topo w2) n)) next_hop_ip_str of
              Some e \<Rightarrow> l2_send_resolved w2 oif e b p pkt_size
            | None \<Rightarrow> Inr w2)))"

text \<open>\<^verbatim>\<open>intf->if_name\<close> is the address of the first member: null for a null \<^verbatim>\<open>intf\<close>.\<close>

definition demote_pkt_to_layer2 ::
  "env \<Rightarrow> promote_fun \<Rightarrow> world \<Rightarrow> nid \<Rightarrow> u32 \<Rightarrow> ifptr option \<Rightarrow> bytes \<Rightarrow> nat \<Rightarrow> u32 \<Rightarrow> world res" where
  "demote_pkt_to_layer2 E promote w n next_hop_ip oif b p pkt_size =
     rbind (ALLOC_ETH_HDR_WITH_PAYLOAD b p pkt_size) (\<lambda>(b1, h).
     rbind (wr16 b1 (h + 12) IP_PROTO) (\<lambda>b2.
     l2_forward_ip_packet E promote w n next_hop_ip
       (map_option (\<lambda>q. if_name (iface (topo w) q)) oif) b2 h (of_nat ETH_HDR_SIZE + pkt_size)))"



section \<open>ARP frames\<close>

definition arp_frame :: "bytes \<Rightarrow> bytes \<Rightarrow> arp_packet \<Rightarrow> bytes" where
  "arp_frame d s a = d @ s @ le16 ARP_PACKET @ arp_bytes a @ zeros 4"

lemma length_arp_frame [simp]:
  "length d = 6 \<Longrightarrow> length s = 6 \<Longrightarrow> arp_packet_ok a \<Longrightarrow> length (arp_frame d s a) = 46"
  by (simp add: arp_frame_def length_arp_bytes)

lemma fill_arp_frame_ok:
  assumes "length d = 6" "length s = 6" "arp_packet_ok a"
  shows "fill_arp_frame (zeros (46 + r)) d s a = Inr (arp_frame d s a @ zeros r)"
proof -
  have z: "zeros (46 + r) = zeros 6 @ zeros 6 @ zeros 2 @ zeros 28 @ zeros 4 @ zeros r"
    by (simp add: zeros_def replicate_add [symmetric])
  have w: "wr ([] @ zeros 6 @ zeros 6 @ zeros 2 @ zeros 28 @ zeros 4 @ zeros r) 0 d
      = Inr ([] @ d @ zeros 6 @ zeros 2 @ zeros 28 @ zeros 4 @ zeros r)"
    "wr (d @ zeros 6 @ zeros 2 @ zeros 28 @ zeros 4 @ zeros r) 6 s
      = Inr (d @ s @ zeros 2 @ zeros 28 @ zeros 4 @ zeros r)"
    "wr ((d @ s) @ zeros 2 @ zeros 28 @ zeros 4 @ zeros r) 12 (le16 ARP_PACKET)
      = Inr ((d @ s) @ le16 ARP_PACKET @ zeros 28 @ zeros 4 @ zeros r)"
    "wr ((d @ s @ le16 ARP_PACKET) @ zeros 28 @ zeros 4 @ zeros r) 14 (arp_bytes a)
      = Inr ((d @ s @ le16 ARP_PACKET) @ arp_bytes a @ zeros 4 @ zeros r)"
    "wr ((d @ s @ le16 ARP_PACKET @ arp_bytes a) @ zeros 4 @ zeros r) 42 (zeros 4)
      = Inr ((d @ s @ le16 ARP_PACKET @ arp_bytes a) @ zeros 4 @ zeros r)"
    by (rule wr_seg; simp add: assms length_arp_bytes)+
  have c: "ETH_HDR_SIZE = 14" "14 + ARP_PACKET_SIZE = 42"
    by (simp_all add: ETH_HDR_SIZE_def ARP_PACKET_SIZE_def)
  show ?thesis
    unfolding fill_arp_frame_def z wr16_def c arp_frame_def
    by (simp only: w [unfolded append_assoc append_Nil] rbind_Inr append_assoc)
qed

lemma arp_frame_fields:
  assumes "length pre = p" "length d = 6" "length s = 6" "arp_packet_ok a"
  shows "eth_dest (pre @ arp_frame d s a @ rest) p = Inr d"
    "eth_src (pre @ arp_frame d s a @ rest) p = Inr s"
    "eth_type (pre @ arp_frame d s a @ rest) p = Inr ARP_PACKET"
    "is_pkt_vlan_tagged (pre @ arp_frame d s a @ rest) p = Inr False"
    "rd_arp (pre @ arp_frame d s a @ rest) (p + ETH_HDR_SIZE) = Inr a"
proof -
  have n: "ARP_PACKET \<noteq> VLAN_TAG" by (simp add: ARP_PACKET_def VLAN_TAG_def)
  have r: "rd ((pre @ d @ s @ le16 ARP_PACKET) @ arp_bytes a @ zeros 4 @ rest) (p + 14) 28 = Inr (arp_bytes a)"
    by (rule rd_seg) (use assms in \<open>simp_all add: length_arp_bytes\<close>)
  show "eth_dest (pre @ arp_frame d s a @ rest) p = Inr d"
    "eth_src (pre @ arp_frame d s a @ rest) p = Inr s"
    "eth_type (pre @ arp_frame d s a @ rest) p = Inr ARP_PACKET"
    "is_pkt_vlan_tagged (pre @ arp_frame d s a @ rest) p = Inr False"
    using frame_fields [OF assms(1-3), of ARP_PACKET "arp_bytes a @ zeros 4 @ rest"] n
    by (simp_all add: arp_frame_def)
  show "rd_arp (pre @ arp_frame d s a @ rest) (p + ETH_HDR_SIZE) = Inr a"
    using r assms(4) by (simp add: rd_arp_def arp_frame_def ETH_HDR_SIZE_def ARP_PACKET_SIZE_def)
qed

lemma arp_frame_size: "ARP_FRAME_SIZE = 46" "unat ARP_FRAME_SIZE = 46"
  by (simp_all add: ARP_FRAME_SIZE_def ETH_HDR_SIZE_def ARP_PACKET_SIZE_def)

definition arp_request_pkt :: "interface \<Rightarrow> u32 \<Rightarrow> arp_packet" where
  "arp_request_pkt i t =
     \<lparr>hw_type = ETH_HW, proto_type = IP_PROTO, hw_addr_len = ETH_HW_LEN,
      proto_addr_len = IP_PROTO_LEN, op_code = ARP_REQUEST, src_mac = if_mac i,
      src_ip = htonl (intf_addr i), dst_mac = zeros 6, dst_ip = htonl t\<rparr>"

definition arp_reply_pkt :: "interface \<Rightarrow> arp_packet \<Rightarrow> arp_packet" where
  "arp_reply_pkt i req =
     \<lparr>hw_type = ETH_HW, proto_type = IP_PROTO, hw_addr_len = ETH_HW_LEN,
      proto_addr_len = IP_PROTO_LEN, op_code = ARP_REPLY, src_mac = if_mac i,
      src_ip = dst_ip req, dst_mac = src_mac req, dst_ip = src_ip req\<rparr>"

lemma length_if_mac: "graph_wf g \<Longrightarrow> fst q < n_links g \<Longrightarrow> length (if_mac (iface g q)) = 6"
  using graph_wf_iface by (simp add: iface_wf_def)

text \<open>A request goes out as a broadcast frame that names sender and target.\<close>

lemma arp_request_on_sends:
  assumes "graph_wf (topo w)" "fst q < n_links (topo w)"
  shows "arp_request_on w q (inet_ntop t) =
    Inr (transmit w q (arp_frame broadcast_mac (if_mac (iface (topo w) q)) (arp_request_pkt (iface (topo w) q) t)))"
proof -
  let ?i = "iface (topo w) q"
  have l: "length broadcast_mac = 6" "length (if_mac ?i) = 6"
    using length_if_mac [OF assms] by (simp_all add: broadcast_mac_def)
  have ok: "arp_packet_ok (arp_request_pkt ?i t)"
    using l by (simp add: arp_packet_ok_def arp_request_pkt_def)
  let ?f = "arp_frame broadcast_mac (if_mac ?i) (arp_request_pkt ?i t)"
  have f: "fill_arp_frame (zeros 46) broadcast_mac (if_mac ?i) (arp_request_pkt ?i t) = Inr ?f"
    using fill_arp_frame_ok [OF l ok, of 0] by (simp add: zeros_def)
  have "rd ?f 0 46 = Inr ?f"
    using rd_seg [of 0 "[]" 46 ?f "[]"] l ok by simp
  then have "send_pkt_out w ?f 0 ARP_FRAME_SIZE q = Inr (transmit w q ?f)"
    by (intro send_pkt_out_transmit assms) (simp_all add: arp_frame_size)
  then show ?thesis
    using f by (simp add: arp_request_on_def Let_def arp_frame_size arp_request_pkt_def intf_addr_def)
qed

text \<open>A reply goes back to the sender of the request with the roles exchanged.\<close>

lemma arp_reply_sends:
  assumes wf: "graph_wf (topo w)" "fst q < n_links (topo w)"
    and l: "length d = 6" "length s = 6" "arp_packet_ok a"
  shows "send_arp_reply_msg w (pre @ arp_frame d s a @ rest) (length pre) q =
    Inr (transmit w q (arp_frame s (if_mac (iface (topo w) q)) (arp_reply_pkt (iface (topo w) q) a)))"
proof -
  let ?i = "iface (topo w) q"
  have m: "length (if_mac ?i) = 6" by (rule length_if_mac [OF wf])
  have ok: "arp_packet_ok (arp_reply_pkt ?i a)"
    using m l(3) by (simp add: arp_packet_ok_def arp_reply_pkt_def)
  let ?f = "arp_frame s (if_mac ?i) (arp_reply_pkt ?i a)"
  have f: "fill_arp_frame (zeros 2048) s (if_mac ?i) (arp_reply_pkt ?i a) = Inr (?f @ zeros 2002)"
    using fill_arp_frame_ok [OF l(2) m ok, of 2002] by simp
  have sh: "pkt_buffer_shift_right (?f @ zeros 2002 @ []) 46 2048 = Inr (zeros (length (zeros 2002)) @ ?f @ [], length (zeros 2002))"
    by (rule shift_right_ok) (use l m ok in simp_all)
  have "rd (zeros 2002 @ ?f @ []) 2002 46 = Inr ?f"
    by (rule rd_seg) (use l m ok in simp_all)
  then have "send_pkt_out w (zeros 2002 @ ?f) 2002 ARP_FRAME_SIZE q = Inr (transmit w q ?f)"
    by (intro send_pkt_out_transmit wf) (simp_all add: arp_frame_size)
  then show ?thesis
    using f sh arp_frame_fields [OF refl l, of pre rest]
    by (simp add: send_arp_reply_msg_def Let_def arp_frame_size MAX_PACKET_BUFFER_SIZE_def arp_reply_pkt_def)
qed

text \<open>The two kinds of message at their receiver.\<close>

lemma process_request_cases:
  assumes "graph_wf (topo w)" "fst q < n_links (topo w)"
    and l: "length d = 6" "length s = 6" "arp_packet_ok a"
  shows "process_arp_broadcast_request w n q (pre @ arp_frame d s a @ rest) (length pre) =
    Inr (if ip_add (iface (topo w) q) = inet_ntop (htonl (dst_ip a))
         then transmit w q (arp_frame s (if_mac (iface (topo w) q)) (arp_reply_pkt (iface (topo w) q) a))
         else w)"
  using arp_frame_fields [OF refl l, of pre rest] arp_reply_sends [OF assms, of pre rest]
  by (simp add: process_arp_broadcast_request_def convert_ip_from_int_to_str_def Let_def)

definition arp_learned :: "world \<Rightarrow> nid \<Rightarrow> string \<Rightarrow> bytes \<Rightarrow> string \<Rightarrow> world" where
  "arp_learned w n ip m oif = w\<lparr>topo := upd_node (topo w) n
     (\<lambda>nd. nd\<lparr>node_arp_table := arp_learn (node_arp_table (nodes (topo w) n)) ip (m, oif)\<rparr>)\<rparr>"

lemma process_reply_learns:
  assumes "graph_wf (topo w)" "fst q < n_links (topo w)"
    and l: "length d = 6" "length s = 6" "arp_packet_ok a" and "op_code a = ARP_REPLY"
  shows "process_arp_reply_message w n q (pre @ arp_frame d s a @ rest) (length pre) =
    Inr (arp_learned w n (inet_ntop (htonl (src_ip a))) (src_mac a) (if_name (iface (topo w) q)))"
proof -
  have "length (if_name (iface (topo w) q)) < IF_NAME_SIZE"
    using graph_wf_iface [OF assms(1,2)] by (simp add: iface_wf_def fits_def)
  then show ?thesis
    using arp_frame_fields [OF refl l, of pre rest] arp_reply_learns [OF assms(6)]
    by (simp add: process_arp_reply_message_def arp_learned_def)
qed

end
