(* ===== verification/Layer3.thy ===== *)
theory Layer3
  imports Layer2
begin

text \<open>
  The network layer (\<^verbatim>\<open>src/layer3/layer3.c\<close>): ICMP, packets from the transport side, packets
  from the data link side. The functions that lie on the cycle of calls take the function
  they would call back as an argument; the knot is tied at the end, with a bound on the
  depth of the calls, because the code has runs that never return.
\<close>

type_synonym top_fun = "world \<Rightarrow> nid \<Rightarrow> bytes \<Rightarrow> u8 \<Rightarrow> u32 \<Rightarrow> world res"


section \<open>ICMP\<close>

definition send_icmp_time_exceeded :: "top_fun \<Rightarrow> world \<Rightarrow> nid \<Rightarrow> ip_hdr \<Rightarrow> world res" where
  "send_icmp_time_exceeded from_top w n hdr =
     from_top w n (icmp_bytes (make_icmp_time_exceeded hdr ICMP_CODE_TIME_EXCEEDED_TTL))
       ICMP_PROTO (ip_src hdr)"

definition send_icmp_dest_unreacheable :: "top_fun \<Rightarrow> world \<Rightarrow> nid \<Rightarrow> ip_hdr \<Rightarrow> world res" where
  "send_icmp_dest_unreacheable from_top w n hdr =
     from_top w n (icmp_bytes (make_icmp_dest_unreacheable hdr ICMP_CODE_DEST_UNREACH_NET))
       ICMP_PROTO (ip_src hdr)"

definition send_icmp_echo_reply :: "top_fun \<Rightarrow> world \<Rightarrow> nid \<Rightarrow> u16 \<Rightarrow> u16 \<Rightarrow> u32 \<Rightarrow> u32 \<Rightarrow> world res" where
  "send_icmp_echo_reply from_top w n ident sq reply_data dest_ip =
     from_top w n (icmp_bytes (make_icmp_echo_reply ident sq reply_data)) ICMP_PROTO dest_ip"

definition send_icmp_echo_message :: "top_fun \<Rightarrow> world \<Rightarrow> nid \<Rightarrow> u16 \<Rightarrow> u16 \<Rightarrow> u32 \<Rightarrow> world res" where
  "send_icmp_echo_message from_top w n ident sq dest_ip =
     from_top w n (icmp_bytes (make_icmp_echo_message ident sq)) ICMP_PROTO dest_ip"

definition report_msg :: "world \<Rightarrow> report \<Rightarrow> world" where
  "report_msg w r = w\<lparr>reports := reports w @ [r]\<rparr>"

text \<open>
  \<^verbatim>\<open>process_icmp_pkt\<close>. The address printed with an echo reply has been cleared before; the
  data of an echo message goes back with its bytes swapped.
\<close>

definition process_icmp_pkt :: "top_fun \<Rightarrow> world \<Rightarrow> nid \<Rightarrow> bytes \<Rightarrow> nat \<Rightarrow> world res" where
  "process_icmp_pkt from_top w n b p =
     rbind (rd_ip b p) (\<lambda>hdr.
     rbind (rd_icmp b (p + IP_HDR_LEN_IN_BYTES hdr)) (\<lambda>icmp.
     let src_add = convert_ip_from_int_to_str (ip_src hdr);
         dest_add = convert_ip_from_int_to_str (icmp_data icmp)
     in
     if icmp_type icmp = ICMP_TYPE_ECHO_REPLY then
       Inr (report_msg w (Echo_reply_received n
              (ip_len hdr - of_nat (IP_HDR_LEN_IN_BYTES hdr)) [] (seq_num icmp) (TTL hdr)))
     else if icmp_type icmp = ICMP_TYPE_DEST_UNREACH then
       Inr (report_msg w
         (if icmp_code icmp = ICMP_CODE_DEST_UNREACH_NET then Network_unreachable n src_add dest_add
          else Unreachable_other n src_add dest_add))
     else if icmp_type icmp = ICMP_TYPE_ECHO_MESSAGE then
       send_icmp_echo_reply from_top w n (icmp_identifier icmp) (seq_num icmp)
         (htonl (icmp_data icmp)) (ip_src hdr)
     else if icmp_type icmp = ICMP_TYPE_TIME_EXCEEDED then
       Inr (if icmp_code icmp = ICMP_CODE_TIME_EXCEEDED_TTL
            then report_msg w (Ttl_expired n src_add dest_add) else w)
     else Inr w))"


section \<open>Packets from the top\<close>

definition pton_into :: "string \<Rightarrow> u32 \<Rightarrow> u32" where
  "pton_into s old = (case inet_pton s of Some v \<Rightarrow> v | None \<Rightarrow> old)"

text \<open>The interface and the source address for a route.\<close>

definition choose_source :: "env \<Rightarrow> world \<Rightarrow> nid \<Rightarrow> layer3_route \<Rightarrow> (ifptr option \<times> u32) res" where
  "choose_source E w n l3_rt =
     (if l3_is_direct_route l3_rt then
        rbind (node_get_matching_subnet_interface (topo w) n (rt_dest l3_rt)) (\<lambda>oif.
        case oif of
          None \<Rightarrow> Inr (None, pton_into (lb_addr (nodes (topo w) n)) (uninit_addr E w))
        | Some q \<Rightarrow> Inr (Some q, pton_into (ip_add (iface (topo w) q)) (uninit_addr E w)))
      else
        rbind (node_get_matching_subnet_interface (topo w) n (rt_gw l3_rt)) (\<lambda>oif.
        rbind (deref oif) (\<lambda>q.
        Inr (Some q, pton_into (ip_add (iface (topo w) q)) (uninit_addr E w)))))"

definition top_hdr :: "u8 \<Rightarrow> u32 \<Rightarrow> u32 \<Rightarrow> u16 \<Rightarrow> ip_hdr" where
  "top_hdr protocol_number dest_ip src_addr data_size =
     init_ip_hdr\<lparr>proto := protocol_number, ihl := 5, ip_dest := dest_ip, ip_src := src_addr,
       TTL := 64, version := IPPROTO_IP, ip_len := 5 * 4 + data_size, checksum := 0\<rparr>"

definition from_top_body ::
  "env \<Rightarrow> top_fun \<Rightarrow> promote_fun \<Rightarrow> world \<Rightarrow> nid \<Rightarrow> bytes \<Rightarrow> u8 \<Rightarrow> u32 \<Rightarrow> world res" where
  "from_top_body E from_top promote w n data protocol_number dest_ip =
     rbind (l3rib_lookup_lpm (node_route_table (nodes (topo w) n)) dest_ip) (\<lambda>l3_rt_ptr.
     case l3_rt_ptr of
       None \<Rightarrow>
         send_icmp_dest_unreacheable from_top w n
           (init_ip_hdr\<lparr>proto := protocol_number, ihl := 5, ip_dest := dest_ip,
              ip_src := pton_into (lb_addr (nodes (topo w) n)) 0\<rparr>)
     | Some l3_rt \<Rightarrow>
         rbind (choose_source E w n l3_rt) (\<lambda>(oif, src_addr).
         let hdr = top_hdr protocol_number dest_ip src_addr (of_nat (length data)) in
         rbind (wr (zeros (MAX_PACKET_BUFFER_SIZE + 4)) 0 (ip_bytes hdr)) (\<lambda>b1.
         rbind (wr b1 (IP_HDR_LEN_IN_BYTES hdr) data) (\<lambda>l3_pkt.
         rbind (pkt_buffer_shift_right l3_pkt (ucast (ip_len hdr)) (of_nat MAX_PACKET_BUFFER_SIZE))
           (\<lambda>(shifted, off).
         if \<not> l3_is_direct_route l3_rt then
           demote_pkt_to_layer2 E promote w n (pton_into (rt_gw l3_rt) (uninit_addr E w)) oif
             shifted off (ucast (ip_len hdr))
         else
           demote_pkt_to_layer2 E promote w n dest_ip None shifted off (ucast (ip_len hdr)))))))"


section \<open>Packets from below\<close>

definition layer3_ip_pkt_recv_from_layer2 ::
  "env \<Rightarrow> top_fun \<Rightarrow> promote_fun \<Rightarrow> world \<Rightarrow> nid \<Rightarrow> bytes \<Rightarrow> nat \<Rightarrow> u32 \<Rightarrow> world res" where
  "layer3_ip_pkt_recv_from_layer2 E from_top promote w n b p pkt_size =
     rbind (rd_ip b p) (\<lambda>hdr.
     rbind (l3rib_lookup_lpm (node_route_table (nodes (topo w) n)) (ip_dest hdr)) (\<lambda>l3_rt_ptr.
     case l3_rt_ptr of
       None \<Rightarrow> send_icmp_dest_unreacheable from_top w n hdr
     | Some l3_rt \<Rightarrow>
         if l3_is_direct_route l3_rt then
           (if is_layer3_local_delivery (topo w) n (ip_dest hdr) then
              (if proto hdr = ICMP_PROTO then process_icmp_pkt from_top w n b p else Inr w)
            else demote_pkt_to_layer2 E promote w n (ip_dest hdr) None b p pkt_size)
         else
           (let ttl = TTL hdr - 1 in
            rbind (wr b (p + 8) [ttl]) (\<lambda>b1.
            if ttl = 0 then send_icmp_time_exceeded from_top w n (hdr\<lparr>TTL := ttl\<rparr>)
            else
              demote_pkt_to_layer2 E promote w n (pton_into (rt_gw l3_rt) (uninit_addr E w))
                (get_node_if_by_name (topo w) n (rt_oif l3_rt)) b1 p pkt_size))))"

definition promote_body ::
  "env \<Rightarrow> top_fun \<Rightarrow> promote_fun \<Rightarrow> promote_fun" where
  "promote_body E from_top promote w n recv_intf b p app_data_size protocol_number =
     (if protocol_number = IP_PROTO
      then layer3_ip_pkt_recv_from_layer2 E from_top promote w n b p app_data_size
      else Inr w)"

text \<open>The knot. \<open>fuel\<close> bounds the number of nested entries into layer 3.\<close>

fun layer3_pkt_receive_from_top :: "nat \<Rightarrow> env \<Rightarrow> top_fun"
  and promote_pkt_to_layer3 :: "nat \<Rightarrow> env \<Rightarrow> promote_fun"
where
  "layer3_pkt_receive_from_top 0 E w n data protocol_number dest_ip = Inl Out_of_fuel"
| "layer3_pkt_receive_from_top (Suc fuel) E w n data protocol_number dest_ip =
     from_top_body E (layer3_pkt_receive_from_top fuel E) (promote_pkt_to_layer3 fuel E)
       w n data protocol_number dest_ip"
| "promote_pkt_to_layer3 0 E w n recv_intf b p app_data_size protocol_number = Inl Out_of_fuel"
| "promote_pkt_to_layer3 (Suc fuel) E w n recv_intf b p app_data_size protocol_number =
     promote_body E (layer3_pkt_receive_from_top fuel E) (promote_pkt_to_layer3 fuel E)
       w n recv_intf b p app_data_size protocol_number"

definition demote_pkt_to_layer3 :: "nat \<Rightarrow> env \<Rightarrow> top_fun" where
  "demote_pkt_to_layer3 = layer3_pkt_receive_from_top"



section \<open>IP packets in buffers\<close>

text \<open>An Ethernet frame with an IP packet.\<close>

definition ip_frame :: "bytes \<Rightarrow> bytes \<Rightarrow> bytes \<Rightarrow> bytes" where
  "ip_frame d s pay = d @ s @ le16 IP_PROTO @ pay"

lemma IP_not_VLAN [simp]: "IP_PROTO \<noteq> VLAN_TAG" "IP_PROTO \<noteq> ARP_PACKET"
  by (simp_all add: IP_PROTO_def VLAN_TAG_def ARP_PACKET_def)

lemma rd_ip_at:
  assumes "ip_hdr_ok h" "length pre = p"
  shows "rd_ip (pre @ ip_bytes h @ rest) p = Inr h"
proof -
  have "rd (pre @ ip_bytes h @ rest) p 20 = Inr (ip_bytes h)"
    by (rule rd_seg) (use assms in simp_all)
  then show ?thesis using assms(1) by (simp add: rd_ip_def)
qed

lemma rd_icmp_at:
  assumes "length pre = p"
  shows "rd_icmp (pre @ icmp_bytes i @ rest) p = Inr i"
proof -
  have "rd (pre @ icmp_bytes i @ rest) p 12 = Inr (icmp_bytes i)"
    by (rule rd_seg) (use assms in simp_all)
  then show ?thesis by (simp add: rd_icmp_def)
qed

lemma ip_bytes_ttl:
  obtains a c where "length a = 8" "ip_bytes h = a @ [TTL h] @ c" "\<And>t. ip_bytes (h\<lparr>TTL := t\<rparr>) = a @ [t] @ c"
proof
  let ?a = "[(version h AND 15) OR push_bit 4 (ihl h), tos h] @ le16 (ip_len h) @
     le16 (identification h) @ le16 (ip_flags h)"
  let ?c = "[proto h] @ le16 (checksum h) @ le32 (ip_src h) @ le32 (ip_dest h)"
  show "length ?a = 8" by simp
  show "ip_bytes h = ?a @ [TTL h] @ ?c" by (simp add: ip_bytes_def)
  show "ip_bytes (h\<lparr>TTL := t\<rparr>) = ?a @ [t] @ ?c" for t by (simp add: ip_bytes_def ip_flags_def)
qed

lemma wr_ttl_at:
  assumes "length pre = p"
  shows "wr (pre @ ip_bytes h @ rest) (p + 8) [t] = Inr (pre @ ip_bytes (h\<lparr>TTL := t\<rparr>) @ rest)"
proof -
  obtain a c where a: "length a = 8" "ip_bytes h = a @ [TTL h] @ c" "\<And>t. ip_bytes (h\<lparr>TTL := t\<rparr>) = a @ [t] @ c"
    by (rule ip_bytes_ttl [of h]) (rule that)
  have "wr ((pre @ a) @ [TTL h] @ c @ rest) (p + 8) [t] = Inr ((pre @ a) @ [t] @ c @ rest)"
    by (rule wr_seg) (use assms a(1) in simp_all)
  then show ?thesis by (simp add: a(2,3))
qed

lemma ip_frame_fields:
  assumes "length pre = p" "length x = 12"
  shows "eth_type (pre @ x @ le16 IP_PROTO @ rest) p = Inr IP_PROTO"
    "is_pkt_vlan_tagged (pre @ x @ le16 IP_PROTO @ rest) p = Inr False"
    "get_ethernet_frame_payload (pre @ x @ le16 IP_PROTO @ rest) p = Inr (p + 14)"
    "get_eth_hdr_size_excl_payload (pre @ x @ le16 IP_PROTO @ rest) p = Inr 14"
proof -
  have r: "rd ((pre @ x) @ le16 IP_PROTO @ rest) (p + 12) 2 = Inr (le16 IP_PROTO)"
    by (rule rd_seg) (use assms in simp_all)
  then show "eth_type (pre @ x @ le16 IP_PROTO @ rest) p = Inr IP_PROTO"
    by (simp add: eth_type_def rd16_def)
  then show t: "is_pkt_vlan_tagged (pre @ x @ le16 IP_PROTO @ rest) p = Inr False"
    by (simp add: is_pkt_vlan_tagged_def)
  show "get_ethernet_frame_payload (pre @ x @ le16 IP_PROTO @ rest) p = Inr (p + 14)"
    "get_eth_hdr_size_excl_payload (pre @ x @ le16 IP_PROTO @ rest) p = Inr 14"
    by (simp_all add: get_ethernet_frame_payload_def get_eth_hdr_size_excl_payload_def t ETH_HDR_SIZE_def)
qed

text \<open>The end of the way down: with the next hop resolved the packet leaves as one frame.\<close>

lemma l2_send_resolved_ok:
  assumes wf: "graph_wf (topo w)" "fst q < n_links (topo w)" and e: "length (arp_mac e) = 6"
    and b: "length pre = p" "length x = 12" and k: "unat k = 14 + length pay" "unat k \<le> 2032"
  shows "l2_send_resolved w (Some q) e (pre @ x @ le16 IP_PROTO @ pay @ rest) p k =
    Inr (transmit w q (ip_frame (arp_mac e) (if_mac (iface (topo w) q)) pay))"
proof -
  let ?m = "if_mac (iface (topo w) q)"
  have m: "length ?m = 6" by (rule length_if_mac [OF wf])
  obtain x1 x2 where x: "x = x1 @ x2" "length x1 = 6" "length x2 = 6"
    using split_at [of x 6 6] b(2) by auto
  have "wr (pre @ x1 @ x2 @ le16 IP_PROTO @ pay @ rest) p (arp_mac e)
      = Inr (pre @ arp_mac e @ x2 @ le16 IP_PROTO @ pay @ rest)"
    "wr ((pre @ arp_mac e) @ x2 @ le16 IP_PROTO @ pay @ rest) (p + 6) ?m
      = Inr ((pre @ arp_mac e) @ ?m @ le16 IP_PROTO @ pay @ rest)"
    "rd (pre @ (arp_mac e @ ?m @ le16 IP_PROTO @ pay) @ rest) p (unat k)
      = Inr (arp_mac e @ ?m @ le16 IP_PROTO @ pay)"
    by (rule wr_seg rd_seg; simp add: x e b m k)+
  moreover have "is_pkt_vlan_tagged (pre @ (arp_mac e @ ?m) @ le16 IP_PROTO @ pay @ rest) p = Inr False"
    by (rule ip_frame_fields) (simp_all add: b e m)
  ultimately show ?thesis
    using send_pkt_out_transmit [OF wf _ k(2), of "pre @ (arp_mac e @ ?m @ le16 IP_PROTO @ pay) @ rest" p]
    by (simp add: l2_send_resolved_def x(1) set_common_eth_fcs_def ip_frame_def)
qed

lemma demote_ok:
  assumes "length pre = h" "length x = 14" "length pay = unat k" "length y = 4"
  shows "demote_pkt_to_layer2 E pm w n nh oif (pre @ x @ pay @ y @ rest) (h + 14) k =
    l2_forward_ip_packet E pm w n nh (map_option (\<lambda>q. if_name (iface (topo w) q)) oif)
      (pre @ zeros 12 @ le16 IP_PROTO @ pay @ zeros 4 @ rest) h (14 + k)"
proof -
  have z: "zeros 14 = zeros 12 @ zeros 2" by (rule zeros_split [of 12 14, simplified])
  have "wr ((pre @ zeros 12) @ zeros 2 @ pay @ zeros 4 @ rest) (h + 12) (le16 IP_PROTO)
      = Inr ((pre @ zeros 12) @ le16 IP_PROTO @ pay @ zeros 4 @ rest)"
    by (rule wr_seg) (simp_all add: assms)
  then show ?thesis
    using alloc_eth [OF assms, of rest]
    by (simp add: demote_pkt_to_layer2_def wr16_def z ETH_HDR_SIZE_def)
qed

lemma l2_forward_local:
  assumes "is_layer3_local_delivery (topo w) n nh" "length pre = p" "length x = 12"
  shows "l2_forward_ip_packet E pm w n nh None (pre @ x @ le16 IP_PROTO @ rest) p k =
    pm w n None (pre @ x @ le16 IP_PROTO @ rest) (p + 14) (k - 14) IP_PROTO"
  using assms by (simp add: l2_forward_ip_packet_def Let_def ip_frame_fields)

lemma l2_forward_resolved:
  assumes "nm = Some nme \<and> get_node_if_by_name (topo w) n nme = Some q \<or>
      nm = None \<and> \<not> is_layer3_local_delivery (topo w) n nh \<and>
      node_get_matching_subnet_interface (topo w) n (inet_ntop nh) = Inr (Some q)"
    and "arp_table_lookup (node_arp_table (nodes (topo w) n)) (inet_ntop nh) = Some e"
  shows "l2_forward_ip_packet E pm w n nh nm b p k = l2_send_resolved w (Some q) e b p k"
  using assms by (auto simp: l2_forward_ip_packet_def Let_def)

text \<open>The way down from the top: header, buffer, frame.\<close>

lemma top_hdr_ok: "ip_hdr_ok (top_hdr pr d s n)"
  by (simp add: ip_hdr_ok_def top_hdr_def init_ip_hdr_def IPPROTO_IP_def)

lemma top_hdr_sel [simp]:
  "ihl (top_hdr pr d s n) = 5" "proto (top_hdr pr d s n) = pr" "ip_dest (top_hdr pr d s n) = d"
  "ip_src (top_hdr pr d s n) = s" "TTL (top_hdr pr d s n) = 64" "ip_len (top_hdr pr d s n) = 20 + n"
  "IP_HDR_LEN_IN_BYTES (top_hdr pr d s n) = 20"
  by (simp_all add: top_hdr_def init_ip_hdr_def IP_HDR_LEN_IN_BYTES_def)

lemma from_top_sends_down:
  fixes pr :: u8
  assumes r: "l3rib_lookup_lpm (node_route_table (nodes (topo w) n)) dest = Inr (Some r)"
    and c: "choose_source E w n r = Inr (oif, src)" and l: "length data \<le> 1000"
  defines "hdr \<equiv> top_hdr pr dest src (of_nat (length data))"
  shows "from_top_body E ft pm w n data pr dest =
    l2_forward_ip_packet E pm w n
      (if l3_is_direct_route r then dest else pton_into (rt_gw r) (uninit_addr E w))
      (if l3_is_direct_route r then None else map_option (\<lambda>q. if_name (iface (topo w) q)) oif)
      (zeros (2014 - length data) @ zeros 12 @ le16 IP_PROTO @ (ip_bytes hdr @ data) @ zeros 4)
      (2014 - length data) (of_nat (34 + length data))"
proof -
  let ?n = "length data"
  let ?L = "ucast (ip_len hdr) :: u32"
  have ul: "unat (20 + of_nat ?n :: u16) = 20 + ?n"
    using l by (simp add: unat_word_ariths unat_of_nat)
  then have L: "unat ?L = 20 + ?n"
    using l by (simp add: hdr_def unsigned_ucast_eq take_bit_nat_eq_self)
  have L': "?L = of_nat (20 + ?n)"
    using L by (metis of_nat_unat ucast_id)
  have z0: "zeros 2052 = zeros 20 @ zeros ?n @ zeros (2028 - ?n) @ zeros 4"
    using l by (simp add: zeros_def replicate_add [symmetric])
  have w: "wr ([] @ zeros 20 @ zeros ?n @ zeros (2028 - ?n) @ zeros 4) 0 (ip_bytes hdr)
      = Inr ([] @ ip_bytes hdr @ zeros ?n @ zeros (2028 - ?n) @ zeros 4)"
    "wr (ip_bytes hdr @ zeros ?n @ zeros (2028 - ?n) @ zeros 4) 20 data
      = Inr (ip_bytes hdr @ data @ zeros (2028 - ?n) @ zeros 4)"
    by (rule wr_seg; simp)+
  have sh: "pkt_buffer_shift_right ((ip_bytes hdr @ data) @ zeros (2028 - ?n) @ zeros 4) ?L 2048
      = Inr (zeros (length (zeros (2028 - ?n))) @ (ip_bytes hdr @ data) @ zeros 4, length (zeros (2028 - ?n)))"
    by (rule shift_right_ok) (use L l in simp_all)
  have z1: "zeros (2028 - ?n) = zeros (2014 - ?n) @ zeros 14" and o: "2028 - ?n = (2014 - ?n) + 14"
    using l zeros_split [of "2014 - ?n" "2028 - ?n"] by simp_all
  have dm: "demote_pkt_to_layer2 E pm w n nh q (zeros (2028 - ?n) @ (ip_bytes hdr @ data) @ zeros 4) (2028 - ?n) ?L =
      l2_forward_ip_packet E pm w n nh (map_option (\<lambda>q. if_name (iface (topo w) q)) q)
      (zeros (2014 - ?n) @ zeros 12 @ le16 IP_PROTO @ (ip_bytes hdr @ data) @ zeros 4)
      (2014 - ?n) (of_nat (34 + ?n))" for nh q
    using demote_ok [of "zeros (2014 - ?n)" "2014 - ?n" "zeros 14" "ip_bytes hdr @ data" ?L "zeros 4" E pm w n nh q "[]"] L
    unfolding z1 by (simp add: o L')
  show ?thesis
    using w sh dm unfolding from_top_body_def hdr_def [symmetric] r rbind_Inr option.case c prod.case Let_def
      MAX_PACKET_BUFFER_SIZE_def
    by (simp add: z0 hdr_def)
qed

end
