(* ===== verification/Stack.thy ===== *)
theory Stack
  imports Layer3
begin

text \<open>
  The whole stack: reception of a frame (\<^verbatim>\<open>layer2_frame_recv\<close>), of a datagram (the receiver
  thread of \<^verbatim>\<open>src/communications.c\<close>), the ping command (\<^verbatim>\<open>src/layer5/ping.c\<close>), and the
  network as a transition system.
\<close>

section \<open>Frames\<close>

definition layer2_frame_recv :: "nat \<Rightarrow> env \<Rightarrow> world \<Rightarrow> nid \<Rightarrow> ifptr \<Rightarrow> bytes \<Rightarrow> nat \<Rightarrow> u32 \<Rightarrow> world res" where
  "layer2_frame_recv fuel E w n iif b p pkt_size =
     (let i = iface (topo w) iif in
      rbind (l2_frame_recv_qualify_on_interface i b p) (\<lambda>(accepted, output_vlan_id).
      if \<not> accepted then Inr w
      else if IS_INTF_L3_MODE i then
        promote_pkt_to_layer2 (promote_pkt_to_layer3 fuel E) w n iif b p pkt_size
      else if l2_mode i \<noteq> L2_MODE_UNKNOWN then
        (let vlan_to_tag = (case output_vlan_id of Some v \<Rightarrow> v | None \<Rightarrow> uninit_tag E w) in
         if vlan_to_tag \<noteq> 0 then
           rbind (tag_pkt_with_vlan_id b p pkt_size vlan_to_tag) (\<lambda>(b1, p1, new_pkt_size).
           l2_switch_recv_frame E w iif b1 p1 new_pkt_size)
         else l2_switch_recv_frame E w iif b p pkt_size)
      else Inr w))"

text \<open>One turn of the receiver thread for a node with a datagram at its socket.\<close>

definition node_receive :: "nat \<Rightarrow> env \<Rightarrow> world \<Rightarrow> nid \<Rightarrow> bytes \<Rightarrow> world res" where
  "node_receive fuel E w n data =
     (case recv_buffer data of (buf, bytes_recvd) \<Rightarrow>
        pkt_receive (layer2_frame_recv fuel E) w n buf bytes_recvd)"


section \<open>Ping\<close>

text \<open>
  \<^verbatim>\<open>send_ping_request\<close>. The loop variable is not initialised: \<open>i0\<close> is what it holds. Each
  round sends one echo message and sleeps.
\<close>

function ping_loop :: "nat \<Rightarrow> env \<Rightarrow> nid \<Rightarrow> u32 \<Rightarrow> u8 \<Rightarrow> u8 \<Rightarrow> world \<Rightarrow> world res" where
  "ping_loop fuel E n dest_ip count i w =
     (if i < count then
        rbind (send_icmp_echo_message (layer3_pkt_receive_from_top fuel E) w n (ucast i) (ucast i) dest_ip)
          (\<lambda>w1. ping_loop fuel E n dest_ip count (i + 1) (asleep E w1))
      else Inr w)"
  by pat_completeness auto

termination
proof (relation "measure (\<lambda>(fuel, E, n, d, count, i, w). unat count - unat i)")
  fix fuel :: nat and E :: env and n d and count i :: u8 and w x
  assume "i < count"
  then have lt: "unat i < unat count" by (simp add: word_less_nat_alt)
  then have "unat i + 1 < 2 ^ LENGTH(8)" using unsigned_less [of count, where 'a = nat] by simp
  then have "unat (i + 1) = unat i + 1" by (simp add: unat_word_ariths)
  then show "((fuel, E, n, d, count, i + 1, asleep E x), fuel, E, n, d, count, i, w)
      \<in> measure (\<lambda>(fuel, E, n, d, count, i, w). unat count - unat i)"
    using lt by simp
qed simp

declare ping_loop.simps [simp del]

definition send_ping_request :: "nat \<Rightarrow> env \<Rightarrow> world \<Rightarrow> nid \<Rightarrow> string \<Rightarrow> u8 \<Rightarrow> u8 \<Rightarrow> world res" where
  "send_ping_request fuel E w n ip count i0 =
     ping_loop fuel E n (pton_into ip (uninit_addr E w)) count i0 w"


text \<open>The application layer has no more than this: its upcall, which nothing makes, does nothing.\<close>

definition promote_pkt_layer5 :: "world \<Rightarrow> nid \<Rightarrow> ifptr \<Rightarrow> bytes \<Rightarrow> nat \<Rightarrow> u32 \<Rightarrow> world" where
  "promote_pkt_layer5 w n recv_intf b payload app_data_size = w"


section \<open>The network\<close>

text \<open>
  A socket hands out its datagrams in order. A step of the network delivers the first
  datagram of a node, loses one, or runs one of the commands that send.
\<close>

fun take_dgram :: "u16 \<Rightarrow> dgram list \<Rightarrow> (bytes \<times> dgram list) option" where
  "take_dgram port [] = None"
| "take_dgram port (dg # dgs) =
     (if dport dg = port then Some (dg_data dg, dgs)
      else map_option (\<lambda>(data, rest). (data, dg # rest)) (take_dgram port dgs))"

definition node_port :: "world \<Rightarrow> nid \<Rightarrow> u16" where
  "node_port w n = ucast (udp_port_number (nodes (topo w) n))"

inductive net_step :: "nat \<Rightarrow> env \<Rightarrow> world \<Rightarrow> world \<Rightarrow> bool" for fuel :: nat and E :: env where
  deliver: "n < n_nodes (topo w) \<Longrightarrow> udp_sock_fd (nodes (topo w) n) \<noteq> 0 \<Longrightarrow>
    take_dgram (node_port w n) (sent w) = Some (data, rest) \<Longrightarrow>
    node_receive fuel E (w\<lparr>sent := rest\<rparr>) n data = Inr w' \<Longrightarrow> net_step fuel E w w'"
| lose: "sent w = xs @ dg # ys \<Longrightarrow> net_step fuel E w (w\<lparr>sent := xs @ ys\<rparr>)"
| ping: "n < n_nodes (topo w) \<Longrightarrow> send_ping_request fuel E w n ip count i0 = Inr w' \<Longrightarrow>
    net_step fuel E w w'"
| resolve: "n < n_nodes (topo w) \<Longrightarrow> send_arp_broadcast_request w n None ip = Inr w' \<Longrightarrow>
    net_step fuel E w w'"


section \<open>Frames at a host\<close>

text \<open>The two ends of a link, as the statements below need them.\<close>

definition unique_names :: "graph \<Rightarrow> nid \<Rightarrow> bool" where
  "unique_names g n \<longleftrightarrow> inj_on (\<lambda>r. if_name (iface g r)) (set (node_intfs g n))"

definition joins :: "graph \<Rightarrow> ifptr \<Rightarrow> nid \<Rightarrow> nid \<Rightarrow> bool" where
  "joins g q n m \<longleftrightarrow> fst q < n_links g \<and> att_node (iface g q) = Some n \<and>
     att_node (iface g (remote_intf q)) = Some m \<and> unique_names g n \<and> unique_names g m"

lemma joins_sym: "joins g q n m \<Longrightarrow> joins g (remote_intf q) m n"
  by (simp add: joins_def)

lemma node_receive_frame:
  assumes "graph_wf (topo w)" "joins (topo w) q n m" "topo w' = topo w" "length pkt \<le> 2032"
  shows "node_receive fuel E w' m (dg_data (frame_dgram w q pkt)) =
    layer2_frame_recv fuel E w' m (remote_intf q)
      (char_array IF_NAME_SIZE (if_name (iface (topo w) (remote_intf q))) @ pkt @ zeros (2032 - length pkt))
      16 (of_nat (length pkt))"
proof -
  have "frame_dgram w q pkt = frame_dgram w' q pkt" using assms(3) by (simp add: frame_dgram_def)
  then show ?thesis
    using pkt_receive_frame [of w' q m pkt "layer2_frame_recv fuel E"] assms
    by (simp add: node_receive_def joins_def unique_names_def get_nbr_node_remote)
qed

lemma length_header:
  "graph_wf g \<Longrightarrow> fst q < n_links g \<Longrightarrow> length (char_array IF_NAME_SIZE (if_name (iface g q))) = 16"
  using graph_wf_iface [of g q] by (simp add: iface_wf_def fits_def IF_NAME_SIZE_def)

lemma host_accepts:
  assumes "intf_cfg_ok (iface (topo w) q)" "is_ipadd_config (iface (topo w) q)"
    and "is_pkt_vlan_tagged b p = Inr False" "eth_dest b p = Inr d"
    and "d = if_mac (iface (topo w) q) \<or> d = broadcast_mac"
  shows "layer2_frame_recv fuel E w n q b p k =
    promote_pkt_to_layer2 (promote_pkt_to_layer3 fuel E) w n q b p k"
  using assms
  by (auto simp: layer2_frame_recv_def l2_frame_recv_qualify_on_interface_def intf_cfg_ok_def
      IS_INTF_L3_MODE_def is_mac_broadcast_addr_def)

text \<open>An ARP message may be followed by other bytes: an access port of a switch leaves some.\<close>

lemma host_gets_padded_arp:
  assumes ok: "config_ok (topo w)" and j: "joins (topo w) q n m" and t: "topo w' = topo w"
    and ip: "is_ipadd_config (iface (topo w) (remote_intf q))"
    and l: "length d = 6" "length s = 6" "arp_packet_ok a" "length tr \<le> 1986"
    and d: "d = if_mac (iface (topo w) (remote_intf q)) \<or> d = broadcast_mac"
  shows "node_receive fuel E w' m (dg_data (frame_dgram w q (arp_frame d s a @ tr))) =
    (let b = char_array IF_NAME_SIZE (if_name (iface (topo w) (remote_intf q))) @ arp_frame d s a @
           tr @ zeros (1986 - length tr) in
     if op_code a = ARP_REQUEST then process_arp_broadcast_request w' m (remote_intf q) b 16
     else if op_code a = ARP_REPLY then process_arp_reply_message w' m (remote_intf q) b 16
     else Inr w')"
proof -
  note wf = config_ok_wf [OF ok]
  have r: "fst (remote_intf q) < n_links (topo w)" using j by (simp add: joins_def)
  let ?rest = "tr @ zeros (1986 - length tr)"
  let ?b = "char_array IF_NAME_SIZE (if_name (iface (topo w) (remote_intf q))) @ arp_frame d s a @ ?rest"
  let ?k = "of_nat (46 + length tr) :: u32"
  note f = arp_frame_fields [OF length_header [OF wf r] l(1-3), of ?rest]
  have c: "intf_cfg_ok (iface (topo w') (remote_intf q))" using config_ok_intf [OF ok r] t by simp
  have "layer2_frame_recv fuel E w' m (remote_intf q) ?b 16 ?k =
      promote_pkt_to_layer2 (promote_pkt_to_layer3 fuel E) w' m (remote_intf q) ?b 16 ?k"
    by (rule host_accepts [OF c _ f(4) f(1)]) (use ip d t in simp_all)
  then show ?thesis
    using node_receive_frame [OF wf j t, of "arp_frame d s a @ tr" fuel E] l f(3,5)
    by (simp add: promote_pkt_to_layer2_def Let_def)
qed

lemmas host_gets_arp = host_gets_padded_arp [where tr = "[]", simplified]

text \<open>
  Address resolution: the request, the answer of the neighbour, and what the reply teaches, in
  any state of the same network.
\<close>

definition request_dgram :: "graph \<Rightarrow> ifptr \<Rightarrow> u32 \<Rightarrow> dgram" where
  "request_dgram g q t = frame_dgram \<lparr>topo = g, sent = [], reports = []\<rparr> q
     (arp_frame broadcast_mac (if_mac (iface g q)) (arp_request_pkt (iface g q) t))"

definition answer_dgram :: "graph \<Rightarrow> ifptr \<Rightarrow> u32 \<Rightarrow> dgram" where
  "answer_dgram g q t = frame_dgram \<lparr>topo = g, sent = [], reports = []\<rparr> (remote_intf q)
     (arp_frame (if_mac (iface g q)) (if_mac (iface g (remote_intf q)))
       (arp_reply_pkt (iface g (remote_intf q)) (arp_request_pkt (iface g q) t)))"

lemma arp_exchange:
  assumes ok: "config_ok (topo w)" and j: "joins (topo w) q n m"
    and ip: "is_ipadd_config (iface (topo w) q)" "is_ipadd_config (iface (topo w) (remote_intf q))"
    and t: "ip_add (iface (topo w) (remote_intf q)) = inet_ntop t"
  shows "arp_request_on w q (inet_ntop t) = Inr (w\<lparr>sent := sent w @ [request_dgram (topo w) q t]\<rparr>)"
    and "node_receive fuel E w m (dg_data (request_dgram (topo w) q t)) =
      Inr (w\<lparr>sent := sent w @ [answer_dgram (topo w) q t]\<rparr>)"
    and "node_receive fuel E w n (dg_data (answer_dgram (topo w) q t)) =
      Inr (arp_learned w n (inet_ntop t) (if_mac (iface (topo w) (remote_intf q))) (if_name (iface (topo w) q)))"
    and "dport (request_dgram (topo w) q t) = node_port w m" "dport (answer_dgram (topo w) q t) = node_port w n"
proof -
  note wf = config_ok_wf [OF ok]
  let ?i = "iface (topo w) q" and ?r = "remote_intf q"
  let ?o = "iface (topo w) ?r"
  have q: "fst q < n_links (topo w)" "fst ?r < n_links (topo w)" using j by (simp_all add: joins_def)
  have l: "length broadcast_mac = 6" "length (if_mac ?i) = 6" "length (if_mac ?o) = 6"
    using length_if_mac [OF wf] q by (simp_all add: broadcast_mac_def)
  let ?a = "arp_request_pkt ?i t"
  let ?a2 = "arp_reply_pkt ?o ?a"
  have a: "arp_packet_ok ?a" "arp_packet_ok ?a2"
    using l by (simp_all add: arp_packet_ok_def arp_request_pkt_def arp_reply_pkt_def)
  have op: "op_code ?a = ARP_REQUEST" "op_code ?a2 = ARP_REPLY" "ARP_REPLY \<noteq> ARP_REQUEST"
    by (simp_all add: arp_request_pkt_def arp_reply_pkt_def ARP_REPLY_def ARP_REQUEST_def)
  let ?f1 = "arp_frame broadcast_mac (if_mac ?i) ?a" and ?f2 = "arp_frame (if_mac ?i) (if_mac ?o) ?a2"
  have d: "request_dgram (topo w) q t = frame_dgram w q ?f1" "answer_dgram (topo w) q t = frame_dgram w ?r ?f2"
    by (simp_all add: request_dgram_def answer_dgram_def frame_dgram_def)
  show "arp_request_on w q (inet_ntop t) = Inr (w\<lparr>sent := sent w @ [request_dgram (topo w) q t]\<rparr>)"
    using arp_request_on_sends [OF wf q(1)] by (simp add: d transmit_def)
  have "process_arp_broadcast_request w m ?r
      (char_array IF_NAME_SIZE (if_name ?o) @ ?f1 @ zeros 1986) 16 = Inr (transmit w ?r ?f2)"
    using process_request_cases [of w ?r broadcast_mac "if_mac ?i" ?a m "char_array IF_NAME_SIZE (if_name ?o)" "zeros 1986"]
      length_header [OF wf q(2)] wf q l a t by (simp add: arp_request_pkt_def)
  then show "node_receive fuel E w m (dg_data (request_dgram (topo w) q t)) =
      Inr (w\<lparr>sent := sent w @ [answer_dgram (topo w) q t]\<rparr>)"
    using host_gets_arp [OF ok j refl ip(2) l(1,2) a(1)] op by (simp add: Let_def d transmit_def)
  have "process_arp_reply_message w n q (char_array IF_NAME_SIZE (if_name ?i) @ ?f2 @ zeros 1986) 16
      = Inr (arp_learned w n (inet_ntop t) (if_mac ?o) (if_name ?i))"
    using process_reply_learns [of w q "if_mac ?i" "if_mac ?o" ?a2 n "char_array IF_NAME_SIZE (if_name ?i)" "zeros 1986"]
      length_header [OF wf q(1)] wf q l a op by (simp add: arp_reply_pkt_def arp_request_pkt_def)
  then show "node_receive fuel E w n (dg_data (answer_dgram (topo w) q t)) =
      Inr (arp_learned w n (inet_ntop t) (if_mac ?o) (if_name ?i))"
    using host_gets_arp [OF ok joins_sym [OF j] refl _ l(2,3) a(2), of fuel E] ip(1) op
    by (simp add: Let_def d)
  show "dport (request_dgram (topo w) q t) = node_port w m" "dport (answer_dgram (topo w) q t) = node_port w n"
    using j by (simp_all add: d frame_dgram_def node_port_def joins_def get_nbr_node_remote)
qed

lemma arp_learned_resolves:
  assumes "config_ok (topo w)" "n < n_nodes (topo w)"
  shows "arp_resolve (node_arp_table (nodes (topo (arp_learned w n ip m oif)) n)) ip = Some (m, oif)"
  using arpt.lookup_learn config_ok_node [OF assms] by (simp add: arp_learned_def node_cfg_ok_def)

lemma joins_nodes:
  assumes wf: "graph_wf g" and j: "joins g q n m"
  shows "n < n_nodes g" "m < n_nodes g"
proof -
  have q: "fst q < n_links g" "fst (remote_intf q) < n_links g" using j by (simp_all add: joins_def)
  obtain n' where "n' < n_nodes g" "att_node (iface g q) = Some n'" by (rule graph_wf_att [OF wf q(1)])
  then show "n < n_nodes g" using j by (simp add: joins_def)
  obtain m' where "m' < n_nodes g" "att_node (iface g (remote_intf q)) = Some m'" by (rule graph_wf_att [OF wf q(2)])
  then show "m < n_nodes g" using j by (simp add: joins_def)
qed

section \<open>Properties\<close>



definition host_world :: world where
  "host_world = \<lparr>topo = host_graph, sent = [], reports = []\<rparr>"

lemma host_world_joins: "joins (topo host_world) (0, Intf1) 0 1"
  by (simp add: joins_def host_world_def host_graph_sel unique_names_def remote_intf_def del: One_nat_def)


end
