(* ===== verification/Delivery.thy ===== *)
theory Delivery
  imports Stack
begin

text \<open>
  IP delivery end to end: what a node does with a packet for itself, for a neighbour, for a
  gateway, and for nobody. The statements are about whole calls of the receiver thread
  (\<open>node_receive\<close>) and of the transport side (\<open>layer3_pkt_receive_from_top\<close>).
\<close>

section \<open>One hop\<close>

text \<open>
  An address is the node's own when one of its interfaces has it and the routing table leads
  to a direct route; it is on the link of an interface when the route to it is direct and
  the subnet scans find that interface.
\<close>

definition has_direct_route :: "graph \<Rightarrow> nid \<Rightarrow> u32 \<Rightarrow> layer3_route \<Rightarrow> bool" where
  "has_direct_route g n a r \<longleftrightarrow>
     l3rib_lookup_lpm (node_route_table (nodes g n)) a = Inr (Some r) \<and> l3_is_direct_route r"

definition own_address :: "graph \<Rightarrow> nid \<Rightarrow> u32 \<Rightarrow> ifptr \<Rightarrow> bool" where
  "own_address g n a q \<longleftrightarrow> q \<in> set (node_intfs g n) \<and> is_ipadd_config (iface g q) \<and>
     ip_add (iface g q) = inet_ntop a \<and> (\<exists>r. has_direct_route g n a r)"

definition on_link :: "graph \<Rightarrow> nid \<Rightarrow> u32 \<Rightarrow> ifptr \<Rightarrow> bool" where
  "on_link g n a q \<longleftrightarrow> \<not> is_layer3_local_delivery g n a \<and>
     node_get_matching_subnet_interface g n (inet_ntop a) = Inr (Some q) \<and>
     (\<exists>r. has_direct_route g n a r \<and> node_get_matching_subnet_interface g n (rt_dest r) = Inr (Some q))"

definition has_mac :: "graph \<Rightarrow> nid \<Rightarrow> u32 \<Rightarrow> bytes \<Rightarrow> bool" where
  "has_mac g n a m \<longleftrightarrow> map_option fst (arp_resolve (node_arp_table (nodes g n)) (inet_ntop a)) = Some m"

lemma has_macE:
  assumes "has_mac g n a m"
  obtains e where "arp_table_lookup (node_arp_table (nodes g n)) (inet_ntop a) = Some e" "arp_mac e = m"
  using assms by (auto simp: has_mac_def arp_resolve_def)

lemma own_address_local:
  assumes "graph_wf g" "n < n_nodes g" "own_address g n a q"
  shows "is_layer3_local_delivery g n a"
proof -
  have "Some q \<in> set (intf (nodes g n))"
    using assms by (auto simp: own_address_def node_intfs_def List.map_filter_def)
  then show ?thesis
    using assms(3)
    by (auto simp: is_layer3_local_delivery_def Let_def own_address_def list_ex_iff IS_INTF_L3_MODE_def
        convert_ip_from_int_to_str_def intro!: bexI [of _ "Some q"])
qed

text \<open>Sending to a neighbour whose MAC address is known.\<close>

lemma subnet_interface_links:
  assumes "config_ok g" "n < n_nodes g" "node_get_matching_subnet_interface g n (inet_ntop a) = Inr (Some q)"
  shows "q \<in> set (node_intfs g n)" "fst q < n_links g"
proof -
  show q: "q \<in> set (node_intfs g n)"
    using assms(3) unfolding matching_subnet_find [OF assms(1,2)] by (auto simp: find_Some_iff)
  show "fst q < n_links g" by (rule node_intfs_links [OF config_ok_wf [OF assms(1)] assms(2) q])
qed

lemma from_top_on_link:
  assumes ok: "config_ok (topo w)" and n: "n < n_nodes (topo w)" and o: "on_link (topo w) n a q"
    and s: "ip_add (iface (topo w) q) = inet_ntop s" and m: "has_mac (topo w) n a m" "length m = 6"
    and l: "length data \<le> 1000"
  shows "layer3_pkt_receive_from_top (Suc fuel) E w n data pr a =
    Inr (transmit w q (ip_frame m (if_mac (iface (topo w) q))
      (ip_bytes (top_hdr pr a s (of_nat (length data))) @ data)))"
proof -
  obtain r where r: "has_direct_route (topo w) n a r"
    "node_get_matching_subnet_interface (topo w) n (rt_dest r) = Inr (Some q)"
    and o': "\<not> is_layer3_local_delivery (topo w) n a"
    "node_get_matching_subnet_interface (topo w) n (inet_ntop a) = Inr (Some q)"
    using o by (auto simp: on_link_def)
  obtain e where e: "arp_table_lookup (node_arp_table (nodes (topo w) n)) (inet_ntop a) = Some e" "arp_mac e = m"
    using m(1) by (rule has_macE)
  note q = subnet_interface_links [OF ok n o'(2)]
  have c: "choose_source E w n r = Inr (Some q, s)"
    using r s by (simp add: choose_source_def has_direct_route_def pton_into_def)
  have k: "unat (of_nat (34 + length data) :: u32) = 34 + length data"
    using l by (simp add: unat_word_ariths unat_of_nat)
  have "l2_send_resolved w (Some q) e
      (zeros (2014 - length data) @ zeros 12 @ le16 IP_PROTO @
        (ip_bytes (top_hdr pr a s (of_nat (length data))) @ data) @ zeros 4)
      (2014 - length data) (of_nat (34 + length data)) =
    Inr (transmit w q (ip_frame (arp_mac e) (if_mac (iface (topo w) q))
      (ip_bytes (top_hdr pr a s (of_nat (length data))) @ data)))"
    by (rule l2_send_resolved_ok [OF config_ok_wf [OF ok] q(2)]) (use e m(2) l k in simp_all)
  then show ?thesis
    using from_top_sends_down [of w n a r E "Some q" s data "layer3_pkt_receive_from_top fuel E" "promote_pkt_to_layer3 fuel E" pr]
      l2_forward_resolved [of None _ w n q a e E "promote_pkt_to_layer3 fuel E"] r(1) o' c l e
    by (simp add: has_direct_route_def)
qed

text \<open>Receiving an IP frame.\<close>

lemma host_gets_ip:
  assumes ok: "config_ok (topo w)" and j: "joins (topo w) q n m" and t: "topo w' = topo w"
    and ip: "is_ipadd_config (iface (topo w) (remote_intf q))"
    and l: "length s = 6" "length pay \<le> 2018"
  shows "node_receive fuel E w' m (dg_data (frame_dgram w q
        (ip_frame (if_mac (iface (topo w) (remote_intf q))) s pay))) =
    promote_pkt_to_layer3 fuel E w' m (Some (remote_intf q))
      ((char_array IF_NAME_SIZE (if_name (iface (topo w) (remote_intf q))) @
        (if_mac (iface (topo w) (remote_intf q)) @ s) @ le16 IP_PROTO) @ pay @ zeros (2018 - length pay))
      30 (of_nat (length pay)) IP_PROTO"
proof -
  note wf = config_ok_wf [OF ok]
  have r: "fst (remote_intf q) < n_links (topo w)" using j by (simp add: joins_def)
  let ?d = "if_mac (iface (topo w) (remote_intf q))"
  let ?hd = "char_array IF_NAME_SIZE (if_name (iface (topo w) (remote_intf q)))"
  let ?b = "?hd @ (?d @ s) @ le16 IP_PROTO @ pay @ zeros (2018 - length pay)"
  have h: "length ?hd = 16" and d: "length ?d = 6" using length_header [OF wf r] length_if_mac [OF wf r] .
  have ds: "length (?d @ s) = 12" using d l by simp
  note f = ip_frame_fields [OF h ds, of "pay @ zeros (2018 - length pay)"]
  have dest: "eth_dest ?b 16 = Inr ?d"
    using frame_fields(1) [OF h d l(1), of IP_PROTO "pay @ zeros (2018 - length pay)"] by simp
  have c: "intf_cfg_ok (iface (topo w') (remote_intf q))" using config_ok_intf [OF ok r] t by simp
  have "layer2_frame_recv fuel E w' m (remote_intf q) ?b 16 (of_nat (14 + length pay)) =
      promote_pkt_to_layer2 (promote_pkt_to_layer3 fuel E) w' m (remote_intf q) ?b 16 (of_nat (14 + length pay))"
    by (rule host_accepts [OF c _ f(2) dest]) (use ip t in simp_all)
  then show ?thesis
    using node_receive_frame [OF wf j t, of "ip_frame ?d s pay" fuel E] l d f
    by (simp add: promote_pkt_to_layer2_def ip_frame_def)
qed

text \<open>Local delivery.\<close>

lemma ip_recv_local:
  assumes "graph_wf (topo w)" "n < n_nodes (topo w)" "own_address (topo w) n (ip_dest h) q"
    and "ip_hdr_ok h" "length pre = p"
  shows "promote_pkt_to_layer3 (Suc fuel) E w n i (pre @ ip_bytes h @ rest) p k IP_PROTO =
    (if proto h = ICMP_PROTO
     then process_icmp_pkt (layer3_pkt_receive_from_top fuel E) w n (pre @ ip_bytes h @ rest) p
     else Inr w)"
  using own_address_local [OF assms(1-3)] assms(3) rd_ip_at [OF assms(4,5), of rest]
  by (auto simp: promote_body_def layer3_ip_pkt_recv_from_layer2_def own_address_def has_direct_route_def)

lemma icmp_recv:
  assumes "ip_hdr_ok h" "IP_HDR_LEN_IN_BYTES h = 20" "length pre = p"
  shows "icmp_type i = ICMP_TYPE_ECHO_MESSAGE \<Longrightarrow>
      process_icmp_pkt g w n (pre @ ip_bytes h @ icmp_bytes i @ rest) p =
      g w n (icmp_bytes (make_icmp_echo_reply (icmp_identifier i) (seq_num i) (htonl (icmp_data i))))
        ICMP_PROTO (ip_src h)"
    and "icmp_type i = ICMP_TYPE_ECHO_REPLY \<Longrightarrow>
      process_icmp_pkt g w n (pre @ ip_bytes h @ icmp_bytes i @ rest) p =
      Inr (report_msg w (Echo_reply_received n (ip_len h - 20) [] (seq_num i) (TTL h)))"
    and "icmp_type i = ICMP_TYPE_DEST_UNREACH \<Longrightarrow> icmp_code i = ICMP_CODE_DEST_UNREACH_NET \<Longrightarrow>
      process_icmp_pkt g w n (pre @ ip_bytes h @ icmp_bytes i @ rest) p =
      Inr (report_msg w (Network_unreachable n (inet_ntop (ip_src h)) (inet_ntop (icmp_data i))))"
    and "icmp_type i = ICMP_TYPE_TIME_EXCEEDED \<Longrightarrow> icmp_code i = ICMP_CODE_TIME_EXCEEDED_TTL \<Longrightarrow>
      process_icmp_pkt g w n (pre @ ip_bytes h @ icmp_bytes i @ rest) p =
      Inr (report_msg w (Ttl_expired n (inet_ntop (ip_src h)) (inet_ntop (icmp_data i))))"
  using rd_ip_at [OF assms(1,3), of "icmp_bytes i @ rest"]
    rd_icmp_at [of "pre @ ip_bytes h" "p + 20" i rest] assms(2,3)
  by (simp_all add: process_icmp_pkt_def send_icmp_echo_reply_def convert_ip_from_int_to_str_def
      Let_def icmp_consts)

section \<open>Ping\<close>

text \<open>What a frame with an ICMP message, and perhaps more bytes, does at a host that it is meant for.\<close>

lemma host_gets_padded_icmp:
  assumes ok: "config_ok (topo w)" and j: "joins (topo w) q n m" and t: "topo w' = topo w"
    and own: "own_address (topo w) m a (remote_intf q)" and l: "length s = 6" "length tr \<le> 1986"
  shows "node_receive (Suc fuel) E w' m (dg_data (frame_dgram w q
        (ip_frame (if_mac (iface (topo w) (remote_intf q))) s
          (ip_bytes (top_hdr ICMP_PROTO a src 12) @ icmp_bytes i @ tr)))) =
    process_icmp_pkt (layer3_pkt_receive_from_top fuel E) w' m
      ((char_array IF_NAME_SIZE (if_name (iface (topo w) (remote_intf q))) @
        (if_mac (iface (topo w) (remote_intf q)) @ s) @ le16 IP_PROTO) @
        ip_bytes (top_hdr ICMP_PROTO a src 12) @ icmp_bytes i @ tr @ zeros (1986 - length tr)) 30"
proof -
  note wf = config_ok_wf [OF ok]
  let ?r = "remote_intf q" and ?h = "top_hdr ICMP_PROTO a src 12"
  let ?pre = "char_array IF_NAME_SIZE (if_name (iface (topo w) ?r)) @ (if_mac (iface (topo w) ?r) @ s) @ le16 IP_PROTO"
  let ?rest = "icmp_bytes i @ tr @ zeros (1986 - length tr)"
  have r: "fst ?r < n_links (topo w)" using j by (simp add: joins_def)
  have m: "m < n_nodes (topo w)" by (rule joins_nodes [OF wf j])
  have pre: "length ?pre = 30" using length_header [OF wf r] length_if_mac [OF wf r] l by simp
  have own': "own_address (topo w') m (ip_dest ?h) ?r" using own t by simp
  have ip: "is_ipadd_config (iface (topo w) ?r)" using own by (simp add: own_address_def)
  have "promote_pkt_to_layer3 (Suc fuel) E w' m (Some ?r) (?pre @ ip_bytes ?h @ ?rest) 30 (of_nat (32 + length tr)) IP_PROTO =
      process_icmp_pkt (layer3_pkt_receive_from_top fuel E) w' m (?pre @ ip_bytes ?h @ ?rest) 30"
    using ip_recv_local [OF _ _ own' top_hdr_ok pre, of fuel E "Some ?r" ?rest "of_nat (32 + length tr)"] wf m t
    by (simp del: promote_pkt_to_layer3.simps)
  then show ?thesis
    using host_gets_ip [OF ok j t ip l(1), of "ip_bytes ?h @ icmp_bytes i @ tr" "Suc fuel" E] l(2)
    by (simp add: add.assoc del: promote_pkt_to_layer3.simps)
qed

lemma host_gets_icmp:
  assumes "config_ok (topo w)" "joins (topo w) q n m" "topo w' = topo w"
    and "own_address (topo w) m a (remote_intf q)" "length s = 6"
  shows "node_receive (Suc fuel) E w' m (dg_data (frame_dgram w q
        (ip_frame (if_mac (iface (topo w) (remote_intf q))) s
          (ip_bytes (top_hdr ICMP_PROTO a src 12) @ icmp_bytes i)))) =
    process_icmp_pkt (layer3_pkt_receive_from_top fuel E) w' m
      ((char_array IF_NAME_SIZE (if_name (iface (topo w) (remote_intf q))) @
        (if_mac (iface (topo w) (remote_intf q)) @ s) @ le16 IP_PROTO) @
        ip_bytes (top_hdr ICMP_PROTO a src 12) @ icmp_bytes i @ zeros 1986) 30"
  using host_gets_padded_icmp [OF assms, of "[]"] by simp

text \<open>
  Two neighbours that can reach each other: each has its address on the link and the other's
  address on the link and in its ARP table.
\<close>

definition reachable :: "graph \<Rightarrow> ifptr \<Rightarrow> nid \<Rightarrow> nid \<Rightarrow> u32 \<Rightarrow> u32 \<Rightarrow> bool" where
  "reachable g q n m a b \<longleftrightarrow> joins g q n m \<and> own_address g n a q \<and> own_address g m b (remote_intf q) \<and>
     on_link g n b q \<and> on_link g m a (remote_intf q) \<and>
     has_mac g n b (if_mac (iface g (remote_intf q))) \<and> has_mac g m a (if_mac (iface g q))"

lemma reachable_sym: "reachable g q n m a b \<Longrightarrow> reachable g (remote_intf q) m n b a"
  by (auto simp: reachable_def joins_sym)

lemma icmp_to_neighbour:
  assumes ok: "config_ok (topo w)" and r: "reachable (topo w) q n m a b" and t: "topo w' = topo w"
  shows "layer3_pkt_receive_from_top (Suc fuel) E w' n (icmp_bytes i) ICMP_PROTO b =
    Inr (transmit w' q (ip_frame (if_mac (iface (topo w) (remote_intf q))) (if_mac (iface (topo w) q))
      (ip_bytes (top_hdr ICMP_PROTO b a 12) @ icmp_bytes i)))"
proof -
  note wf = config_ok_wf [OF ok]
  have j: "joins (topo w) q n m" using r by (simp add: reachable_def)
  have q: "fst (remote_intf q) < n_links (topo w)" using j by (simp add: joins_def)
  show ?thesis
    using from_top_on_link [of w' n b q a "if_mac (iface (topo w) (remote_intf q))" "icmp_bytes i" fuel E ICMP_PROTO]
      ok r t joins_nodes [OF wf j] length_if_mac [OF wf q]
    by (simp add: reachable_def own_address_def del: layer3_pkt_receive_from_top.simps)
qed

lemma icmp_at_neighbour:
  assumes ok: "config_ok (topo w)" and r: "reachable (topo w) q n m a b" and t: "topo w' = topo w"
  obtains pre where "length pre = 30"
    "\<And>i fuel. node_receive (Suc fuel) E w' m (dg_data (frame_dgram w q
        (ip_frame (if_mac (iface (topo w) (remote_intf q))) (if_mac (iface (topo w) q))
          (ip_bytes (top_hdr ICMP_PROTO b a 12) @ icmp_bytes i)))) =
      process_icmp_pkt (layer3_pkt_receive_from_top fuel E) w' m
        (pre @ ip_bytes (top_hdr ICMP_PROTO b a 12) @ icmp_bytes i @ zeros 1986) 30"
proof -
  note wf = config_ok_wf [OF ok]
  have j: "joins (topo w) q n m" and own: "own_address (topo w) m b (remote_intf q)"
    using r by (simp_all add: reachable_def)
  have q: "fst q < n_links (topo w)" "fst (remote_intf q) < n_links (topo w)" using j by (simp_all add: joins_def)
  note l = length_if_mac [OF wf q(1)] length_if_mac [OF wf q(2)]
  show thesis
    by (rule that [OF _ host_gets_icmp [OF ok j t own l(1)]])
      (use length_header [OF wf q(2)] l in simp)
qed

lemma echo_at_neighbour:
  assumes ok: "config_ok (topo w)" and r: "reachable (topo w) q n m a b" and t: "topo w' = topo w"
  shows "node_receive (Suc (Suc fuel)) E w' m (dg_data (frame_dgram w q
      (ip_frame (if_mac (iface (topo w) (remote_intf q))) (if_mac (iface (topo w) q))
        (ip_bytes (top_hdr ICMP_PROTO b a 12) @ icmp_bytes (make_icmp_echo_message ident sq))))) =
    Inr (transmit w' (remote_intf q) (ip_frame (if_mac (iface (topo w) q)) (if_mac (iface (topo w) (remote_intf q)))
      (ip_bytes (top_hdr ICMP_PROTO a b 12) @ icmp_bytes (make_icmp_echo_reply ident sq 0xEFBEADDE))))"
proof (rule icmp_at_neighbour [OF assms, of E])
  fix pre assume pre: "length (pre :: bytes) = 30"
    and g: "\<And>i fuel. node_receive (Suc fuel) E w' m (dg_data (frame_dgram w q
        (ip_frame (if_mac (iface (topo w) (remote_intf q))) (if_mac (iface (topo w) q))
          (ip_bytes (top_hdr ICMP_PROTO b a 12) @ icmp_bytes i)))) =
      process_icmp_pkt (layer3_pkt_receive_from_top fuel E) w' m
        (pre @ ip_bytes (top_hdr ICMP_PROTO b a 12) @ icmp_bytes i @ zeros 1986) 30"
  have d: "htonl 0xDEADBEEF = 0xEFBEADDE" by (simp add: htonl_def le32_def)
  show ?thesis
    using icmp_recv(1) [OF top_hdr_ok _ pre, of ICMP_PROTO b a 12 "make_icmp_echo_message ident sq"]
      icmp_to_neighbour [OF _ reachable_sym, of w q n m a b w' fuel E] ok r t d
    by (simp add: g make_icmp_echo_message_def del: layer3_pkt_receive_from_top.simps)
qed

lemma echo_reply_at_neighbour:
  assumes ok: "config_ok (topo w)" and r: "reachable (topo w) q n m a b" and t: "topo w' = topo w"
  shows "node_receive (Suc fuel) E w' m (dg_data (frame_dgram w q
      (ip_frame (if_mac (iface (topo w) (remote_intf q))) (if_mac (iface (topo w) q))
        (ip_bytes (top_hdr ICMP_PROTO b a 12) @ icmp_bytes (make_icmp_echo_reply ident sq x))))) =
    Inr (report_msg w' (Echo_reply_received m 12 [] sq 64))"
  by (rule icmp_at_neighbour [OF assms, of E])
    (use icmp_recv(2) [OF top_hdr_ok, of ICMP_PROTO b a 12 _ 30 "make_icmp_echo_reply ident sq x"] in
      \<open>simp add: make_icmp_echo_reply_def\<close>)

text \<open>Ping between neighbours: the echo message becomes one datagram; the neighbour answers it
  with one datagram; and when that arrives the pinging node reports 12 bytes with the
  sequence number and TTL 64, in a report without the address of the sender. Nothing else
  is sent and no table changes.\<close>

theorem ping_round_trip:
  assumes ok: "config_ok (topo w)" and r: "reachable (topo w) q n m a b"
  shows "\<exists>d1 d2 w1 w2 w3.
    send_icmp_echo_message (layer3_pkt_receive_from_top (Suc fuel) E) w n ident sq b = Inr w1 \<and>
    sent w1 = sent w @ [d1] \<and> dport d1 = node_port w m \<and>
    node_receive (Suc (Suc fuel)) E (w1\<lparr>sent := sent w\<rparr>) m (dg_data d1) = Inr w2 \<and>
    sent w2 = sent w @ [d2] \<and> dport d2 = node_port w n \<and>
    node_receive (Suc fuel) E (w2\<lparr>sent := sent w\<rparr>) n (dg_data d2) =
      Inr (report_msg w (Echo_reply_received n 12 [] sq 64))"
proof -
  let ?i = "iface (topo w) q" and ?r = "remote_intf q"
  let ?o = "iface (topo w) ?r"
  let ?e = "make_icmp_echo_message ident sq"
  let ?f1 = "ip_frame (if_mac ?o) (if_mac ?i) (ip_bytes (top_hdr ICMP_PROTO b a 12) @ icmp_bytes ?e)"
  let ?f2 = "ip_frame (if_mac ?i) (if_mac ?o) (ip_bytes (top_hdr ICMP_PROTO a b 12) @
    icmp_bytes (make_icmp_echo_reply ident sq 0xEFBEADDE))"
  let ?v1 = "(transmit w q ?f1)\<lparr>sent := sent w\<rparr>"
  let ?v2 = "(transmit ?v1 ?r ?f2)\<lparr>sent := sent w\<rparr>"
  have j: "joins (topo w) q n m" using r by (simp add: reachable_def)
  have s1: "send_icmp_echo_message (layer3_pkt_receive_from_top (Suc fuel) E) w n ident sq b = Inr (transmit w q ?f1)"
    using icmp_to_neighbour [OF ok r refl, of fuel E ?e]
    by (simp add: send_icmp_echo_message_def del: layer3_pkt_receive_from_top.simps)
  have v: "topo ?v1 = topo w" "topo ?v2 = topo w" "?v2 = w" by (simp_all add: transmit_def)
  have s2: "node_receive (Suc (Suc fuel)) E ?v1 m (dg_data (frame_dgram w q ?f1)) = Inr (transmit ?v1 ?r ?f2)"
    by (rule echo_at_neighbour [OF ok r v(1)])
  have s3: "node_receive (Suc fuel) E ?v2 n (dg_data (frame_dgram w ?r ?f2)) =
      Inr (report_msg w (Echo_reply_received n 12 [] sq 64))"
    unfolding v(3) using echo_reply_at_neighbour [OF ok reachable_sym [OF r] refl] by simp
  have ports: "dport (frame_dgram w q ?f1) = node_port w m" "dport (frame_dgram w ?r ?f2) = node_port w n"
    using j by (simp_all add: frame_dgram_def node_port_def joins_def get_nbr_node_remote)
  have dg: "frame_dgram ?v1 ?r ?f2 = frame_dgram w ?r ?f2" by (rule frame_dgram_topo) simp
  show ?thesis
    by (intro exI [of _ "frame_dgram w q ?f1"] exI [of _ "frame_dgram w ?r ?f2"]
        exI [of _ "transmit w q ?f1"] exI [of _ "transmit ?v1 ?r ?f2"] conjI)
      (use s1 s2 s3 ports dg in simp_all)
qed

section \<open>Routers\<close>

text \<open>Handing a received packet down again.\<close>

lemma demote_sends:
  assumes ok: "config_ok (topo w)" and q: "fst q < n_links (topo w)"
    and o: "oif = Some q \<and> get_node_if_by_name (topo w) n (if_name (iface (topo w) q)) = Some q \<or>
      oif = None \<and> \<not> is_layer3_local_delivery (topo w) n nh \<and>
      node_get_matching_subnet_interface (topo w) n (inet_ntop nh) = Inr (Some q)"
    and m: "has_mac (topo w) n nh m" "length m = 6"
    and l: "length pre = p" "length x = 14" "length pay = unat k" "unat k \<le> 2018" "length y = 4"
  shows "demote_pkt_to_layer2 E pm w n nh oif (pre @ x @ pay @ y @ rest) (p + 14) k =
    Inr (transmit w q (ip_frame m (if_mac (iface (topo w) q)) pay))"
proof -
  obtain e where e: "arp_table_lookup (node_arp_table (nodes (topo w) n)) (inet_ntop nh) = Some e" "arp_mac e = m"
    using m(1) by (rule has_macE)
  have k: "unat (14 + k) = 14 + unat k" using l(4) by (simp add: unat_word_ariths)
  have "l2_send_resolved w (Some q) e (pre @ zeros 12 @ le16 IP_PROTO @ pay @ zeros 4 @ rest) p (14 + k) =
      Inr (transmit w q (ip_frame (arp_mac e) (if_mac (iface (topo w) q)) pay))"
    by (rule l2_send_resolved_ok [OF config_ok_wf [OF ok] q]) (use e m l k in simp_all)
  moreover have "l2_forward_ip_packet E pm w n nh (map_option (\<lambda>q. if_name (iface (topo w) q)) oif)
      (pre @ zeros 12 @ le16 IP_PROTO @ pay @ zeros 4 @ rest) p (14 + k) =
    l2_send_resolved w (Some q) e (pre @ zeros 12 @ le16 IP_PROTO @ pay @ zeros 4 @ rest) p (14 + k)"
    by (rule l2_forward_resolved [OF _ e(1)]) (use o in auto)
  ultimately show ?thesis
    using demote_ok [OF l(1,2,3,5)] e(2) by simp
qed

lemma named_interface:
  assumes "config_ok g" "n < n_nodes g" "get_node_if_by_name g n nm = Some q"
  shows "if_name (iface g q) = nm" "fst q < n_links g"
proof -
  note wf = config_ok_wf [OF assms(1)]
  have f: "List.find (\<lambda>q. if_name (iface g q) = nm) (node_intfs g n) = Some q"
    using assms(3) by (simp add: get_node_if_by_name_find [OF graph_wf_node [OF wf assms(2)]])
  then show "if_name (iface g q) = nm" by (auto simp: find_Some_iff)
  have "q \<in> set (node_intfs g n)" using f by (auto simp: find_Some_iff)
  then show "fst q < n_links g" by (rule node_intfs_links [OF wf assms(2)])
qed

text \<open>The frame as the receiver has it, cut at the IP header and the four bytes behind it.\<close>

lemma host_gets_packet:
  assumes ok: "config_ok (topo w)" and j: "joins (topo w) q n m"
    and ip: "is_ipadd_config (iface (topo w) (remote_intf q))"
    and l: "length s = 6" "length data \<le> 1994" and h: "ip_hdr_ok h"
  obtains pre x y rest where "length pre = 16" "length x = 14" "length y = 4"
    "\<And>fuel. node_receive (Suc fuel) E w m (dg_data (frame_dgram w q
        (ip_frame (if_mac (iface (topo w) (remote_intf q))) s (ip_bytes h @ data)))) =
      layer3_ip_pkt_recv_from_layer2 E (layer3_pkt_receive_from_top fuel E) (promote_pkt_to_layer3 fuel E) w m
        (pre @ x @ (ip_bytes h @ data) @ y @ rest) 30 (of_nat (20 + length data))"
    "rd_ip (pre @ x @ (ip_bytes h @ data) @ y @ rest) 30 = Inr h"
    "\<And>t. wr (pre @ x @ (ip_bytes h @ data) @ y @ rest) 38 [t] =
      Inr (pre @ x @ (ip_bytes (h\<lparr>TTL := t\<rparr>) @ data) @ y @ rest)"
proof -
  note wf = config_ok_wf [OF ok]
  have r: "fst (remote_intf q) < n_links (topo w)" using j by (simp add: joins_def)
  let ?pre = "char_array IF_NAME_SIZE (if_name (iface (topo w) (remote_intf q)))"
  let ?x = "if_mac (iface (topo w) (remote_intf q)) @ s @ le16 IP_PROTO"
  let ?rest = "zeros (1994 - length data)"
  have z: "zeros (1998 - length data) = zeros 4 @ ?rest"
    using zeros_split [of 4 "1998 - length data"] l by simp
  have p: "length ?pre = 16" "length ?x = 14" using length_header [OF wf r] length_if_mac [OF wf r] l by simp_all
  have px: "length (?pre @ ?x) = 30" using p by simp
  show thesis
  proof (rule that [of ?pre ?x "zeros 4" ?rest])
    show "node_receive (Suc fuel) E w m (dg_data (frame_dgram w q
        (ip_frame (if_mac (iface (topo w) (remote_intf q))) s (ip_bytes h @ data)))) =
      layer3_ip_pkt_recv_from_layer2 E (layer3_pkt_receive_from_top fuel E) (promote_pkt_to_layer3 fuel E) w m
        (?pre @ ?x @ (ip_bytes h @ data) @ zeros 4 @ ?rest) 30 (of_nat (20 + length data))" for fuel
      using host_gets_ip [OF ok j refl ip l(1), of "ip_bytes h @ data" "Suc fuel" E] l
      by (simp add: promote_body_def z)
    show "rd_ip (?pre @ ?x @ (ip_bytes h @ data) @ zeros 4 @ ?rest) 30 = Inr h"
      using rd_ip_at [OF h px] by simp
    show "wr (?pre @ ?x @ (ip_bytes h @ data) @ zeros 4 @ ?rest) 38 [t] =
        Inr (?pre @ ?x @ (ip_bytes (h\<lparr>TTL := t\<rparr>) @ data) @ zeros 4 @ ?rest)" for t
      using wr_ttl_at [OF px, of h "data @ zeros 4 @ ?rest" t] by simp
  qed (use p in simp_all)
qed

text \<open>A router on the way of a packet.\<close>

lemma forward_step:
  assumes ok: "config_ok (topo w)" and j: "joins (topo w) q n m"
    and ip: "is_ipadd_config (iface (topo w) (remote_intf q))"
    and l: "length s = 6" "length data \<le> 1994" and h: "ip_hdr_ok h"
    and r: "l3rib_lookup_lpm (node_route_table (nodes (topo w) m)) (ip_dest h) = Inr (Some r)"
    and gw: "\<not> is_direct r" "rt_gw r = inet_ntop gw" "get_node_if_by_name (topo w) m (rt_oif r) = Some o'"
    and mac: "has_mac (topo w) m gw gw_mac" "length gw_mac = 6"
  shows "node_receive (Suc fuel) E w m (dg_data (frame_dgram w q
      (ip_frame (if_mac (iface (topo w) (remote_intf q))) s (ip_bytes h @ data)))) =
    (if TTL h = 1
     then send_icmp_time_exceeded (layer3_pkt_receive_from_top fuel E) w m (h\<lparr>TTL := 0\<rparr>)
     else Inr (transmit w o' (ip_frame gw_mac (if_mac (iface (topo w) o'))
            (ip_bytes (h\<lparr>TTL := TTL h - 1\<rparr>) @ data))))"
proof -
  have m: "m < n_nodes (topo w)" by (rule joins_nodes [OF config_ok_wf [OF ok] j])
  note o = named_interface [OF ok m gw(3)]
  have k: "unat (of_nat (20 + length data) :: u32) = 20 + length data"
    using l by (simp add: unat_word_ariths unat_of_nat)
  have dec: "TTL h - 1 = 0 \<longleftrightarrow> TTL h = 1" by simp
  obtain pre x y rest where pre: "length pre = 16" "length x = 14" "length y = 4"
    and g: "\<And>fuel. node_receive (Suc fuel) E w m (dg_data (frame_dgram w q
        (ip_frame (if_mac (iface (topo w) (remote_intf q))) s (ip_bytes h @ data)))) =
      layer3_ip_pkt_recv_from_layer2 E (layer3_pkt_receive_from_top fuel E) (promote_pkt_to_layer3 fuel E) w m
        (pre @ x @ (ip_bytes h @ data) @ y @ rest) 30 (of_nat (20 + length data))"
    and rw: "rd_ip (pre @ x @ (ip_bytes h @ data) @ y @ rest) 30 = Inr h"
    "\<And>t. wr (pre @ x @ (ip_bytes h @ data) @ y @ rest) 38 [t] =
      Inr (pre @ x @ (ip_bytes (h\<lparr>TTL := t\<rparr>) @ data) @ y @ rest)"
    by (rule host_gets_packet [OF ok j ip l h, of E]) blast
  have d: "demote_pkt_to_layer2 E (promote_pkt_to_layer3 fuel E) w m gw (Some o')
      (pre @ x @ (ip_bytes (h\<lparr>TTL := t\<rparr>) @ data) @ y @ rest) (16 + 14) (of_nat (20 + length data)) =
    Inr (transmit w o' (ip_frame gw_mac (if_mac (iface (topo w) o')) (ip_bytes (h\<lparr>TTL := t\<rparr>) @ data)))" for t
    by (rule demote_sends [OF ok o(2) _ mac pre(1,2) _ _ pre(3)]) (use o(1) gw(3) k l in simp_all)
  show ?thesis
    using r gw d [of "TTL h - 1"] dec rw(1) rw(2) [of "TTL h - 1"]
    by (simp add: g layer3_ip_pkt_recv_from_layer2_def l3_is_direct_route_def pton_into_def Let_def)
qed

text \<open>C7: a router that has a route over a gateway and the gateway's MAC address sends a received
  packet on: out of the interface of the route, to the gateway, with its payload and every
  header field but the TTL unchanged, and the TTL one lower. A packet that arrives with TTL 1
  is answered with Time Exceeded instead. TTL 0 is not recognised: it goes out with 255.\<close>

theorem router_forwards:
  assumes ok: "config_ok (topo w)" and j: "joins (topo w) q n m"
    and ip: "is_ipadd_config (iface (topo w) (remote_intf q))"
    and l: "length s = 6" "length data \<le> 1994" and h: "ip_hdr_ok h"
    and r: "l3rib_lookup_lpm (node_route_table (nodes (topo w) m)) (ip_dest h) = Inr (Some r)"
    and gw: "\<not> is_direct r" "rt_gw r = inet_ntop gw" "get_node_if_by_name (topo w) m (rt_oif r) = Some o'"
    and mac: "has_mac (topo w) m gw gw_mac" "length gw_mac = 6"
  shows "node_receive (Suc fuel) E w m (dg_data (frame_dgram w q
      (ip_frame (if_mac (iface (topo w) (remote_intf q))) s (ip_bytes h @ data)))) =
    (if TTL h = 1
     then send_icmp_time_exceeded (layer3_pkt_receive_from_top fuel E) w m (h\<lparr>TTL := 0\<rparr>)
     else Inr (transmit w o' (ip_frame gw_mac (if_mac (iface (topo w) o'))
            (ip_bytes (h\<lparr>TTL := TTL h - 1\<rparr>) @ data))))"
  by (rule forward_step [OF ok j ip l h r gw mac])

text \<open>C14: a router hands a packet for a host on one of its links to that host unchanged, TTL
  included.\<close>

theorem connected_delivery:
  assumes ok: "config_ok (topo w)" and j: "joins (topo w) q n m"
    and ip: "is_ipadd_config (iface (topo w) (remote_intf q))"
    and l: "length s = 6" "length data \<le> 1994" and h: "ip_hdr_ok h"
    and r: "on_link (topo w) m (ip_dest h) o'"
    and mac: "has_mac (topo w) m (ip_dest h) host_mac" "length host_mac = 6"
  shows "node_receive (Suc fuel) E w m (dg_data (frame_dgram w q
      (ip_frame (if_mac (iface (topo w) (remote_intf q))) s (ip_bytes h @ data)))) =
    Inr (transmit w o' (ip_frame host_mac (if_mac (iface (topo w) o')) (ip_bytes h @ data)))"
proof -
  have m: "m < n_nodes (topo w)" by (rule joins_nodes [OF config_ok_wf [OF ok] j])
  obtain rt where rt: "has_direct_route (topo w) m (ip_dest h) rt"
    and o: "\<not> is_layer3_local_delivery (topo w) m (ip_dest h)"
    "node_get_matching_subnet_interface (topo w) m (inet_ntop (ip_dest h)) = Inr (Some o')"
    using r by (auto simp: on_link_def)
  note q = subnet_interface_links [OF ok m o(2)]
  have k: "unat (of_nat (20 + length data) :: u32) = 20 + length data"
    using l by (simp add: unat_word_ariths unat_of_nat)
  obtain pre x y rest where pre: "length pre = 16" "length x = 14" "length y = 4"
    and g: "\<And>fuel. node_receive (Suc fuel) E w m (dg_data (frame_dgram w q
        (ip_frame (if_mac (iface (topo w) (remote_intf q))) s (ip_bytes h @ data)))) =
      layer3_ip_pkt_recv_from_layer2 E (layer3_pkt_receive_from_top fuel E) (promote_pkt_to_layer3 fuel E) w m
        (pre @ x @ (ip_bytes h @ data) @ y @ rest) 30 (of_nat (20 + length data))"
    and rw: "rd_ip (pre @ x @ (ip_bytes h @ data) @ y @ rest) 30 = Inr h"
    by (rule host_gets_packet [OF ok j ip l h, of E]) blast
  have "demote_pkt_to_layer2 E (promote_pkt_to_layer3 fuel E) w m (ip_dest h) None
      (pre @ x @ (ip_bytes h @ data) @ y @ rest) (16 + 14) (of_nat (20 + length data)) =
    Inr (transmit w o' (ip_frame host_mac (if_mac (iface (topo w) o')) (ip_bytes h @ data)))"
    by (rule demote_sends [OF ok q(2) _ mac pre(1,2) _ _ pre(3)]) (use o k l in simp_all)
  then show ?thesis
    using rt o rw by (simp add: g layer3_ip_pkt_recv_from_layer2_def has_direct_route_def)
qed

section \<open>Two hosts that know each other\<close>

lemma local_delivery_iff:
  assumes "graph_wf g" "n < n_nodes g"
  shows "is_layer3_local_delivery g n a \<longleftrightarrow> lb_addr (nodes g n) = inet_ntop a \<or>
    (\<exists>q \<in> set (node_intfs g n). is_ipadd_config (iface g q) \<and> ip_add (iface g q) = inet_ntop a)"
proof -
  have "set (node_intfs g n) = {q. Some q \<in> set (intf (nodes g n))}"
    using node_wf_slots [OF graph_wf_node [OF assms]] by (auto simp: set_slots)
  then show ?thesis
    by (force simp: is_layer3_local_delivery_def Let_def list_ex_iff IS_INTF_L3_MODE_def
        convert_ip_from_int_to_str_def split: option.splits)
qed

lemma covers_direct_route [simp]: "covers (direct_route d m) w \<longleftrightarrow> same_prefix m d w"
  by (simp add: covers_def direct_route_def network_eq_iff)

lemma direct_route_sel [simp]:
  "rt_mask (direct_route d m) = m" "l3_is_direct_route (direct_route d m)"
  "rt_dest (direct_route d m) = inet_ntop (network d m)"
  by (simp_all add: direct_route_def l3_is_direct_route_def)

lemma example_prefixes:
  "same_prefix 24 0x0101010A 0x0101010A" "same_prefix 24 0x0101010A 0x0201010A"
  "same_prefix 24 0x0201010A 0x0101010A" "same_prefix 24 0x0201010A 0x0201010A"
  "\<not> same_prefix 32 0x01010101 0x0101010A" "\<not> same_prefix 32 0x01010101 0x0201010A"
  "\<not> same_prefix 32 0x02020202 0x0101010A" "\<not> same_prefix 32 0x02020202 0x0201010A"
  "network 0x0101010A 24 = 0x0001010A" "network 0x0201010A 24 = 0x0001010A"
  "same_prefix 24 0x0101010A 0x0001010A" "same_prefix 24 0x0201010A 0x0001010A"
  by code_simp+

definition resolved_graph :: graph where
  "resolved_graph =
     upd_node (upd_node host_graph
       0 (\<lambda>nd. nd\<lparr>node_arp_table := arp_learn (node_arp_table nd) (inet_ntop 0x0201010A)
            (if_mac (iface host_graph (0, Intf2)), ''eth0'')\<rparr>)
       ) 1 (\<lambda>nd. nd\<lparr>node_arp_table := arp_learn (node_arp_table nd) (inet_ntop 0x0101010A)
            (if_mac (iface host_graph (0, Intf1)), ''eth1'')\<rparr>)"

lemma arp_learned_cfg_ok:
  "node_cfg_ok nd \<Longrightarrow> node_cfg_ok (nd\<lparr>node_arp_table := arp_learn (node_arp_table nd) ip v\<rparr>)"
  using arpt.inv_learn by (simp add: node_cfg_ok_def)

lemma config_ok_resolved: "config_ok resolved_graph"
  unfolding resolved_graph_def
  by (intro config_ok_upd_node configured_ok [OF configured_host_graph]) (simp_all add: arp_learned_cfg_ok)

lemma resolved_graph_sel:
  "n_nodes resolved_graph = 2" "n_links resolved_graph = 1"
  "iface resolved_graph q = iface host_graph q"
  "node_intfs resolved_graph 0 = [(0, Intf1)]" "node_intfs resolved_graph 1 = [(0, Intf2)]"
  "lb_addr (nodes resolved_graph 0) = inet_ntop 0x01010101"
  "lb_addr (nodes resolved_graph 1) = inet_ntop 0x02020202"
  "node_route_table (nodes resolved_graph 0) = [direct_route 0x0101010A 24, direct_route 0x01010101 32]"
  "node_route_table (nodes resolved_graph 1) = [direct_route 0x0201010A 24, direct_route 0x02020202 32]"
  using host_graph_sel example_tables
  by (simp_all add: resolved_graph_def node_intfs_def host_graph_def with_loopbacks_def del: One_nat_def)

lemma resolved_has_mac:
  "has_mac resolved_graph 0 0x0201010A (if_mac (iface host_graph (0, Intf2)))"
  "has_mac resolved_graph 1 0x0101010A (if_mac (iface host_graph (0, Intf1)))"
proof -
  have "node_cfg_ok (nodes host_graph 0)" "node_cfg_ok (nodes host_graph 1)"
    using config_ok_node [OF configured_ok [OF configured_host_graph]] host_graph_sel(1) by simp_all
  then show "has_mac resolved_graph 0 0x0201010A (if_mac (iface host_graph (0, Intf2)))"
    "has_mac resolved_graph 1 0x0101010A (if_mac (iface host_graph (0, Intf1)))"
    using arpt.lookup_learn
    by (simp_all add: has_mac_def resolved_graph_def node_cfg_ok_def del: One_nat_def)
qed

lemma resolved_lookups:
  "has_direct_route resolved_graph 0 0x0101010A (direct_route 0x0101010A 24)"
  "has_direct_route resolved_graph 0 0x0201010A (direct_route 0x0101010A 24)"
  "has_direct_route resolved_graph 1 0x0101010A (direct_route 0x0201010A 24)"
  "has_direct_route resolved_graph 1 0x0201010A (direct_route 0x0201010A 24)"
proof -
  have "rt_ok (node_route_table (nodes resolved_graph 0))" "rt_ok (node_route_table (nodes resolved_graph 1))"
    using config_ok_node [OF config_ok_resolved] resolved_graph_sel(1) by (simp_all add: node_cfg_ok_def)
  then show "has_direct_route resolved_graph 0 0x0101010A (direct_route 0x0101010A 24)"
    "has_direct_route resolved_graph 0 0x0201010A (direct_route 0x0101010A 24)"
    "has_direct_route resolved_graph 1 0x0101010A (direct_route 0x0201010A 24)"
    "has_direct_route resolved_graph 1 0x0201010A (direct_route 0x0201010A 24)"
    by (simp_all add: has_direct_route_def l3rib_lookup_fold resolved_graph_sel example_prefixes
        del: One_nat_def)
qed

lemma resolved_reachable: "reachable resolved_graph (0, Intf1) 0 1 0x0101010A 0x0201010A"
proof -
  note wf = config_ok_wf [OF config_ok_resolved]
  have n: "0 < n_nodes resolved_graph" "1 < n_nodes resolved_graph" by (simp_all add: resolved_graph_sel)
  have own: "own_address resolved_graph 0 0x0101010A (0, Intf1)" "own_address resolved_graph 1 0x0201010A (0, Intf2)"
    using resolved_lookups(1,4) by (auto simp: own_address_def resolved_graph_sel host_graph_sel simp del: One_nat_def)
  have nl: "\<not> is_layer3_local_delivery resolved_graph 0 0x0201010A" "\<not> is_layer3_local_delivery resolved_graph 1 0x0101010A"
    by (simp_all add: local_delivery_iff [OF wf n(1)] local_delivery_iff [OF wf n(2)] resolved_graph_sel host_graph_sel
        del: One_nat_def)
  have f: "node_get_matching_subnet_interface resolved_graph 0 (inet_ntop 0x0201010A) = Inr (Some (0, Intf1))"
    "node_get_matching_subnet_interface resolved_graph 1 (inet_ntop 0x0101010A) = Inr (Some (0, Intf2))"
    "node_get_matching_subnet_interface resolved_graph 0 (inet_ntop (network 0x0101010A 24)) = Inr (Some (0, Intf1))"
    "node_get_matching_subnet_interface resolved_graph 1 (inet_ntop (network 0x0201010A 24)) = Inr (Some (0, Intf2))"
    by (simp_all add: matching_subnet_find [OF config_ok_resolved n(1)] matching_subnet_find [OF config_ok_resolved n(2)]
        resolved_graph_sel host_graph_sel on_subnet_def intf_addr_def example_prefixes
        del: One_nat_def)
  have ol: "on_link resolved_graph 0 0x0201010A (0, Intf1)" "on_link resolved_graph 1 0x0101010A (0, Intf2)"
    using nl f resolved_lookups(2,3) unfolding on_link_def by (metis direct_route_sel(3))+
  have j: "joins resolved_graph (0, Intf1) 0 1"
    by (simp add: joins_def resolved_graph_sel host_graph_sel unique_names_def remote_intf_def del: One_nat_def)
  show ?thesis
    using own ol j resolved_has_mac
    by (simp add: reachable_def remote_intf_def resolved_graph_sel del: One_nat_def)
qed

definition resolved_world :: world where
  "resolved_world = \<lparr>topo = resolved_graph, sent = [], reports = []\<rparr>"

lemma ping_round_trip_witness:
  "\<exists>d1 d2 w1 w2 w3.
    send_icmp_echo_message (layer3_pkt_receive_from_top (Suc 0) example_env) resolved_world 0 1 1 0x0201010A = Inr w1 \<and>
    sent w1 = sent resolved_world @ [d1] \<and> dport d1 = node_port resolved_world 1 \<and>
    node_receive (Suc (Suc 0)) example_env (w1\<lparr>sent := sent resolved_world\<rparr>) 1 (dg_data d1) = Inr w2 \<and>
    sent w2 = sent resolved_world @ [d2] \<and> dport d2 = node_port resolved_world 0 \<and>
    node_receive (Suc 0) example_env (w2\<lparr>sent := sent resolved_world\<rparr>) 0 (dg_data d2) =
      Inr (report_msg resolved_world (Echo_reply_received 0 12 [] 1 64))"
  by (rule ping_round_trip [where q = "(0, Intf1)" and a = "0x0101010A"])
    (simp_all add: resolved_world_def config_ok_resolved resolved_reachable del: One_nat_def)

text \<open>The second host as a router with a route to 40.0.0.0/8 over the first one.\<close>

definition example_route :: layer3_route where
  "example_route = \<lparr>rt_dest = inet_ntop (network 0x00000028 8), rt_mask = 8, is_direct = False,
     rt_gw = inet_ntop 0x0101010A, rt_oif = ''eth1''\<rparr>"

definition router_world :: world where
  "router_world = resolved_world\<lparr>topo := upd_node resolved_graph 1
     (\<lambda>nd. nd\<lparr>node_route_table := example_route # node_route_table nd\<rparr>)\<rparr>"

lemma router_world_sel:
  "n_nodes (topo router_world) = 2" "n_links (topo router_world) = 1"
  "iface (topo router_world) q = iface host_graph q"
  "node_intfs (topo router_world) k = node_intfs resolved_graph k"
  "node_arp_table (nodes (topo router_world) k) = node_arp_table (nodes resolved_graph k)"
  "node_route_table (nodes (topo router_world) 1) =
     [example_route, direct_route 0x0201010A 24, direct_route 0x02020202 32]"
  by (simp_all add: router_world_def resolved_graph_sel node_intfs_def del: One_nat_def)

lemma config_ok_router: "config_ok (topo router_world)"
  unfolding router_world_def
  by (simp, rule config_ok_upd_node [OF config_ok_resolved])
    (auto simp: node_cfg_ok_def rt_ok_def example_route_def valid_mask_def)

lemma joins_resolved: "joins resolved_graph (0, Intf1) 0 1"
  using resolved_reachable by (simp add: reachable_def)

lemma joins_router: "joins (topo router_world) (0, Intf1) 0 1"
  using joins_resolved by (simp add: joins_def router_world_sel resolved_graph_sel unique_names_def del: One_nat_def)

lemma example_route_lookup:
  "l3rib_lookup_lpm (node_route_table (nodes (topo router_world) 1)) 0x01010128 = Inr (Some example_route)"
proof -
  have ok: "rt_ok [example_route, direct_route 0x0201010A 24, direct_route 0x02020202 32]"
    using config_ok_node [OF config_ok_router, of 1] by (simp add: node_cfg_ok_def router_world_sel del: One_nat_def)
  have "same_prefix 8 0x00000028 0x01010128" by code_simp
  then have c: "covers example_route 0x01010128"
    by (simp add: covers_def network_eq_iff example_route_def)
  have n: "\<not> same_prefix 24 0x0201010A 0x01010128" "\<not> same_prefix 32 0x02020202 0x01010128"
    by code_simp+
  show ?thesis
    unfolding router_world_sel l3rib_lookup_fold [OF ok]
    using c n by (simp add: example_route_def)
qed

lemma router_by_name: "get_node_if_by_name (topo router_world) 1 ''eth1'' = Some (0, Intf2)"
proof -
  have "node_wf (topo router_world) 1"
    by (rule graph_wf_node [OF config_ok_wf [OF config_ok_router]]) (simp add: router_world_sel)
  then show ?thesis
    by (simp add: get_node_if_by_name_find router_world_sel resolved_graph_sel host_graph_sel del: One_nat_def)
qed

lemma router_forwards_witness:
  "let h = (top_hdr ICMP_PROTO 0x01010128 0x0101010A 0)\<lparr>TTL := 9\<rparr> in
   node_receive (Suc 0) example_env router_world 1 (dg_data (frame_dgram router_world (0, Intf1)
      (ip_frame (if_mac (iface (topo router_world) (remote_intf (0, Intf1)))) (zeros 6) (ip_bytes h @ [])))) =
   Inr (transmit router_world (0, Intf2)
      (ip_frame (if_mac (iface host_graph (0, Intf1))) (if_mac (iface (topo router_world) (0, Intf2)))
        (ip_bytes (h\<lparr>TTL := 8\<rparr>) @ [])))"
proof -
  let ?h = "(top_hdr ICMP_PROTO 0x01010128 0x0101010A 0)\<lparr>TTL := 9\<rparr>"
  have h: "ip_hdr_ok ?h" using top_hdr_ok by (simp add: ip_hdr_ok_def)
  have d: "ip_dest ?h = 0x01010128" "TTL ?h = 9" by simp_all
  have mac: "has_mac (topo router_world) 1 0x0101010A (if_mac (iface host_graph (0, Intf1)))"
    using resolved_has_mac(2) by (simp add: has_mac_def router_world_sel)
  have l: "length (if_mac (iface host_graph (0, Intf1))) = 6"
    by (rule length_if_mac [OF config_ok_wf [OF configured_ok [OF configured_host_graph]]]) (simp add: host_graph_sel)
  have ip: "is_ipadd_config (iface (topo router_world) (remote_intf (0, Intf1)))"
    by (simp add: router_world_sel host_graph_sel remote_intf_def)
  have rt: "l3rib_lookup_lpm (node_route_table (nodes (topo router_world) 1)) (ip_dest ?h) = Inr (Some example_route)"
    unfolding d by (rule example_route_lookup)
  show ?thesis
    unfolding Let_def
    by (subst router_forwards [OF config_ok_router joins_router ip _ _ h rt _ _ _ mac l, where o' = "(0, Intf2)"])
      (use router_by_name in \<open>simp_all add: example_route_def\<close>)
qed

lemma connected_delivery_witness:
  "let h = top_hdr ICMP_PROTO 0x0101010A 0x07070707 0 in
   node_receive (Suc 0) example_env resolved_world 1 (dg_data (frame_dgram resolved_world (0, Intf1)
      (ip_frame (if_mac (iface (topo resolved_world) (remote_intf (0, Intf1)))) (zeros 6) (ip_bytes h @ [])))) =
   Inr (transmit resolved_world (0, Intf2)
      (ip_frame (if_mac (iface host_graph (0, Intf1))) (if_mac (iface (topo resolved_world) (0, Intf2)))
        (ip_bytes h @ [])))"
proof -
  have t: "topo resolved_world = resolved_graph" by (simp add: resolved_world_def)
  have l: "length (if_mac (iface host_graph (0, Intf1))) = 6"
    by (rule length_if_mac [OF config_ok_wf [OF configured_ok [OF configured_host_graph]]]) (simp add: host_graph_sel)
  have r: "on_link (topo resolved_world) 1 0x0101010A (0, Intf2)"
    using resolved_reachable by (simp add: reachable_def t remote_intf_def)
  have mac: "has_mac (topo resolved_world) 1 0x0101010A (if_mac (iface host_graph (0, Intf1)))"
    using resolved_has_mac(2) by (simp add: t)
  show ?thesis
    unfolding Let_def
    by (rule connected_delivery [where n = 0])
      (use config_ok_resolved joins_resolved r mac l in
        \<open>simp_all add: t resolved_graph_sel host_graph_sel remote_intf_def top_hdr_ok\<close>)
qed

end
