(* ===== verification/Depth.thy ===== *)
theory Depth
  imports Delivery
begin

text \<open>
  The cycle of calls between layers 2 and 3: for which nodes it ends, how deep it goes, and
  that the bound on the depth has no influence then; and a node for which it does not end.
\<close>

section \<open>What the bound changes\<close>

text \<open>
  A result of a bounded run approximates another when it is that result or the bound was hit.
\<close>

definition returns :: "'a res \<Rightarrow> bool" where
  "returns x \<longleftrightarrow> x \<noteq> Inl Out_of_fuel"

definition below :: "'a res \<Rightarrow> 'a res \<Rightarrow> bool" where
  "below x y \<longleftrightarrow> returns x \<longrightarrow> x = y"

lemma below_refl [simp]: "below x x"
  by (simp add: below_def)

lemma below_hit [simp]: "below (Inl Out_of_fuel) y"
  by (simp add: below_def returns_def)

lemma below_rbind: "(\<And>x. m = Inr x \<Longrightarrow> below (f x) (g x)) \<Longrightarrow> below (rbind m f) (rbind m g)"
  by (cases m) simp_all

lemma below_if: "(c \<Longrightarrow> below a a') \<Longrightarrow> (\<not> c \<Longrightarrow> below b b') \<Longrightarrow> below (if c then a else b) (if c then a' else b')"
  by simp

definition below_top :: "top_fun \<Rightarrow> top_fun \<Rightarrow> bool" where
  "below_top g g' \<longleftrightarrow> (\<forall>w n x t d. below (g w n x t d) (g' w n x t d))"

definition below_promote :: "promote_fun \<Rightarrow> promote_fun \<Rightarrow> bool" where
  "below_promote f f' \<longleftrightarrow> (\<forall>w n q b p k t. below (f w n q b p k t) (f' w n q b p k t))"

lemma below_demote:
  "below_promote f f' \<Longrightarrow> below (demote_pkt_to_layer2 E f w n nh q b p k) (demote_pkt_to_layer2 E f' w n nh q b p k)"
  by (auto simp: demote_pkt_to_layer2_def l2_forward_ip_packet_def Let_def below_promote_def
      intro!: below_rbind split: prod.split)

lemma below_bodies:
  assumes g: "below_top g g'" and f: "below_promote f f'"
  shows "below_top (from_top_body E g f) (from_top_body E g' f')"
    and "below_promote (promote_body E g f) (promote_body E g' f')"
proof -
  have top: "below (g w n x t d) (g' w n x t d)" for w n x t d using g by (simp add: below_top_def)
  show "below_top (from_top_body E g f) (from_top_body E g' f')"
    using below_demote [OF f] top
    by (auto simp: below_top_def from_top_body_def send_icmp_dest_unreacheable_def Let_def
        intro!: below_rbind split: option.split prod.split)
  show "below_promote (promote_body E g f) (promote_body E g' f')"
    using below_demote [OF f] top
    by (auto simp: below_promote_def promote_body_def layer3_ip_pkt_recv_from_layer2_def
        send_icmp_dest_unreacheable_def send_icmp_time_exceeded_def process_icmp_pkt_def
        send_icmp_echo_reply_def Let_def intro!: below_rbind split: option.split)
qed

lemma below_Suc:
  "below_top (layer3_pkt_receive_from_top fuel E) (layer3_pkt_receive_from_top (Suc fuel) E) \<and>
   below_promote (promote_pkt_to_layer3 fuel E) (promote_pkt_to_layer3 (Suc fuel) E)"
proof (induction fuel)
  case 0
  then show ?case by (simp add: below_top_def below_promote_def)
next
  case (Suc fuel)
  have e: "layer3_pkt_receive_from_top (Suc k) E =
      from_top_body E (layer3_pkt_receive_from_top k E) (promote_pkt_to_layer3 k E)"
    "promote_pkt_to_layer3 (Suc k) E =
      promote_body E (layer3_pkt_receive_from_top k E) (promote_pkt_to_layer3 k E)" for k
    by (simp_all add: fun_eq_iff)
  show ?case
    using below_bodies [OF Suc [THEN conjunct1] Suc [THEN conjunct2], of E]
    unfolding e [symmetric] by (rule conjI)
qed

text \<open>A run that returns within a bound returns the same under every larger one.\<close>

lemma more_fuel:
  assumes "k \<le> fuel"
  shows "below (layer3_pkt_receive_from_top k E w n x t d) (layer3_pkt_receive_from_top fuel E w n x t d)"
    and "below (promote_pkt_to_layer3 k E w n q b p s ty) (promote_pkt_to_layer3 fuel E w n q b p s ty)"
  using assms
proof (induction rule: dec_induct)
  case (step m)
  { case 1 then show ?case using step.IH(1) below_Suc [of m E] by (force simp: below_def below_top_def) }
  { case 2 then show ?case using step.IH(2) below_Suc [of m E] by (force simp: below_def below_promote_def) }
qed simp_all

section \<open>Functions outside the cycle return\<close>

named_theorems returning

lemma returns_Inr [simp, returning]: "returns (Inr x)"
  by (simp add: returns_def)

lemma returns_Inl [simp]: "returns (Inl e) \<longleftrightarrow> e \<noteq> Out_of_fuel"
  by (simp add: returns_def)

lemma returns_rbind [returning]:
  "returns m \<Longrightarrow> (\<And>x. m = Inr x \<Longrightarrow> returns (f x)) \<Longrightarrow> returns (rbind m f)"
  by (cases m) simp_all

lemma returns_memory [returning]:
  "returns (rd b p n)" "returns (wr b p x)" "returns (rd16 b p)" "returns (wr16 b p h)"
  "returns (deref q)" "returns (ptr_minus i j)"
  by (simp_all add: rd_def wr_def rd16_def wr16_def deref_def ptr_minus_def rbind_def returns_def
      split: option.split)

lemma returns_fields [returning]:
  "returns (rd_ip b p)" "returns (rd_icmp b p)" "returns (eth_type b p)" "returns (is_pkt_vlan_tagged b p)"
  "returns (get_ethernet_frame_payload b p)" "returns (get_eth_hdr_size_excl_payload b p)"
  "returns (set_common_eth_fcs b p s c)" "returns (ALLOC_ETH_HDR_WITH_PAYLOAD b p s)"
  "returns (pkt_buffer_shift_right b s s')"
  by (auto simp: rd_ip_def rd_icmp_def eth_type_def is_pkt_vlan_tagged_def get_ethernet_frame_payload_def
      get_eth_hdr_size_excl_payload_def set_common_eth_fcs_def ALLOC_ETH_HDR_WITH_PAYLOAD_def
      pkt_buffer_shift_right_def Let_def intro!: returning)

lemma returns_apply_mask [returning]: "returns (apply_mask s m)"
  by (auto simp: apply_mask_def prefix_bits_def Let_def intro!: returning)

lemma returns_subnet_loop: "returns (subnet_loop g a ss)"
  by (induction g a ss rule: subnet_loop.induct) (auto intro!: returning)

lemma returns_lpm_loop: "returns (lpm_loop s t m b)"
  by (induction s t m b rule: lpm_loop.induct) (auto intro!: returning)

lemma returns_lookups [returning]:
  "returns (node_get_matching_subnet_interface g n a)" "returns (l3rib_lookup_lpm t d)"
  by (simp_all add: node_get_matching_subnet_interface_def l3rib_lookup_lpm_def returns_subnet_loop returns_lpm_loop)

lemma returns_send [returning]: "returns (send_pkt_out w b p k q)"
  by (auto simp: send_pkt_out_def Let_def intro!: returning split: option.split)

lemma returns_arp_request [returning]: "returns (send_arp_broadcast_request w n q ip)"
  by (auto simp: send_arp_broadcast_request_def arp_request_on_def fill_arp_frame_def Let_def
      intro!: returning split: option.split)

lemma returns_resolved [returning]: "returns (l2_send_resolved w q e b p k)"
  by (auto simp: l2_send_resolved_def intro!: returning)

lemma returns_l2_forward:
  assumes "nm = None \<Longrightarrow> is_layer3_local_delivery (topo w) n nh \<Longrightarrow> (\<And>b p k t. returns (f w n None b p k t))"
  shows "returns (l2_forward_ip_packet E f w n nh nm b p k)"
  using assms
  by (auto simp: l2_forward_ip_packet_def Let_def intro!: returning split: option.split)

lemma returns_demote:
  assumes "oif = None \<Longrightarrow> is_layer3_local_delivery (topo w) n nh \<Longrightarrow> (\<And>b p k t. returns (f w n None b p k t))"
  shows "returns (demote_pkt_to_layer2 E f w n nh oif b p k)"
  using assms
  by (auto simp: demote_pkt_to_layer2_def intro!: returning returns_l2_forward split: prod.split)

lemma returns_choose_source [returning]: "returns (choose_source E w n r)"
  by (auto simp: choose_source_def intro!: returning split: option.split)


section \<open>The depth of the cycle\<close>

text \<open>
  The conditions on a node: its loopback address leads to a direct route and is the node's
  own; and routes over a gateway name an interface of the node.
\<close>

definition loopback :: "graph \<Rightarrow> nid \<Rightarrow> u32" where
  "loopback g n = pton_into (lb_addr (nodes g n)) 0"

definition well_routed :: "graph \<Rightarrow> nid \<Rightarrow> bool" where
  "well_routed g n \<longleftrightarrow> is_layer3_local_delivery g n (loopback g n) \<and>
     (\<exists>r. has_direct_route g n (loopback g n) r) \<and>
     (\<forall>r \<in> set (node_route_table (nodes g n)).
        is_direct r \<or> get_node_if_by_name g n (rt_oif r) \<noteq> None)"

text \<open>An ICMP message that asks for no answer.\<close>

definition final_icmp :: "icmp_pkt \<Rightarrow> bool" where
  "final_icmp i \<longleftrightarrow> icmp_type i \<noteq> ICMP_TYPE_ECHO_MESSAGE"

lemma lookup_in_route_table: "l3rib_lookup_lpm t d = Inr (Some r) \<Longrightarrow> r \<in> set t"
proof -
  have "lpm_loop s t m b = Inr (Some r) \<Longrightarrow> r \<in> set t \<or> b = Some r" for s m b
    by (induction s t m b rule: lpm_loop.induct) (auto simp: rbind_eq_Inr split: if_splits)
  then show "l3rib_lookup_lpm t d = Inr (Some r) \<Longrightarrow> r \<in> set t"
    by (fastforce simp: l3rib_lookup_lpm_def)
qed

lemma process_final:
  assumes "ip_hdr_ok h" "IP_HDR_LEN_IN_BYTES h = 20" "length pre = p" "final_icmp i"
  shows "returns (process_icmp_pkt g w n (pre @ ip_bytes h @ icmp_bytes i @ rest) p)"
  using rd_ip_at [OF assms(1,3), of "icmp_bytes i @ rest"]
    rd_icmp_at [of "pre @ ip_bytes h" "p + 20" i rest] assms(2-4)
  by (simp add: process_icmp_pkt_def final_icmp_def Let_def)

text \<open>A message from the top for the node itself comes back up at once.\<close>

lemma top_to_self:
  assumes r: "has_direct_route (topo w) n d r" and local: "is_layer3_local_delivery (topo w) n d"
    and c: "choose_source E w n r = Inr (oif, s)"
  shows "layer3_pkt_receive_from_top (Suc (Suc fuel)) E w n (icmp_bytes i) ICMP_PROTO d =
    process_icmp_pkt (layer3_pkt_receive_from_top fuel E) w n
      ((zeros 2002 @ zeros 12 @ le16 IP_PROTO) @ ip_bytes (top_hdr ICMP_PROTO d s 12) @ icmp_bytes i @ zeros 4) 2016"
proof -
  let ?g = "layer3_pkt_receive_from_top (Suc fuel) E" and ?f = "promote_pkt_to_layer3 (Suc fuel) E"
  let ?h = "top_hdr ICMP_PROTO d s 12"
  let ?pre = "zeros 2002 @ zeros 12 @ le16 IP_PROTO"
  have rt: "l3rib_lookup_lpm (node_route_table (nodes (topo w) n)) d = Inr (Some r)" "l3_is_direct_route r"
    using r by (simp_all add: has_direct_route_def)
  have "layer3_pkt_receive_from_top (Suc (Suc fuel)) E w n (icmp_bytes i) ICMP_PROTO d =
      l2_forward_ip_packet E ?f w n d None
        (zeros 2002 @ zeros 12 @ le16 IP_PROTO @ (ip_bytes ?h @ icmp_bytes i) @ zeros 4) 2002 46"
    using from_top_sends_down [OF rt(1) c, of "icmp_bytes i" ?g ?f ICMP_PROTO] rt(2)
    by (simp only: layer3_pkt_receive_from_top.simps) simp
  moreover have "?f w n None (?pre @ ip_bytes ?h @ icmp_bytes i @ zeros 4) 2016 32 IP_PROTO =
      process_icmp_pkt (layer3_pkt_receive_from_top fuel E) w n (?pre @ ip_bytes ?h @ icmp_bytes i @ zeros 4) 2016"
    using rd_ip_at [OF top_hdr_ok, of ?pre 2016 ICMP_PROTO d s 12 "icmp_bytes i @ zeros 4"] rt local
    by (simp add: promote_body_def layer3_ip_pkt_recv_from_layer2_def)
  ultimately show ?thesis
    using l2_forward_local [OF local, of "zeros 2002" 2002 "zeros 12" E ?f "(ip_bytes ?h @ icmp_bytes i) @ zeros 4" 46]
    by simp
qed

text \<open>A final message from the top whose destination has a route needs two entries.\<close>

lemma final_routed:
  assumes i: "final_icmp i" and r: "l3rib_lookup_lpm (node_route_table (nodes (topo w) n)) d = Inr (Some r)"
  shows "returns (layer3_pkt_receive_from_top (Suc (Suc fuel)) E w n (icmp_bytes i) ICMP_PROTO d)"
proof (cases "l3_is_direct_route r \<and> is_layer3_local_delivery (topo w) n d")
  case True
  have d: "has_direct_route (topo w) n d r" using r True by (simp add: has_direct_route_def)
  show ?thesis
  proof (cases "choose_source E w n r")
    case (Inl e)
    have "e \<noteq> Out_of_fuel" using Inl returns_choose_source [of E w n r] by simp
    then show ?thesis using r Inl by (simp add: from_top_body_def)
  next
    case (Inr c)
    obtain oif s where c: "choose_source E w n r = Inr (oif, s)" using Inr by (cases c) simp
    show ?thesis
      unfolding top_to_self [OF d conjunct2 [OF True] c]
      by (rule process_final [OF top_hdr_ok _ _ i]) simp_all
  qed
next
  case False
  have "snd (oif, s) = s \<and> oif \<noteq> None" if "choose_source E w n r = Inr (oif, s)" "\<not> l3_is_direct_route r" for oif s
    using that by (auto simp: choose_source_def rbind_eq_Inr)
  then show ?thesis
    using r False
    by (auto simp: from_top_body_def Let_def intro!: returning returns_demote split: prod.split
        simp del: promote_pkt_to_layer3.simps)
qed

text \<open>A final message to anywhere needs three: without a route the node tells itself.\<close>

lemma unreachable_final: "final_icmp (make_icmp_dest_unreacheable h c)"
  by (simp add: final_icmp_def make_icmp_dest_unreacheable_def icmp_consts)

lemma no_route_step:
  assumes "l3rib_lookup_lpm (node_route_table (nodes (topo w) n)) d = Inr None"
  shows "\<exists>h. ip_dest h = d \<and> layer3_pkt_receive_from_top (Suc fuel) E w n x t d =
    layer3_pkt_receive_from_top fuel E w n
      (icmp_bytes (make_icmp_dest_unreacheable h ICMP_CODE_DEST_UNREACH_NET)) ICMP_PROTO (loopback (topo w) n)"
  by (rule exI [of _ "init_ip_hdr\<lparr>proto := t, ihl := 5, ip_dest := d, ip_src := loopback (topo w) n\<rparr>"])
    (use assms in \<open>simp add: from_top_body_def send_icmp_dest_unreacheable_def loopback_def\<close>)

lemma final_returns:
  assumes wr: "well_routed (topo w) n" and i: "final_icmp i"
  shows "returns (layer3_pkt_receive_from_top (Suc (Suc (Suc fuel))) E w n (icmp_bytes i) ICMP_PROTO d)"
proof (cases "l3rib_lookup_lpm (node_route_table (nodes (topo w) n)) d")
  case (Inl e)
  have "e \<noteq> Out_of_fuel" using Inl returns_lookups(2) [of "node_route_table (nodes (topo w) n)" d] by simp
  then show ?thesis using Inl by (simp add: from_top_body_def)
next
  case (Inr o')
  show ?thesis
  proof (cases o')
    case None
    obtain r where "l3rib_lookup_lpm (node_route_table (nodes (topo w) n)) (loopback (topo w) n) = Inr (Some r)"
      using wr by (auto simp: well_routed_def has_direct_route_def)
    then show ?thesis
      using no_route_step [of w n d "Suc (Suc fuel)" E "icmp_bytes i" ICMP_PROTO] Inr None
        final_routed [OF unreachable_final]
      by (metis (no_types))
  next
    case (Some r)
    then show ?thesis using final_routed [OF i, of w n d r] Inr by blast
  qed
qed

text \<open>A packet from below needs four entries, one from the top five.\<close>

lemma process_icmp_returns:
  assumes "well_routed (topo w) n"
  shows "returns (process_icmp_pkt (layer3_pkt_receive_from_top (Suc (Suc (Suc fuel))) E) w n b p)"
proof -
  have "final_icmp (make_icmp_echo_reply a c e)" for a c e
    by (simp add: final_icmp_def make_icmp_echo_reply_def icmp_consts)
  then show ?thesis
    using final_returns [OF assms]
    by (auto simp: process_icmp_pkt_def send_icmp_echo_reply_def Let_def intro!: returning
        simp del: layer3_pkt_receive_from_top.simps)
qed

lemma promote_returns:
  assumes wr: "well_routed (topo w) n"
  shows "returns (promote_pkt_to_layer3 (Suc (Suc (Suc (Suc fuel)))) E w n q b p k t)"
proof -
  let ?g = "layer3_pkt_receive_from_top (Suc (Suc (Suc fuel))) E"
    and ?f = "promote_pkt_to_layer3 (Suc (Suc (Suc fuel))) E"
  have fin: "final_icmp (make_icmp_time_exceeded h c)" for h c
    by (simp add: final_icmp_def make_icmp_time_exceeded_def icmp_consts)
  have named: "get_node_if_by_name (topo w) n (rt_oif r) \<noteq> None"
    if "l3rib_lookup_lpm (node_route_table (nodes (topo w) n)) d = Inr (Some r)" "\<not> is_direct r" for d r
    using wr that lookup_in_route_table by (fastforce simp: well_routed_def)
  have "returns (layer3_ip_pkt_recv_from_layer2 E ?g ?f w n b p k)"
    unfolding layer3_ip_pkt_recv_from_layer2_def
  proof (intro returns_rbind returns_fields(1) returns_lookups(2))
    fix hdr :: ip_hdr and o'
    assume l: "l3rib_lookup_lpm (node_route_table (nodes (topo w) n)) (ip_dest hdr) = Inr o'"
    show "returns (case o' of
        None \<Rightarrow> send_icmp_dest_unreacheable ?g w n hdr
      | Some l3_rt \<Rightarrow>
          if l3_is_direct_route l3_rt then
            (if is_layer3_local_delivery (topo w) n (ip_dest hdr) then
               (if proto hdr = ICMP_PROTO then process_icmp_pkt ?g w n b p else Inr w)
             else demote_pkt_to_layer2 E ?f w n (ip_dest hdr) None b p k)
          else
            (let ttl = TTL hdr - 1 in
             rbind (wr b (p + 8) [ttl]) (\<lambda>b1.
             if ttl = 0 then send_icmp_time_exceeded ?g w n (hdr\<lparr>TTL := ttl\<rparr>)
             else
               demote_pkt_to_layer2 E ?f w n (pton_into (rt_gw l3_rt) (uninit_addr E w))
                 (get_node_if_by_name (topo w) n (rt_oif l3_rt)) b1 p k)))"
      using l final_returns [OF wr unreachable_final] final_returns [OF wr fin] process_icmp_returns [OF wr]
      by (auto simp: send_icmp_dest_unreacheable_def send_icmp_time_exceeded_def l3_is_direct_route_def Let_def
          dest: named intro!: returns_demote returning split: option.split
          simp del: layer3_pkt_receive_from_top.simps promote_pkt_to_layer3.simps)
  qed
  then show ?thesis by (simp add: promote_body_def)
qed

lemma top_returns:
  assumes wr: "well_routed (topo w) n"
  shows "returns (layer3_pkt_receive_from_top (Suc (Suc (Suc (Suc (Suc fuel))))) E w n x t d)"
proof -
  let ?g = "layer3_pkt_receive_from_top (Suc (Suc (Suc (Suc fuel)))) E"
    and ?f = "promote_pkt_to_layer3 (Suc (Suc (Suc (Suc fuel)))) E"
  have "returns (from_top_body E ?g ?f w n x t d)"
    using final_returns [OF wr unreachable_final, of "Suc fuel"] promote_returns [OF wr]
    by (auto simp: from_top_body_def send_icmp_dest_unreacheable_def Let_def
        intro!: returning returns_demote split: option.split prod.split
        simp del: layer3_pkt_receive_from_top.simps promote_pkt_to_layer3.simps)
  then show ?thesis by simp
qed

section \<open>Properties\<close>

text \<open>C11: on a node whose loopback address is routed to itself and whose gateway routes name an
  interface, the cycle of calls between layers 2 and 3 ends, whatever the packet: five
  nested entries are enough for a packet from the top and four for one from below, and the
  result, success or fault, is the same under every larger bound.\<close>

theorem layer3_calls_end:
  assumes wr: "well_routed (topo w) n"
  shows "(\<exists>r. r \<noteq> Inl Out_of_fuel \<and> (\<forall>fuel \<ge> 5. layer3_pkt_receive_from_top fuel E w n data t d = r)) \<and>
    (\<exists>r. r \<noteq> Inl Out_of_fuel \<and> (\<forall>fuel \<ge> 4. promote_pkt_to_layer3 fuel E w n q b p k ty = r))"
proof -
  have n: "5 = Suc (Suc (Suc (Suc (Suc 0))))" "4 = Suc (Suc (Suc (Suc 0)))" by simp_all
  have r: "returns (layer3_pkt_receive_from_top 5 E w n data t d)"
    "returns (promote_pkt_to_layer3 4 E w n q b p k ty)"
    unfolding n by (rule top_returns [OF wr]) (rule promote_returns [OF wr])
  then have "\<forall>fuel \<ge> 5. layer3_pkt_receive_from_top fuel E w n data t d = layer3_pkt_receive_from_top 5 E w n data t d"
    "\<forall>fuel \<ge> 4. promote_pkt_to_layer3 fuel E w n q b p k ty = promote_pkt_to_layer3 4 E w n q b p k ty"
    using more_fuel(1) [of 5 _ E w n data t d] more_fuel(2) [of 4 _ E w n q b p k ty]
    by (auto simp: below_def)
  then show ?thesis using r unfolding returns_def by blast
qed

lemma well_routed_resolved: "well_routed resolved_graph 0"
proof -
  have l: "loopback resolved_graph 0 = 0x01010101" by (simp add: loopback_def resolved_graph_sel pton_into_def)
  have ok: "rt_ok (node_route_table (nodes resolved_graph 0))"
    using config_ok_node [OF config_ok_resolved] resolved_graph_sel(1) by (simp add: node_cfg_ok_def)
  have p: "same_prefix 32 0x01010101 0x01010101" "\<not> same_prefix 24 0x0101010A 0x01010101" by code_simp+
  have "has_direct_route resolved_graph 0 0x01010101 (direct_route 0x01010101 32)"
    using p ok by (simp add: has_direct_route_def l3rib_lookup_fold resolved_graph_sel)
  moreover have "is_layer3_local_delivery resolved_graph 0 0x01010101"
    by (simp add: is_layer3_local_delivery_def Let_def resolved_graph_sel convert_ip_from_int_to_str_def)
  ultimately show ?thesis
    by (auto simp: well_routed_def l resolved_graph_sel direct_route_def)
qed

lemma layer3_calls_end_witness:
  "\<exists>r. r \<noteq> Inl Out_of_fuel \<and>
     (\<forall>fuel \<ge> 5. layer3_pkt_receive_from_top fuel example_env resolved_world 0 [1, 2] 7 0x99999999 = r)"
  by (rule layer3_calls_end [THEN conjunct1]) (simp add: resolved_world_def well_routed_resolved)

text \<open>The report about a message without a route, when there is no route for the report either.\<close>

lemma no_route_no_end:
  assumes "l3rib_lookup_lpm (node_route_table (nodes (topo w) n)) d = Inr None"
    and lb: "l3rib_lookup_lpm (node_route_table (nodes (topo w) n)) (loopback (topo w) n) = Inr None"
  shows "layer3_pkt_receive_from_top fuel E w n data t d = Inl Out_of_fuel"
proof -
  have self: "layer3_pkt_receive_from_top k E w n x ty (loopback (topo w) n) = Inl Out_of_fuel" for k x ty
  proof (induction k arbitrary: x ty)
    case (Suc k)
    then show ?case using no_route_step [OF lb, of k E x ty] by metis
  qed simp
  show ?thesis
  proof (cases fuel)
    case (Suc k)
    then show ?thesis using no_route_step [OF assms(1), of k E data t] self by metis
  qed simp
qed

text \<open>C22: a node that has no route to a destination and none to its loopback address, such as one
  with an empty routing table, never finishes sending to it: the report that the
  destination is unreachable is itself unreachable, without end.\<close>

theorem unroutable_report_never_returns:
  assumes "l3rib_lookup_lpm (node_route_table (nodes (topo w) n)) d = Inr None"
    and "l3rib_lookup_lpm (node_route_table (nodes (topo w) n)) (loopback (topo w) n) = Inr None"
  shows "layer3_pkt_receive_from_top fuel E w n data t d = Inl Out_of_fuel"
  using assms by (rule no_route_no_end)

lemma unroutable_report_never_returns_witness:
  "layer3_pkt_receive_from_top 100 example_env example_world 0 [1, 2] 7 0x99999999 = Inl Out_of_fuel"
  by (rule unroutable_report_never_returns)
    (simp_all add: example_world_def example_tables l3rib_lookup_lpm_def)

text \<open>C23: sending to a destination without a route on a node whose loopback address is routed to
  itself, and lies on no interface's subnet: the node sends nothing and reports, from its
  loopback address, that the network of the destination is unreachable.\<close>

theorem unroutable_is_reported:
  assumes "l3rib_lookup_lpm (node_route_table (nodes (topo w) n)) d = Inr None"
    and lb: "lb_addr (nodes (topo w) n) = inet_ntop a"
    and r: "has_direct_route (topo w) n a r"
    and s: "node_get_matching_subnet_interface (topo w) n (rt_dest r) = Inr None"
  shows "layer3_pkt_receive_from_top (Suc (Suc (Suc fuel))) E w n data t d =
    Inr (report_msg w (Network_unreachable n (inet_ntop a) (inet_ntop d)))"
proof -
  have a: "loopback (topo w) n = a" using lb by (simp add: loopback_def pton_into_def)
  have local: "is_layer3_local_delivery (topo w) n a"
    using lb by (simp add: is_layer3_local_delivery_def convert_ip_from_int_to_str_def Let_def)
  have c: "choose_source E w n r = Inr (None, a)"
    using r s lb by (simp add: choose_source_def has_direct_route_def pton_into_def)
  obtain h where h: "ip_dest h = d" "layer3_pkt_receive_from_top (Suc (Suc (Suc fuel))) E w n data t d =
      layer3_pkt_receive_from_top (Suc (Suc fuel)) E w n
        (icmp_bytes (make_icmp_dest_unreacheable h ICMP_CODE_DEST_UNREACH_NET)) ICMP_PROTO a"
    using no_route_step [OF assms(1), of "Suc (Suc fuel)" E data t] unfolding a by blast
  show ?thesis
    unfolding h(2) top_to_self [OF r local c]
    by (subst icmp_recv(3) [OF top_hdr_ok]) (simp_all add: make_icmp_dest_unreacheable_def h(1))
qed

lemma unroutable_is_reported_witness:
  "layer3_pkt_receive_from_top (Suc (Suc (Suc 0))) example_env resolved_world 0 [1, 2] 7 0x09090909 =
    Inr (report_msg resolved_world (Network_unreachable 0 (inet_ntop 0x01010101) (inet_ntop 0x09090909)))"
proof -
  have t: "topo resolved_world = resolved_graph" by (simp add: resolved_world_def)
  have ok: "rt_ok (node_route_table (nodes resolved_graph 0))"
    using config_ok_node [OF config_ok_resolved] resolved_graph_sel(1) by (simp add: node_cfg_ok_def)
  have p: "same_prefix 32 0x01010101 0x01010101" "\<not> same_prefix 24 0x0101010A 0x01010101"
    "\<not> same_prefix 32 0x01010101 0x09090909" "\<not> same_prefix 24 0x0101010A 0x09090909"
    "network 0x01010101 32 = 0x01010101" by code_simp+
  have r: "has_direct_route resolved_graph 0 0x01010101 (direct_route 0x01010101 32)"
    using p ok by (simp add: has_direct_route_def l3rib_lookup_fold resolved_graph_sel)
  have s: "node_get_matching_subnet_interface resolved_graph 0 (rt_dest (direct_route 0x01010101 32)) = Inr None"
    using p matching_subnet_find [OF config_ok_resolved, where n = 0 and w = "0x01010101"]
    by (simp add: resolved_graph_sel host_graph_sel on_subnet_def intf_addr_def)
  show ?thesis
    by (rule unroutable_is_reported [where r = "direct_route 0x01010101 32"])
      (use r s p ok in \<open>simp_all add: t l3rib_lookup_fold resolved_graph_sel\<close>)
qed

end
