(* ===== verification/Topologies.thy ===== *)
theory Topologies
  imports Net
begin

text \<open>
  The sample topologies (\<^verbatim>\<open>src/topologies.c\<close>). A builder is a sequence of calls on a new graph;
  a node is named by the order of its creation. What a builder makes is compared with a
  \<^emph>\<open>plan\<close>: the names, loopback addresses and routes of the nodes, and the two ends of every
  link but for their MAC addresses.
\<close>

section \<open>The builders\<close>

type_synonym action = "graph \<Rightarrow> graph res"

fun run_actions :: "action list \<Rightarrow> graph \<Rightarrow> graph res" where
  "run_actions [] g = Inr g"
| "run_actions (a # as) g = rbind (a g) (\<lambda>g'. run_actions as g')"

text \<open>The calls. \<open>sock\<close> is the operating system's answer for the node's socket.\<close>

definition new_node :: "string \<Rightarrow> int option \<Rightarrow> action" where
  "new_node name sock g = rbind (create_graph_node g name sock) (\<lambda>(_, g'). Inr g')"

definition new_link :: "nid \<Rightarrow> nid \<Rightarrow> string \<Rightarrow> string \<Rightarrow> u32 \<Rightarrow> action" where
  "new_link n1 n2 a b c g = Inr (insert_link_between_two_nodes g n1 n2 a b c)"

definition set_loopback :: "nid \<Rightarrow> string \<Rightarrow> action" where
  "set_loopback n ip g = node_set_loopback_address g n ip"

definition set_address :: "nid \<Rightarrow> string \<Rightarrow> string \<Rightarrow> u8 \<Rightarrow> action" where
  "set_address n nm ip m g = rbind (node_set_intf_ip_address g n nm ip m) (\<lambda>(_, g'). Inr g')"

definition set_mode :: "nid \<Rightarrow> string \<Rightarrow> intf_l2_mode \<Rightarrow> action" where
  "set_mode n nm m g = Inr (node_set_intf_l2_mode g n nm m)"

definition set_vlan :: "nid \<Rightarrow> string \<Rightarrow> u16 \<Rightarrow> action" where
  "set_vlan n nm v g = Inr (node_set_intf_vlan_membership g n nm v)"

definition build_first_topology :: "(nid \<Rightarrow> int option) \<Rightarrow> u32 \<Rightarrow> graph res" where
  "build_first_topology sock k =
     (let R0_re = 0; R1_re = 1; R2_re = 2 in
      run_actions
       [new_node ''R0_re'' (sock R0_re),
        new_node ''R1_re'' (sock R1_re),
        new_node ''R2_re'' (sock R2_re),
        new_link R0_re R1_re ''eth0/0'' ''eth0/1'' 1,
        new_link R1_re R2_re ''eth0/2'' ''eth0/3'' 1,
        new_link R0_re R2_re ''eth0/4'' ''eth0/5'' 1,
        set_loopback R0_re ''122.1.1.0'',
        set_address R0_re ''eth0/0'' ''40.1.1.1'' 24,
        set_address R0_re ''eth0/4'' ''20.1.1.1'' 24,
        set_loopback R1_re ''122.1.1.1'',
        set_address R1_re ''eth0/1'' ''20.1.1.2'' 24,
        set_address R1_re ''eth0/2'' ''30.1.1.1'' 24,
        set_loopback R2_re ''122.1.1.2'',
        set_address R2_re ''eth0/3'' ''30.1.1.2'' 24,
        set_address R2_re ''eth0/5'' ''40.1.1.2'' 24]
       (fresh_graph k ''My First Graph''))"

definition build_linear_topology :: "(nid \<Rightarrow> int option) \<Rightarrow> u32 \<Rightarrow> graph res" where
  "build_linear_topology sock k =
     (let R0 = 0; R1 = 1; R2 = 2; R3 = 3 in
      run_actions
       [new_node ''R0'' (sock R0),
        new_node ''R1'' (sock R1),
        new_node ''R2'' (sock R2),
        new_node ''R3'' (sock R3),
        new_link R0 R1 ''eth0/1'' ''eth0/0'' 1,
        new_link R1 R2 ''eth0/2'' ''eth0/1'' 1,
        new_link R2 R3 ''eth0/3'' ''eth0/2'' 1,
        set_loopback R0 ''1.1.1.1'',
        set_loopback R1 ''2.2.2.2'',
        set_loopback R2 ''3.3.3.3'',
        set_loopback R3 ''4.4.4.4'',
        set_address R0 ''eth0/1'' ''10.1.1.1'' 24,
        set_address R1 ''eth0/0'' ''10.1.1.2'' 24,
        set_address R1 ''eth0/2'' ''20.1.1.2'' 24,
        set_address R2 ''eth0/1'' ''20.1.1.1'' 24,
        set_address R2 ''eth0/3'' ''30.1.1.1'' 24,
        set_address R3 ''eth0/2'' ''30.1.1.2'' 24]
       (fresh_graph k ''Linear Topology''))"

definition build_simple_l2_switch_topology :: "(nid \<Rightarrow> int option) \<Rightarrow> u32 \<Rightarrow> graph res" where
  "build_simple_l2_switch_topology sock k =
     (let SW01 = 0; H1 = 1; H2 = 2; H3 = 3; H4 = 4 in
      run_actions
       [new_node ''SW01'' (sock SW01),
        new_node ''H1'' (sock H1),
        new_node ''H2'' (sock H2),
        new_node ''H3'' (sock H3),
        new_node ''H4'' (sock H4),
        set_loopback H1 ''1.1.1.1'',
        set_loopback H2 ''2.2.2.2'',
        set_loopback H3 ''3.3.3.3'',
        set_loopback H4 ''4.4.4.4'',
        new_link SW01 H1 ''eth0/1'' ''eth0'' 1,
        new_link SW01 H2 ''eth0/2'' ''eth0'' 1,
        new_link SW01 H3 ''eth0/3'' ''eth0'' 1,
        new_link SW01 H4 ''eth0/4'' ''eth0'' 1,
        set_address H1 ''eth0'' ''10.1.1.1'' 24,
        set_address H2 ''eth0'' ''10.1.1.2'' 24,
        set_address H3 ''eth0'' ''10.1.1.3'' 24,
        set_address H4 ''eth0'' ''10.1.1.4'' 24]
       (fresh_graph k ''Simple L2 Switch Topology''))"

definition build_dual_switch_topology :: "(nid \<Rightarrow> int option) \<Rightarrow> u32 \<Rightarrow> graph res" where
  "build_dual_switch_topology sock k =
     (let SW01 = 0; SW02 = 1; H1 = 2; H2 = 3; H3 = 4; H4 = 5; H5 = 6; H6 = 7 in
      run_actions
       [new_node ''SW01'' (sock SW01),
        new_node ''SW02'' (sock SW02),
        new_node ''H1'' (sock H1),
        new_node ''H2'' (sock H2),
        new_node ''H3'' (sock H3),
        new_node ''H4'' (sock H4),
        new_node ''H5'' (sock H5),
        new_node ''H6'' (sock H6),
        new_link SW01 SW02 ''ge0/1'' ''ge0/1'' 1,
        set_mode SW01 ''ge0/1'' TRUNK,
        set_mode SW02 ''ge0/1'' TRUNK,
        set_vlan SW01 ''ge0/1'' 10,
        set_vlan SW01 ''ge0/1'' 11,
        set_vlan SW02 ''ge0/1'' 10,
        set_vlan SW02 ''ge0/1'' 11,
        new_link SW01 H1 ''eth0/1'' ''eth0'' 1,
        new_link SW01 H2 ''eth0/2'' ''eth0'' 1,
        new_link SW01 H3 ''eth0/3'' ''eth0'' 1,
        new_link SW02 H4 ''eth0/4'' ''eth0'' 1,
        new_link SW02 H5 ''eth0/5'' ''eth0'' 1,
        new_link SW02 H6 ''eth0/6'' ''eth0'' 1,
        set_vlan SW01 ''eth0/1'' 10,
        set_vlan SW01 ''eth0/3'' 10,
        set_vlan SW01 ''eth0/2'' 10,
        set_vlan SW02 ''eth0/4'' 10,
        set_vlan SW02 ''eth0/5'' 10,
        set_vlan SW02 ''eth0/6'' 10,
        set_loopback H1 ''1.1.1.1'',
        set_loopback H2 ''2.2.2.2'',
        set_loopback H3 ''3.3.3.3'',
        set_loopback H4 ''4.4.4.4'',
        set_loopback H5 ''5.5.5.5'',
        set_loopback H6 ''6.6.6.6'',
        set_address H1 ''eth0'' ''10.1.1.1'' 24,
        set_address H2 ''eth0'' ''10.1.1.2'' 24,
        set_address H3 ''eth0'' ''10.1.1.3'' 24,
        set_address H4 ''eth0'' ''10.1.1.4'' 24,
        set_address H5 ''eth0'' ''10.1.1.5'' 24,
        set_address H6 ''eth0'' ''10.1.1.6'' 24]
       (fresh_graph k ''Dual Switch Topology''))"

definition build_simple_l3_topology :: "(nid \<Rightarrow> int option) \<Rightarrow> u32 \<Rightarrow> graph res" where
  "build_simple_l3_topology sock k =
     (let R1 = 0; R2 = 1; R3 = 2 in
      run_actions
       [new_node ''R1'' (sock R1),
        new_node ''R2'' (sock R2),
        new_node ''R3'' (sock R3),
        set_loopback R1 ''1.1.1.1'',
        set_loopback R2 ''2.2.2.2'',
        set_loopback R3 ''3.3.3.3'',
        new_link R1 R2 ''ge0/2'' ''ge0/1'' 1,
        new_link R1 R3 ''ge0/3'' ''ge0/1'' 1,
        new_link R2 R3 ''ge0/3'' ''ge0/2'' 1,
        set_address R1 ''ge0/2'' ''40.1.1.1'' 24,
        set_address R1 ''ge0/3'' ''20.1.1.1'' 24,
        set_address R2 ''ge0/1'' ''40.1.1.2'' 24,
        set_address R2 ''ge0/3'' ''30.1.1.2'' 24,
        set_address R3 ''ge0/1'' ''20.1.1.3'' 24,
        set_address R3 ''ge0/2'' ''30.1.1.3'' 24]
       (fresh_graph k ''Simple Layer 3 Topology''))"


section \<open>Plans\<close>

record plan =
  p_nodes :: "(string \<times> string \<times> route_table) list"
  p_links :: "(interface \<times> interface) list"

definition no_mac :: "interface \<Rightarrow> interface" where
  "no_mac i = i\<lparr>if_mac := []\<rparr>"

definition plan_of :: "graph \<Rightarrow> plan" where
  "plan_of g =
     \<lparr>p_nodes = map (\<lambda>n. (node_name (nodes g n), lb_addr (nodes g n), node_route_table (nodes g n))) [0..<n_nodes g],
      p_links = map (\<lambda>l. (no_mac (iface g (l, Intf1)), no_mac (iface g (l, Intf2)))) [0..<n_links g]\<rparr>"

text \<open>The steps on plans; \<open>None\<close> when the arguments are none that the code's callers give.\<close>

definition plan_intf :: "nid \<Rightarrow> string \<Rightarrow> interface" where
  "plan_intf n nm = zero_interface\<lparr>if_name := strncpy_term IF_NAME_SIZE nm, att_node := Some n, if_mac := []\<rparr>"

definition degree :: "nid \<Rightarrow> (interface \<times> interface) list \<Rightarrow> nat" where
  "degree n ls = length (filter (\<lambda>i. att_node i = Some n) (concat (map (\<lambda>(i, j). [i, j]) ls)))"

fun on_first_end ::
  "nid \<Rightarrow> string \<Rightarrow> (interface \<Rightarrow> interface) \<Rightarrow> (interface \<times> interface) list \<Rightarrow> (interface \<times> interface) list"
where
  "on_first_end n nm f [] = []"
| "on_first_end n nm f ((i, j) # ls) =
     (if att_node i = Some n \<and> if_name i = nm then (f i, j) # ls
      else if att_node j = Some n \<and> if_name j = nm then (i, f j) # ls
      else (i, j) # on_first_end n nm f ls)"

definition has_end :: "nid \<Rightarrow> string \<Rightarrow> plan \<Rightarrow> bool" where
  "has_end n nm P \<longleftrightarrow> list_ex (\<lambda>(i, j). att_node i = Some n \<and> if_name i = nm \<or>
     att_node j = Some n \<and> if_name j = nm) (p_links P)"

definition add_route_to :: "nid \<Rightarrow> string \<Rightarrow> u8 \<Rightarrow> plan \<Rightarrow> plan" where
  "add_route_to n dst m P = P\<lparr>p_nodes := (p_nodes P)[n :=
     (case p_nodes P ! n of (nm, lb, rt) \<Rightarrow>
        (nm, lb, \<lparr>rt_dest = dst, rt_mask = m, is_direct = True, rt_gw = [], rt_oif = []\<rparr> # rt))]\<rparr>"

definition plan_node :: "string \<Rightarrow> plan \<Rightarrow> plan option" where
  "plan_node nm P = (if length nm < 16 \<and> nul_free nm then Some (P\<lparr>p_nodes := p_nodes P @ [(nm, [], [])]\<rparr>) else None)"

definition plan_link :: "nid \<Rightarrow> nid \<Rightarrow> string \<Rightarrow> string \<Rightarrow> plan \<Rightarrow> plan option" where
  "plan_link n1 n2 a b P =
     (if n1 < length (p_nodes P) \<and> n2 < length (p_nodes P) \<and> n1 \<noteq> n2 \<and> nul_free a \<and> nul_free b \<and>
         degree n1 (p_links P) < 9 \<and> degree n2 (p_links P) < 9
      then Some (P\<lparr>p_links := p_links P @ [(plan_intf n1 a, plan_intf n2 b)]\<rparr>) else None)"

definition plan_loopback :: "nid \<Rightarrow> string \<Rightarrow> plan \<Rightarrow> plan option" where
  "plan_loopback n ip P =
     (if n < length (p_nodes P) \<and> length ip < 16
      then Some (add_route_to n ip 32 (P\<lparr>p_nodes := (p_nodes P)[n := (case p_nodes P ! n of (nm, lb, rt) \<Rightarrow> (nm, ip, rt))]\<rparr>))
      else None)"

definition plan_address :: "nid \<Rightarrow> string \<Rightarrow> string \<Rightarrow> u8 \<Rightarrow> plan \<Rightarrow> plan option" where
  "plan_address n nm ip m P =
     (case inet_pton ip of
        None \<Rightarrow> None
      | Some a \<Rightarrow>
          if inet_ntop a = ip \<and> n < length (p_nodes P) \<and> valid_mask m \<and> has_end n nm P
          then Some (add_route_to n (inet_ntop (network a m)) m
                 (P\<lparr>p_links := on_first_end n nm (intf_set_ip ip m) (p_links P)\<rparr>))
          else None)"

definition plan_on_end :: "nid \<Rightarrow> string \<Rightarrow> (interface \<Rightarrow> interface) \<Rightarrow> plan \<Rightarrow> plan option" where
  "plan_on_end n nm f P =
     (if n < length (p_nodes P) \<and> has_end n nm P
      then Some (P\<lparr>p_links := on_first_end n nm f (p_links P)\<rparr>) else None)"

fun run_plan :: "(plan \<Rightarrow> plan option) list \<Rightarrow> plan \<Rightarrow> plan option" where
  "run_plan [] P = Some P"
| "run_plan (s # ss) P = (case s P of None \<Rightarrow> None | Some P' \<Rightarrow> run_plan ss P')"

section \<open>Graphs that realise plans\<close>

text \<open>The slots of a node hold the ends of links at it, in the order of the links.\<close>

definition all_ends :: "graph \<Rightarrow> ifptr list" where
  "all_ends g = concat (map (\<lambda>l. [(l, Intf1), (l, Intf2)]) [0..<n_links g])"

definition slots_follow_links :: "graph \<Rightarrow> bool" where
  "slots_follow_links g \<longleftrightarrow>
     (\<forall>n < n_nodes g. node_intfs g n = filter (\<lambda>q. att_node (iface g q) = Some n) (all_ends g))"

definition realises :: "graph \<Rightarrow> plan \<Rightarrow> bool" where
  "realises g P \<longleftrightarrow> configured g \<and> slots_follow_links g \<and> plan_of g = P"

text \<open>The changes of an interface that neither see the MAC address nor move the interface.\<close>

definition plain_change :: "(interface \<Rightarrow> interface) \<Rightarrow> bool" where
  "plain_change f \<longleftrightarrow> (\<forall>i. no_mac (f i) = f (no_mac i) \<and> att_node (f i) = att_node i \<and> if_name (f i) = if_name i)"

lemma no_mac_sel [simp]: "att_node (no_mac i) = att_node i" "if_name (no_mac i) = if_name i"
  by (simp_all add: no_mac_def)

lemma plain_changes [simp]:
  "plain_change (intf_set_ip ip m)" "plain_change (set_l2_mode md)" "plain_change (interface_set_vlan v)"
  by (auto simp: plain_change_def no_mac_def intf_set_ip_def set_l2_mode_def interface_set_vlan_def
      IS_INTF_L3_MODE_def add_vlan_to_trunk_membership_def split: intf_l2_mode.split option.split)

lemma find_filter: "List.find P (filter Q xs) = List.find (\<lambda>x. Q x \<and> P x) xs"
  by (induction xs) auto

definition end_named :: "graph \<Rightarrow> nid \<Rightarrow> string \<Rightarrow> ifptr \<Rightarrow> bool" where
  "end_named g n nm q \<longleftrightarrow> att_node (iface g q) = Some n \<and> if_name (iface g q) = nm"

lemma by_name_in_ends:
  assumes "graph_wf g" "slots_follow_links g" "n < n_nodes g"
  shows "get_node_if_by_name g n nm = List.find (end_named g n nm) (all_ends g)"
  using assms(2,3)
  by (simp add: get_node_if_by_name_find [OF graph_wf_node [OF assms(1,3)]] slots_follow_links_def
      find_filter end_named_def [abs_def])

definition ends_plan :: "graph \<Rightarrow> nat list \<Rightarrow> (interface \<times> interface) list" where
  "ends_plan g ls = map (\<lambda>l. (no_mac (iface g (l, Intf1)), no_mac (iface g (l, Intf2)))) ls"

lemma ends_plan_other: "fst q \<notin> set ls \<Longrightarrow> ends_plan (upd_iface g q f) ls = ends_plan g ls"
  by (auto simp: ends_plan_def)

lemma first_end_plan:
  assumes "plain_change f" "distinct ls"
  shows "case List.find (end_named g n nm) (concat (map (\<lambda>l. [(l, Intf1), (l, Intf2)]) ls)) of
      None \<Rightarrow> \<not> list_ex (\<lambda>(i, j). att_node i = Some n \<and> if_name i = nm \<or> att_node j = Some n \<and> if_name j = nm) (ends_plan g ls)
    | Some q \<Rightarrow> fst q \<in> set ls \<and> on_first_end n nm f (ends_plan g ls) = ends_plan (upd_iface g q f) ls"
  using assms(2)
proof (induction ls)
  case (Cons l ls)
  have c: "no_mac (f i) = f (no_mac i)" for i using assms(1) by (simp add: plain_change_def)
  have e: "ends_plan g (l # ls) = (no_mac (iface g (l, Intf1)), no_mac (iface g (l, Intf2))) # ends_plan g ls" for g
    by (simp add: ends_plan_def)
  consider "end_named g n nm (l, Intf1)" | "\<not> end_named g n nm (l, Intf1)" "end_named g n nm (l, Intf2)"
    | "\<not> end_named g n nm (l, Intf1)" "\<not> end_named g n nm (l, Intf2)" by blast
  then show ?case
  proof cases
    case 3
    then show ?thesis
      using Cons unfolding e by (auto simp: end_named_def c split: option.splits)
  qed (use Cons.prems in \<open>auto simp: e c end_named_def ends_plan_other\<close>)
qed (simp add: ends_plan_def)

lemma realises_config: "realises g P \<Longrightarrow> config_ok g"
  by (simp add: realises_def configured_ok)

lemma realises_sizes:
  "realises g P \<Longrightarrow> n_nodes g = length (p_nodes P)" "realises g P \<Longrightarrow> n_links g = length (p_links P)"
  by (auto simp: realises_def plan_of_def)

text \<open>A plain change of a named interface.\<close>

lemma realises_on_end:
  assumes r: "realises g P" and n: "n < length (p_nodes P)" and h: "has_end n nm P" and f: "plain_change f"
  obtains q where "get_node_if_by_name g n nm = Some q"
    "slots_follow_links (upd_iface g q f)"
    "plan_of (upd_iface g q f) = P\<lparr>p_links := on_first_end n nm f (p_links P)\<rparr>"
proof -
  note wf = config_ok_wf [OF realises_config [OF r]]
  have n': "n < n_nodes g" using n realises_sizes [OF r] by simp
  have P: "p_links P = ends_plan g [0..<n_links g]"
    "p_nodes P = map (\<lambda>n. (node_name (nodes g n), lb_addr (nodes g n), node_route_table (nodes g n))) [0..<n_nodes g]"
    using r by (auto simp: realises_def plan_of_def ends_plan_def)
  have fe: "get_node_if_by_name g n nm = List.find (end_named g n nm) (all_ends g)"
    using by_name_in_ends [OF wf _ n'] r by (simp add: realises_def)
  note e = first_end_plan [OF f distinct_upt, of n nm g 0 "n_links g", folded all_ends_def P(1)]
  obtain q where q: "List.find (end_named g n nm) (all_ends g) = Some q"
    using e h by (cases "List.find (end_named g n nm) (all_ends g)") (auto simp: has_end_def)
  have p: "plan_of (upd_iface g q f) = P\<lparr>p_links := on_first_end n nm f (p_links P)\<rparr>"
    using e q P by (simp add: plan_of_def ends_plan_def)
  have "att_node (iface (upd_iface g q f) x) = att_node (iface g x)" for x
    using f by (simp add: plain_change_def)
  then have s: "slots_follow_links (upd_iface g q f)"
    using r by (simp add: realises_def slots_follow_links_def node_intfs_def all_ends_def)
  show thesis using that [of q] fe q p s by simp
qed

text \<open>An action implements a step on plans.\<close>

definition implements :: "action \<Rightarrow> (plan \<Rightarrow> plan option) \<Rightarrow> bool" where
  "implements a s \<longleftrightarrow> (\<forall>g P P'. realises g P \<longrightarrow> s P = Some P' \<longrightarrow> (\<exists>g'. a g = Inr g' \<and> realises g' P'))"

lemma implementsI:
  "(\<And>g P P'. realises g P \<Longrightarrow> s P = Some P' \<Longrightarrow> \<exists>g'. a g = Inr g' \<and> realises g' P') \<Longrightarrow> implements a s"
  by (simp add: implements_def)

lemma implements_run:
  assumes "list_all2 implements as ss" "realises g P" "run_plan ss P = Some P'"
  shows "\<exists>g'. run_actions as g = Inr g' \<and> realises g' P'"
  using assms
proof (induction as ss arbitrary: g P rule: list_all2_induct)
  case (Cons a as s ss)
  obtain P1 where P1: "s P = Some P1" "run_plan ss P1 = Some P'"
    using Cons.prems(2) by (auto split: option.splits)
  obtain g1 where "a g = Inr g1" "realises g1 P1"
    using Cons.hyps(1) Cons.prems(1) P1(1) unfolding implements_def by blast
  then show ?case using Cons.IH P1(2) by simp
qed simp

lemma implements_node: "implements (new_node nm s) (plan_node nm)"
proof (rule implementsI)
  fix g P P' assume r: "realises g P" and s: "plan_node nm P = Some P'"
  have l: "length nm < NODE_NAME_SIZE" "nul_free nm" and P': "P' = P\<lparr>p_nodes := p_nodes P @ [(nm, [], [])]\<rparr>"
    using s by (auto simp: plan_node_def NODE_NAME_SIZE_def split: if_splits)
  note wf = config_ok_wf [OF realises_config [OF r]]
  obtain n g' where c: "create_graph_node g nm s = Inr (n, g')"
    using l by (simp add: create_graph_node_def strcpy_to_def Let_def)
  note res = create_graph_node_result [OF c]
  have cfg: "configured g'"
    using r configured_step [OF _ config_step.create [OF c l(2)]] by (simp add: realises_def)
  have i: "iface g' q = iface g q" for q by (rule links_eq_iface) (rule res(5))
  have none: "att_node (iface g q) \<noteq> Some (n_nodes g)" if "q \<in> set (all_ends g)" for q
  proof -
    have "fst q < n_links g" using that by (auto simp: all_ends_def)
    then show ?thesis using graph_wf_att [OF wf] by (metis less_irrefl option.inject)
  qed
  have "node_intfs g' m = filter (\<lambda>q. att_node (iface g' q) = Some m) (all_ends g')" if "m < n_nodes g'" for m
  proof (cases "m = n")
    case True
    have "node_intfs g' n = []" by (simp add: node_intfs_def res(8))
    moreover have "filter (\<lambda>q. att_node (iface g q) = Some (n_nodes g)) (all_ends g) = []"
      using none by (simp add: filter_empty_conv)
    ultimately show ?thesis using True res(1,3) by (simp add: i all_ends_def)
  next
    case False
    then show ?thesis
      using that r res(1-3) res(6) [of m] by (simp add: i all_ends_def node_intfs_def realises_def slots_follow_links_def)
  qed
  moreover have "plan_of g' = P'"
    using r res by (auto simp: realises_def plan_of_def P' i)
  ultimately show "\<exists>g'. new_node nm s g = Inr g' \<and> realises g' P'"
    using c cfg by (simp add: new_node_def realises_def slots_follow_links_def)
qed

lemma degree_node:
  assumes "realises g P" "n < n_nodes g"
  shows "degree n (p_links P) = length (node_intfs g n)"
proof -
  have "length (filter (\<lambda>q. att_node (iface g q) = Some n) (concat (map (\<lambda>l. [(l, Intf1), (l, Intf2)]) ls))) =
      length (filter (\<lambda>i. att_node i = Some n) (concat (map (\<lambda>(i, j). [i, j]) (ends_plan g ls))))" for ls
    by (induction ls) (simp_all add: ends_plan_def)
  then show ?thesis
    using assms by (auto simp: realises_def slots_follow_links_def degree_def all_ends_def plan_of_def ends_plan_def)
qed

lemma implements_link: "implements (new_link n1 n2 a b c) (plan_link n1 n2 a b)"
proof (rule implementsI)
  fix g P P' assume r: "realises g P" and s: "plan_link n1 n2 a b P = Some P'"
  have n: "n1 < n_nodes g" "n2 < n_nodes g" "n1 \<noteq> n2" "nul_free a" "nul_free b"
    and d: "degree n1 (p_links P) < 9" "degree n2 (p_links P) < 9"
    and P': "P' = P\<lparr>p_links := p_links P @ [(plan_intf n1 a, plan_intf n2 b)]\<rparr>"
    using s realises_sizes [OF r] by (auto simp: plan_link_def split: if_splits)
  note wf = config_ok_wf [OF realises_config [OF r]]
  let ?g = "insert_link_between_two_nodes g n1 n2 a b c"
  note w1 = graph_wf_node [OF wf n(1)] and w2 = graph_wf_node [OF wf n(2)]
  have l: "length (node_intfs g n1) < 9" "length (node_intfs g n2) < 9"
    using d degree_node [OF r] n by simp_all
  note res = insert_link_result [OF node_wf_slots [OF w1] l(1) node_wf_slots [OF w2] l(2) n(3), where a = a and b = b and c = c]
  have cfg: "configured ?g"
    using r configured_step config_step.insert_link [OF n(1-5)] by (auto simp: realises_def)
  have old: "fst q < n_links g" if "q \<in> set (all_ends g)" for q using that by (auto simp: all_ends_def)
  have att: "att_node (iface ?g q) = att_node (iface g q)" if "q \<in> set (all_ends g)" for q
    using old [OF that] by (auto simp: res(5))
  have ends: "all_ends ?g = all_ends g @ [(n_links g, Intf1), (n_links g, Intf2)]"
    by (simp add: all_ends_def res(1))
  have f: "filter (\<lambda>q. att_node (iface ?g q) = Some m) (all_ends g) = filter (\<lambda>q. att_node (iface g q) = Some m) (all_ends g)" for m
    by (rule filter_cong [OF refl]) (simp add: att)
  have att': "att_node (iface ?g (n_links g, Intf1)) = Some n1" "att_node (iface ?g (n_links g, Intf2)) = Some n2"
    by (simp_all add: res(5) fresh_intf_def)
  have "node_intfs ?g m = filter (\<lambda>q. att_node (iface ?g q) = Some m) (all_ends ?g)" if "m < n_nodes ?g" for m
  proof -
    have "filter (\<lambda>q. att_node (iface ?g q) = Some m) (all_ends ?g) = node_intfs g m @
        filter (\<lambda>q. att_node (iface ?g q) = Some m) [(n_links g, Intf1), (n_links g, Intf2)]"
      unfolding ends filter_append f using r that by (simp add: res(2) realises_def slots_follow_links_def)
    then show ?thesis
      using insert_link_node_intfs [OF w1 w2 n(3) l, where a = a and b = b and c = c] n(3) att' res(6) [of m]
      by (auto simp: node_intfs_def)
  qed
  moreover have "plan_of ?g = P'"
    using r n(3) by (auto simp: realises_def plan_of_def P' res no_mac_def fresh_intf_def plan_intf_def)
  ultimately show "\<exists>g'. new_link n1 n2 a b c g = Inr g' \<and> realises g' P'"
    using cfg by (simp add: new_link_def realises_def slots_follow_links_def)
qed

text \<open>A change of a node that leaves its slots alone.\<close>

lemma slots_follow_upd_node:
  "slots_follow_links g \<Longrightarrow> (\<And>nd. intf (f nd) = intf nd) \<Longrightarrow> slots_follow_links (upd_node g n f)"
  by (simp add: slots_follow_links_def node_intfs_def all_ends_def)

lemma plan_of_upd_node:
  assumes "plan_of g = P" "n < length (p_nodes P)"
  shows "plan_of (upd_node g n f) = P\<lparr>p_nodes := (p_nodes P)[n :=
    (node_name (f (nodes g n)), lb_addr (f (nodes g n)), node_route_table (f (nodes g n)))]\<rparr>"
  using assms by (auto simp: plan_of_def intro!: nth_equalityI simp: nth_list_update)

lemma plan_nodes_nth:
  assumes "plan_of g = P" "n < length (p_nodes P)"
  shows "p_nodes P ! n = (node_name (nodes g n), lb_addr (nodes g n), node_route_table (nodes g n))"
  using assms by (auto simp: plan_of_def)

lemma implements_loopback: "implements (set_loopback n ip) (plan_loopback n ip)"
proof (rule implementsI)
  fix g P P' assume r: "realises g P" and s: "plan_loopback n ip P = Some P'"
  have n: "n < length (p_nodes P)" "n < n_nodes g" and l: "length ip < 16"
    and P': "P' = add_route_to n ip 32 (P\<lparr>p_nodes := (p_nodes P)[n := (case p_nodes P ! n of (nm, lb, rt) \<Rightarrow> (nm, ip, rt))]\<rparr>)"
    using s realises_sizes [OF r] by (auto simp: plan_loopback_def split: if_splits)
  let ?f = "\<lambda>nd. nd\<lparr>is_lb_addr_config := True, lb_addr := ip, node_route_table :=
    \<lparr>rt_dest = ip, rt_mask = 32, is_direct = True, rt_gw = [], rt_oif = []\<rparr> # node_route_table (nodes g n)\<rparr>"
  have c: "node_set_loopback_address g n ip = Inr (upd_node g n ?f)"
    using l by (simp add: node_set_loopback_address_def strcpy_to_def rt_table_add_direct_route_def)
  have cfg: "configured (upd_node g n ?f)"
    using r configured_step config_step.loopback [OF n(2) c] by (auto simp: realises_def)
  have "plan_of (upd_node g n ?f) = P'"
    using r n plan_of_upd_node [of g P n ?f] plan_nodes_nth [of g P n]
    by (simp add: realises_def P' add_route_to_def)
  then show "\<exists>g'. set_loopback n ip g = Inr g' \<and> realises g' P'"
    using c cfg r slots_follow_upd_node [of g ?f n] by (simp add: set_loopback_def realises_def)
qed

lemma implements_address: "implements (set_address n nm ip m) (plan_address n nm ip m)"
proof (rule implementsI)
  fix g P P' assume r: "realises g P" and s: "plan_address n nm ip m P = Some P'"
  obtain a where a: "inet_ntop a = ip" using s by (auto simp: plan_address_def split: option.splits if_splits)
  have n: "n < length (p_nodes P)" "n < n_nodes g" and h: "valid_mask m" "has_end n nm P"
    and P': "P' = add_route_to n (inet_ntop (network a m)) m
      (P\<lparr>p_links := on_first_end n nm (intf_set_ip (inet_ntop a) m) (p_links P)\<rparr>)"
    using s realises_sizes [OF r] by (auto simp: plan_address_def a [symmetric] split: if_splits)
  obtain q where q: "get_node_if_by_name g n nm = Some q"
    "slots_follow_links (upd_iface g q (intf_set_ip (inet_ntop a) m))"
    "plan_of (upd_iface g q (intf_set_ip (inet_ntop a) m)) =
      P\<lparr>p_links := on_first_end n nm (intf_set_ip (inet_ntop a) m) (p_links P)\<rparr>"
    by (rule realises_on_end [OF r n(1) h(2), of "intf_set_ip (inet_ntop a) m"]) simp_all
  let ?f = "\<lambda>nd. nd\<lparr>node_route_table := direct_route a m # node_route_table (nodes g n)\<rparr>"
  note c = set_ip_result [OF q(1) h(1), of a]
  let ?g = "upd_node (upd_iface g q (intf_set_ip (inet_ntop a) m)) n ?f"
  have cfg: "configured ?g"
    using r configured_step config_step.set_ip [OF n(2) h(1) _ c] by (auto simp: realises_def)
  have "plan_of ?g = P'"
    using n plan_of_upd_node [OF q(3), of n ?f] plan_nodes_nth [OF q(3), of n]
    by (simp add: P' add_route_to_def direct_route_def)
  then show "\<exists>g'. set_address n nm ip m g = Inr g' \<and> realises g' P'"
    using c cfg a slots_follow_upd_node [OF q(2), of ?f n] by (simp add: set_address_def realises_def)
qed

lemma implements_on_end:
  assumes f: "plain_change f" and a: "\<And>g. a g = Inr (on_named_intf g n nm f)"
    and c: "\<And>g. n < n_nodes g \<Longrightarrow> config_step g (on_named_intf g n nm f)"
  shows "implements a (plan_on_end n nm f)"
proof (rule implementsI)
  fix g P P' assume r: "realises g P" and s: "plan_on_end n nm f P = Some P'"
  have n: "n < length (p_nodes P)" "n < n_nodes g" and h: "has_end n nm P"
    and P': "P' = P\<lparr>p_links := on_first_end n nm f (p_links P)\<rparr>"
    using s realises_sizes [OF r] by (auto simp: plan_on_end_def split: if_splits)
  obtain q where "get_node_if_by_name g n nm = Some q" "slots_follow_links (upd_iface g q f)"
    "plan_of (upd_iface g q f) = P'"
    unfolding P' by (rule realises_on_end [OF r n(1) h f])
  then show "\<exists>g'. a g = Inr g' \<and> realises g' P'"
    using c [OF n(2)] r configured_step by (auto simp: a on_named_intf_def realises_def)
qed

lemma implements_mode: "implements (set_mode n nm md) (plan_on_end n nm (set_l2_mode md))"
  by (rule implements_on_end) (auto simp: set_mode_def node_set_intf_l2_mode_def [symmetric] intro: config_step.set_mode)

lemma implements_vlan: "implements (set_vlan n nm v) (plan_on_end n nm (interface_set_vlan v))"
  by (rule implements_on_end)
    (auto simp: set_vlan_def node_set_intf_vlan_membership_def [symmetric] intro: config_step.add_vlan)

lemmas implements_actions = implements_node implements_link implements_loopback implements_address
  implements_mode implements_vlan


section \<open>The sample topologies\<close>

text \<open>The plans of the builders.\<close>

definition first_plan :: "(plan \<Rightarrow> plan option) list" where
  "first_plan =
     [plan_node ''R0_re'', plan_node ''R1_re'', plan_node ''R2_re'',
      plan_link 0 1 ''eth0/0'' ''eth0/1'', plan_link 1 2 ''eth0/2'' ''eth0/3'',
      plan_link 0 2 ''eth0/4'' ''eth0/5'', plan_loopback 0 ''122.1.1.0'',
      plan_address 0 ''eth0/0'' ''40.1.1.1'' 24, plan_address 0 ''eth0/4'' ''20.1.1.1'' 24,
      plan_loopback 1 ''122.1.1.1'', plan_address 1 ''eth0/1'' ''20.1.1.2'' 24,
      plan_address 1 ''eth0/2'' ''30.1.1.1'' 24, plan_loopback 2 ''122.1.1.2'',
      plan_address 2 ''eth0/3'' ''30.1.1.2'' 24, plan_address 2 ''eth0/5'' ''40.1.1.2'' 24]"

definition linear_plan :: "(plan \<Rightarrow> plan option) list" where
  "linear_plan =
     [plan_node ''R0'', plan_node ''R1'', plan_node ''R2'', plan_node ''R3'',
      plan_link 0 1 ''eth0/1'' ''eth0/0'', plan_link 1 2 ''eth0/2'' ''eth0/1'',
      plan_link 2 3 ''eth0/3'' ''eth0/2'', plan_loopback 0 ''1.1.1.1'',
      plan_loopback 1 ''2.2.2.2'', plan_loopback 2 ''3.3.3.3'', plan_loopback 3 ''4.4.4.4'',
      plan_address 0 ''eth0/1'' ''10.1.1.1'' 24, plan_address 1 ''eth0/0'' ''10.1.1.2'' 24,
      plan_address 1 ''eth0/2'' ''20.1.1.2'' 24, plan_address 2 ''eth0/1'' ''20.1.1.1'' 24,
      plan_address 2 ''eth0/3'' ''30.1.1.1'' 24, plan_address 3 ''eth0/2'' ''30.1.1.2'' 24]"

definition switch_plan :: "(plan \<Rightarrow> plan option) list" where
  "switch_plan =
     [plan_node ''SW01'', plan_node ''H1'', plan_node ''H2'', plan_node ''H3'', plan_node ''H4'',
      plan_loopback 1 ''1.1.1.1'', plan_loopback 2 ''2.2.2.2'', plan_loopback 3 ''3.3.3.3'',
      plan_loopback 4 ''4.4.4.4'', plan_link 0 1 ''eth0/1'' ''eth0'',
      plan_link 0 2 ''eth0/2'' ''eth0'', plan_link 0 3 ''eth0/3'' ''eth0'',
      plan_link 0 4 ''eth0/4'' ''eth0'', plan_address 1 ''eth0'' ''10.1.1.1'' 24,
      plan_address 2 ''eth0'' ''10.1.1.2'' 24, plan_address 3 ''eth0'' ''10.1.1.3'' 24,
      plan_address 4 ''eth0'' ''10.1.1.4'' 24]"

definition dual_plan :: "(plan \<Rightarrow> plan option) list" where
  "dual_plan =
     [plan_node ''SW01'', plan_node ''SW02'', plan_node ''H1'', plan_node ''H2'', plan_node ''H3'',
      plan_node ''H4'', plan_node ''H5'', plan_node ''H6'', plan_link 0 1 ''ge0/1'' ''ge0/1'',
      plan_on_end 0 ''ge0/1'' (set_l2_mode TRUNK), plan_on_end 1 ''ge0/1'' (set_l2_mode TRUNK),
      plan_on_end 0 ''ge0/1'' (interface_set_vlan 10),
      plan_on_end 0 ''ge0/1'' (interface_set_vlan 11),
      plan_on_end 1 ''ge0/1'' (interface_set_vlan 10),
      plan_on_end 1 ''ge0/1'' (interface_set_vlan 11), plan_link 0 2 ''eth0/1'' ''eth0'',
      plan_link 0 3 ''eth0/2'' ''eth0'', plan_link 0 4 ''eth0/3'' ''eth0'',
      plan_link 1 5 ''eth0/4'' ''eth0'', plan_link 1 6 ''eth0/5'' ''eth0'',
      plan_link 1 7 ''eth0/6'' ''eth0'', plan_on_end 0 ''eth0/1'' (interface_set_vlan 10),
      plan_on_end 0 ''eth0/3'' (interface_set_vlan 10),
      plan_on_end 0 ''eth0/2'' (interface_set_vlan 10),
      plan_on_end 1 ''eth0/4'' (interface_set_vlan 10),
      plan_on_end 1 ''eth0/5'' (interface_set_vlan 10),
      plan_on_end 1 ''eth0/6'' (interface_set_vlan 10), plan_loopback 2 ''1.1.1.1'',
      plan_loopback 3 ''2.2.2.2'', plan_loopback 4 ''3.3.3.3'', plan_loopback 5 ''4.4.4.4'',
      plan_loopback 6 ''5.5.5.5'', plan_loopback 7 ''6.6.6.6'',
      plan_address 2 ''eth0'' ''10.1.1.1'' 24, plan_address 3 ''eth0'' ''10.1.1.2'' 24,
      plan_address 4 ''eth0'' ''10.1.1.3'' 24, plan_address 5 ''eth0'' ''10.1.1.4'' 24,
      plan_address 6 ''eth0'' ''10.1.1.5'' 24, plan_address 7 ''eth0'' ''10.1.1.6'' 24]"

definition l3_plan :: "(plan \<Rightarrow> plan option) list" where
  "l3_plan =
     [plan_node ''R1'', plan_node ''R2'', plan_node ''R3'', plan_loopback 0 ''1.1.1.1'',
      plan_loopback 1 ''2.2.2.2'', plan_loopback 2 ''3.3.3.3'', plan_link 0 1 ''ge0/2'' ''ge0/1'',
      plan_link 0 2 ''ge0/3'' ''ge0/1'', plan_link 1 2 ''ge0/3'' ''ge0/2'',
      plan_address 0 ''ge0/2'' ''40.1.1.1'' 24, plan_address 0 ''ge0/3'' ''20.1.1.1'' 24,
      plan_address 1 ''ge0/1'' ''40.1.1.2'' 24, plan_address 1 ''ge0/3'' ''30.1.1.2'' 24,
      plan_address 2 ''ge0/1'' ''20.1.1.3'' 24, plan_address 2 ''ge0/2'' ''30.1.1.3'' 24]"


text \<open>What a link of a graph shows: its ends, and whether they are on one subnet.\<close>

definition aligned :: "interface \<Rightarrow> interface \<Rightarrow> bool" where
  "aligned i j \<longleftrightarrow> is_ipadd_config i \<and> is_ipadd_config j \<and> if_mask i = if_mask j \<and>
     same_prefix (if_mask i) (intf_addr i) (intf_addr j)"

definition end_address :: "interface \<Rightarrow> nid \<times> string \<times> string \<times> u8" where
  "end_address i = (the (att_node i), if_name i, ip_add i, if_mask i)"

definition end_vlans :: "interface \<Rightarrow> nid \<times> string \<times> intf_l2_mode \<times> u16 list" where
  "end_vlans i = (the (att_node i), if_name i, l2_mode i, filter (\<lambda>v. v \<noteq> 0) (vlans i))"

definition link_table :: "(interface \<Rightarrow> interface \<Rightarrow> 'a) \<Rightarrow> graph \<Rightarrow> 'a list" where
  "link_table f g = map (\<lambda>l. f (iface g (l, Intf1)) (iface g (l, Intf2))) [0..<n_links g]"

abbreviation addresses :: "graph \<Rightarrow> _" where
  "addresses g \<equiv> link_table (\<lambda>i j. (end_address i, end_address j, aligned i j)) g"

abbreviation vlan_table :: "graph \<Rightarrow> _" where
  "vlan_table g \<equiv> link_table (\<lambda>i j. (end_vlans i, end_vlans j)) g"

lemma builder_realises:
  assumes "list_all2 implements as ss" and "run_plan ss \<lparr>p_nodes = [], p_links = []\<rparr> = Some P"
  shows "\<exists>g. run_actions as (fresh_graph k nm) = Inr g \<and> realises g P"
proof -
  have "realises (fresh_graph k nm) \<lparr>p_nodes = [], p_links = []\<rparr>"
    by (simp add: realises_def configured_fresh slots_follow_links_def plan_of_def)
  then show ?thesis using implements_run [OF assms(1)] assms(2) by blast
qed

lemma builder_result:
  assumes "list_all2 implements as ss"
    and "map_option (\<lambda>P. (length (p_nodes P), map (\<lambda>(i, j). f i j) (p_links P)))
           (run_plan ss \<lparr>p_nodes = [], p_links = []\<rparr>) = Some (n, t)"
    and "\<And>i j. f (no_mac i) (no_mac j) = f i j"
  shows "\<exists>g. run_actions as (fresh_graph k nm) = Inr g \<and> configured g \<and> n_nodes g = n \<and> link_table f g = t"
proof -
  obtain P where P: "run_plan ss \<lparr>p_nodes = [], p_links = []\<rparr> = Some P" "length (p_nodes P) = n"
    "map (\<lambda>(i, j). f i j) (p_links P) = t"
    using assms(2) by auto
  obtain g where "run_actions as (fresh_graph k nm) = Inr g" "realises g P"
    using builder_realises [OF assms(1) P(1)] by blast
  then show ?thesis
    using P(2,3) assms(3) by (auto simp: realises_def plan_of_def link_table_def)
qed

lemma tables_no_mac:
  "(\<lambda>i j. (end_address i, end_address j, aligned i j)) (no_mac i) (no_mac j) = (end_address i, end_address j, aligned i j)"
  "(\<lambda>i j. (end_vlans i, end_vlans j)) (no_mac i) (no_mac j) = (end_vlans i, end_vlans j)"
  by (simp_all add: end_address_def end_vlans_def aligned_def intf_addr_def no_mac_def)

lemma first_built:
  "\<exists>g. build_first_topology sock k = Inr g \<and> configured g \<and> n_nodes g = 3 \<and> addresses g =
    [((0, ''eth0/0'', ''40.1.1.1'', 24), (1, ''eth0/1'', ''20.1.1.2'', 24), False),
     ((1, ''eth0/2'', ''30.1.1.1'', 24), (2, ''eth0/3'', ''30.1.1.2'', 24), True),
     ((0, ''eth0/4'', ''20.1.1.1'', 24), (2, ''eth0/5'', ''40.1.1.2'', 24), False)]"
  unfolding build_first_topology_def Let_def
  by (rule builder_result [of _ first_plan]) (simp add: first_plan_def implements_actions, code_simp, rule tables_no_mac)

lemma linear_built:
  "\<exists>g. build_linear_topology sock k = Inr g \<and> configured g \<and> n_nodes g = 4 \<and> addresses g =
    [((0, ''eth0/1'', ''10.1.1.1'', 24), (1, ''eth0/0'', ''10.1.1.2'', 24), True),
     ((1, ''eth0/2'', ''20.1.1.2'', 24), (2, ''eth0/1'', ''20.1.1.1'', 24), True),
     ((2, ''eth0/3'', ''30.1.1.1'', 24), (3, ''eth0/2'', ''30.1.1.2'', 24), True)]"
  unfolding build_linear_topology_def Let_def
  by (rule builder_result [of _ linear_plan]) (simp add: linear_plan_def implements_actions, code_simp, rule tables_no_mac)

lemma l3_built:
  "\<exists>g. build_simple_l3_topology sock k = Inr g \<and> configured g \<and> n_nodes g = 3 \<and> addresses g =
    [((0, ''ge0/2'', ''40.1.1.1'', 24), (1, ''ge0/1'', ''40.1.1.2'', 24), True),
     ((0, ''ge0/3'', ''20.1.1.1'', 24), (2, ''ge0/1'', ''20.1.1.3'', 24), True),
     ((1, ''ge0/3'', ''30.1.1.2'', 24), (2, ''ge0/2'', ''30.1.1.3'', 24), True)]"
  unfolding build_simple_l3_topology_def Let_def
  by (rule builder_result [of _ l3_plan]) (simp add: l3_plan_def implements_actions, code_simp, rule tables_no_mac)

lemma switch_built:
  "\<exists>g. build_simple_l2_switch_topology sock k = Inr g \<and> configured g \<and> n_nodes g = 5 \<and> vlan_table g =
    [((0, ''eth0/1'', ACCESS, []), (1, ''eth0'', L2_MODE_UNKNOWN, [])),
     ((0, ''eth0/2'', ACCESS, []), (2, ''eth0'', L2_MODE_UNKNOWN, [])),
     ((0, ''eth0/3'', ACCESS, []), (3, ''eth0'', L2_MODE_UNKNOWN, [])),
     ((0, ''eth0/4'', ACCESS, []), (4, ''eth0'', L2_MODE_UNKNOWN, []))]"
  unfolding build_simple_l2_switch_topology_def Let_def
  by (rule builder_result [of _ switch_plan]) (simp add: switch_plan_def implements_actions, code_simp, rule tables_no_mac)

lemma dual_built:
  "\<exists>g. build_dual_switch_topology sock k = Inr g \<and> configured g \<and> n_nodes g = 8 \<and> vlan_table g =
    [((0, ''ge0/1'', TRUNK, [10, 11]), (1, ''ge0/1'', TRUNK, [10, 11])),
     ((0, ''eth0/1'', ACCESS, [10]), (2, ''eth0'', L2_MODE_UNKNOWN, [])),
     ((0, ''eth0/2'', ACCESS, [10]), (3, ''eth0'', L2_MODE_UNKNOWN, [])),
     ((0, ''eth0/3'', ACCESS, [10]), (4, ''eth0'', L2_MODE_UNKNOWN, [])),
     ((1, ''eth0/4'', ACCESS, [10]), (5, ''eth0'', L2_MODE_UNKNOWN, [])),
     ((1, ''eth0/5'', ACCESS, [10]), (6, ''eth0'', L2_MODE_UNKNOWN, [])),
     ((1, ''eth0/6'', ACCESS, [10]), (7, ''eth0'', L2_MODE_UNKNOWN, []))]"
  unfolding build_dual_switch_topology_def Let_def
  by (rule builder_result [of _ dual_plan]) (simp add: dual_plan_def implements_actions, code_simp, rule tables_no_mac)

lemma sample_topologies_configured:
  "\<exists>g. build_first_topology sock k = Inr g \<and> configured g"
  "\<exists>g. build_linear_topology sock k = Inr g \<and> configured g"
  "\<exists>g. build_simple_l2_switch_topology sock k = Inr g \<and> configured g"
  "\<exists>g. build_dual_switch_topology sock k = Inr g \<and> configured g"
  "\<exists>g. build_simple_l3_topology sock k = Inr g \<and> configured g"
  using first_built [of sock k] linear_built [of sock k] switch_built [of sock k] dual_built [of sock k]
    l3_built [of sock k] by blast+

section \<open>Properties\<close>


end
