(* ===== verification/Dump.thy ===== *)
theory Dump
  imports Net Packet
begin

text \<open>
  What the program prints about its state: the dump functions of \<^verbatim>\<open>src/graph.c\<close>, \<^verbatim>\<open>src/net.c\<close>,
  \<^verbatim>\<open>src/layer2/\<close> and \<^verbatim>\<open>src/layer3/layer3.c\<close>, and the packet dump of \<^verbatim>\<open>src/pkt_dump.c\<close>. Each gives
  the text it prints. \<^verbatim>\<open>dump_nw_node\<close> changes the node as well: it appends \<^verbatim>\<open>/32\<close> to the
  loopback address in place.
\<close>

section \<open>Formatted output\<close>

text \<open>The conversions of \<^verbatim>\<open>printf\<close> that the program uses, and padding to a width.\<close>

fun digits :: "nat \<Rightarrow> nat \<Rightarrow> string" where
  "digits base n =
     (if base < 2 \<or> n < base then [''0123456789abcdef'' ! n]
      else digits base (n div base) @ [''0123456789abcdef'' ! (n mod base)])"

declare digits.simps [simp del]

definition fmt_u :: "'a::len word \<Rightarrow> string" where
  "fmt_u w = digits 10 (unat w)"

definition fmt_d :: "int \<Rightarrow> string" where
  "fmt_d i = (if i < 0 then CHR ''-'' # digits 10 (nat (- i)) else digits 10 (nat i))"

definition fmt_x :: "'a::len word \<Rightarrow> string" where
  "fmt_x w = digits 16 (unat w)"

definition pad_left :: "nat \<Rightarrow> char \<Rightarrow> string \<Rightarrow> string" where
  "pad_left k c s = replicate (k - length s) c @ s"

definition pad_right :: "nat \<Rightarrow> string \<Rightarrow> string" where
  "pad_right k s = s @ replicate (k - length s) (CHR '' '')"

definition tab :: string where "tab = [CHR 0x09]"
definition newline :: string where "newline = [CHR 0x0A]"

fun sep_by :: "string \<Rightarrow> string list \<Rightarrow> string" where
  "sep_by s [] = []"
| "sep_by s [x] = x"
| "sep_by s (x # y # ys) = x @ s @ sep_by s (y # ys)"

text \<open>\<^verbatim>\<open>%02x:...\<close> and \<^verbatim>\<open>%x:...\<close> on the bytes of a MAC address.\<close>

definition mac_02x :: "bytes \<Rightarrow> string" where
  "mac_02x m = sep_by '':'' (map (\<lambda>b. pad_left 2 (CHR ''0'') (fmt_x b)) m)"

definition mac_x :: "bytes \<Rightarrow> string" where
  "mac_x m = sep_by '':'' (map fmt_x m)"

fun intf_l2_mode_str :: "intf_l2_mode \<Rightarrow> string" where
  "intf_l2_mode_str ACCESS = ''access''"
| "intf_l2_mode_str TRUNK = ''trunk''"
| "intf_l2_mode_str L2_MODE_UNKNOWN = ''L2_MODE_UNKNOWN''"

fun debug_status_str :: "debug_status \<Rightarrow> string" where
  "debug_status_str DEBUG_ON = ''on''"
| "debug_status_str DEBUG_OFF = ''off''"


section \<open>The tables\<close>

definition mac_table_dump :: "mac_table \<Rightarrow> string" where
  "mac_table_dump t =
     concat (map (\<lambda>e. ''MAC : '' @ mac_x (mac e) @ tab @ '' OIF : '' @ mac_oif e @ newline) t)"

definition arp_table_dump :: "arp_table \<Rightarrow> string" where
  "arp_table_dump t =
     concat (map (\<lambda>e. ''IP : '' @ pad_right 16 (arp_ip e) @ tab @ '' MAC : '' @ mac_x (arp_mac e) @
       tab @ '' OIF : '' @ arp_oif e @ newline) t)"

definition rt_dump_table :: "route_table \<Rightarrow> string" where
  "rt_dump_table t =
     concat (map (\<lambda>r. ''Dst: '' @ pad_left 2 (CHR '' '') (rt_dest r) @ ''/'' @ pad_right 4 (fmt_u (rt_mask r)) @
       '' '' @ pad_right 5 (if is_direct r then ''directly connected'' else ''remote subnet'') @
       '' , GW: '' @ rt_gw r @ '', OIF : '' @ rt_oif r @ newline) t)"


section \<open>Interfaces and nodes\<close>

definition dump_vlan_membership :: "interface \<Rightarrow> string" where
  "dump_vlan_membership i =
     (if l2_mode i \<noteq> L2_MODE_UNKNOWN
      then ''VLAN Membership : [ '' @
        concat (map (\<lambda>vlan. if vlan \<noteq> 0 then fmt_u vlan @ '' '' else []) (take MAX_VLAN_MEMBERSHIP (vlans i))) @
        '']'' @ newline
      else [])"

definition dump_nw_interface :: "graph \<Rightarrow> ifptr \<Rightarrow> string res" where
  "dump_nw_interface g q =
     (let i = iface g q; nbr = get_nbr_node g q in
      rbind (if is_ipadd_config i then apply_mask (ip_add i) (if_mask i) else Inr []) (\<lambda>ip_subnet.
      rbind (deref nbr) (\<lambda>m.
      Inr (''Interface Name : '' @ if_name i @ '' ('' @
             (if IS_INTF_L3_MODE i then ''IP Routed'' else intf_l2_mode_str (l2_mode i)) @ '')'' @ newline @ '' '' @
           dump_vlan_membership i @
           tab @ ''Nbr Node '' @ node_name (nodes g m) @ '', Local Node : '' @ if_name i @
             '' , cost = '' @ fmt_d (sint (link_cost (links g (fst q)))) @ newline @
           tab @ ''IP Addr : '' @ ip_add i @ ''('' @ ip_subnet @ ''/'' @ fmt_d (sint (if_mask i)) @
             '' )  MAC : '' @ mac_02x (if_mac i) @ '' '' @ newline))))"

text \<open>The loop over the slots of a node stops at the first empty one.\<close>

fun dump_slots :: "(ifptr \<Rightarrow> string res) \<Rightarrow> ifptr option list \<Rightarrow> string res" where
  "dump_slots dump [] = Inr []"
| "dump_slots dump (None # ss) = Inr []"
| "dump_slots dump (Some q # ss) =
     rbind (dump q) (\<lambda>s. rbind (dump_slots dump ss) (\<lambda>t. Inr (s @ t)))"

text \<open>\<^verbatim>\<open>strcat\<close> onto a text in an array of size \<open>n\<close>: the result and the NUL must fit.\<close>

definition strcat_to :: "nat \<Rightarrow> string \<Rightarrow> string \<Rightarrow> string res" where
  "strcat_to n d s = (if length d + length s < n then Inr (d @ s) else Inl Out_of_bounds)"

definition dump_nw_node :: "graph \<Rightarrow> nid \<Rightarrow> (string \<times> graph) res" where
  "dump_nw_node g n =
     rbind (strcat_to 16 (lb_addr (nodes g n)) ''/32'') (\<lambda>lo_addr.
     let g' = upd_node g n (\<lambda>nd. nd\<lparr>lb_addr := lo_addr\<rparr>) in
     rbind (dump_slots (dump_nw_interface g') (take (MAX_INTF_PER_NODE - 1) (intf (nodes g' n)))) (\<lambda>s.
     Inr (''Node Name : '' @ node_name (nodes g n) @ newline @
          tab @ '' lo addr : '' @ lo_addr @ '' '' @ newline @ s @ newline, g')))"

fun dump_nw_nodes :: "nid list \<Rightarrow> graph \<Rightarrow> (string \<times> graph) res" where
  "dump_nw_nodes [] g = Inr ([], g)"
| "dump_nw_nodes (n # ns) g =
     rbind (dump_nw_node g n) (\<lambda>(s, g1). rbind (dump_nw_nodes ns g1) (\<lambda>(t, g2). Inr (s @ t, g2)))"

definition rule_line :: string where
  "rule_line = ''=========================================='' @ newline"

definition dump_nw_graph :: "graph \<Rightarrow> (string \<times> graph) res" where
  "dump_nw_graph g =
     rbind (dump_nw_nodes (node_list g) g) (\<lambda>(s, g').
     Inr (''Topology Name : '' @ topolgy_name g @ newline @ rule_line @ s, g'))"

text \<open>The dump of \<^verbatim>\<open>src/graph.c\<close>, which changes nothing.\<close>

definition dump_interface :: "graph \<Rightarrow> ifptr \<Rightarrow> string res" where
  "dump_interface g q =
     (let i = iface g q in
      rbind (deref (att_node i)) (\<lambda>n.
      rbind (deref (get_nbr_node g q)) (\<lambda>m.
      Inr (''Local Node : '' @ node_name (nodes g n) @ '' , Interface Name : '' @ if_name i @
           '' , Nbr Node : '' @ node_name (nodes g m) @ '' , cost : '' @
           fmt_d (sint (link_cost (links g (fst q)))) @ newline))))"

definition dump_node :: "graph \<Rightarrow> nid \<Rightarrow> string res" where
  "dump_node g n =
     rbind (dump_slots (dump_interface g) (take (MAX_INTF_PER_NODE - 1) (intf (nodes g n)))) (\<lambda>s.
     Inr (''Node Name : '' @ node_name (nodes g n) @ newline @ s))"

fun dump_nodes :: "graph \<Rightarrow> nid list \<Rightarrow> string res" where
  "dump_nodes g [] = Inr []"
| "dump_nodes g (n # ns) = rbind (dump_node g n) (\<lambda>s. rbind (dump_nodes g ns) (\<lambda>t. Inr (s @ t)))"

definition dump_graph :: "graph \<Rightarrow> string res" where
  "dump_graph g =
     rbind (dump_nodes g (node_list g)) (\<lambda>s.
     Inr (''Topology Name : '' @ topolgy_name g @ newline @ rule_line @ s))"


section \<open>Packets\<close>

text \<open>\<^verbatim>\<open>%hhu\<close> prints the low byte of its argument.\<close>

definition fmt_hhu :: "'a::len word \<Rightarrow> string" where
  "fmt_hhu w = fmt_u (ucast w :: u8)"

definition icmp_pkt_dump :: "bytes \<Rightarrow> nat \<Rightarrow> string res" where
  "icmp_pkt_dump b p =
     rbind (rd_icmp b p) (\<lambda>icmp.
     Inr (tab @ ''<ICMP>'' @ newline @
          tab @ ''Type : '' @ fmt_u (icmp_type icmp) @ newline @
          tab @ ''Code : '' @ fmt_u (icmp_code icmp) @ newline @
          tab @ ''Checksum : '' @ fmt_hhu (icmp_checksum icmp) @ newline @
          (if icmp_type icmp = 0 \<or> icmp_type icmp = 8
           then tab @ ''Identifier: '' @ fmt_u (icmp_identifier icmp) @ newline @
                tab @ ''Sequence Number: '' @ fmt_u (seq_num icmp) @ newline @
                tab @ ''Data : 0x'' @ pad_left 8 (CHR '' '') (fmt_x (icmp_data icmp)) @ newline
           else [])))"

definition arp_pkt_dump :: "bytes \<Rightarrow> nat \<Rightarrow> string res" where
  "arp_pkt_dump b p =
     rbind (rd_arp b p) (\<lambda>arp.
     Inr (tab @ ''<ARP>'' @ newline @
          tab @ ''HW Type: '' @ fmt_u (hw_type arp) @ newline @
          tab @ ''Proto Type: 0x'' @ pad_left 4 (CHR ''0'') (fmt_x (proto_type arp)) @ newline @
          tab @ ''HW ADDR LEN: '' @ fmt_u (hw_addr_len arp) @ newline @
          tab @ ''Proto: '' @ fmt_u (proto_addr_len arp) @ newline @
          tab @ ''HW Type: '' @ fmt_u (hw_type arp) @ newline @
          tab @ ''OP Code: '' @ fmt_u (op_code arp) @ newline @
          tab @ ''Src Mac: '' @ mac_02x (src_mac arp) @ newline @
          tab @ ''Src IP: '' @ convert_ip_from_int_to_str (src_ip arp) @ newline @
          tab @ ''Target Mac: '' @ mac_02x (dst_mac arp) @ newline @
          tab @ ''Target IP: '' @ convert_ip_from_int_to_str (dst_ip arp) @ newline))"

definition ip_pkt_dump :: "bytes \<Rightarrow> nat \<Rightarrow> string res" where
  "ip_pkt_dump b p =
     rbind (rd_ip b p) (\<lambda>ip.
     rbind (if proto ip = ICMP_PROTO then icmp_pkt_dump b (p + unat (ihl ip) * 4) else Inr []) (\<lambda>s.
     Inr (tab @ ''<IP>'' @ newline @
          tab @ ''Version: '' @ fmt_u (version ip) @ newline @
          tab @ ''Header Length: '' @ fmt_u (ihl ip) @ newline @
          tab @ ''TOS: '' @ fmt_u (tos ip) @ newline @
          tab @ ''Total Length: '' @ fmt_hhu (ip_len ip) @ newline @
          tab @ ''Identification: '' @ fmt_hhu (identification ip) @ newline @
          tab @ ''Flags: '' @ fmt_u (reserved ip) @ '' '' @ fmt_u (ip_DF ip) @ '' '' @ fmt_u (ip_MF ip) @ newline @
          tab @ ''Fragment Offset: '' @ fmt_u (frag_offset ip) @ newline @
          tab @ ''TTL: '' @ fmt_u (TTL ip) @ newline @
          tab @ ''Protocol: '' @ fmt_u (proto ip) @ newline @
          tab @ ''Checksum: '' @ fmt_u (checksum ip) @ newline @
          tab @ ''Source Address: '' @ convert_ip_from_int_to_str (ip_src ip) @ newline @
          tab @ ''Destination Address: '' @ convert_ip_from_int_to_str (ip_dest ip) @ newline @ s)))"

definition MAX_ETH_PAYLOAD :: nat where "MAX_ETH_PAYLOAD = 1500"

text \<open>
  The payload is copied to a local array, whose bytes before that are \<open>old\<close>. The length of the
  copy is computed in 64 bits: for a packet shorter than its header it wraps to a number
  beyond every buffer.
\<close>

definition pkt_dump :: "bytes \<Rightarrow> bytes \<Rightarrow> nat \<Rightarrow> u32 \<Rightarrow> string res" where
  "pkt_dump old b p pkt_size =
     rbind (eth_dest b p) (\<lambda>dmac.
     rbind (eth_src b p) (\<lambda>smac.
     rbind (is_pkt_vlan_tagged b p) (\<lambda>tagged.
     let hdr_size = (if tagged then VLAN_ETH_HDR_SIZE else ETH_HDR_SIZE);
         copy = unat (ucast pkt_size - of_nat hdr_size :: 64 word)
     in
     rbind (rd16 b (p + hdr_size - 2)) (\<lambda>type.
     rbind (rd b (p + hdr_size) copy) (\<lambda>data.
     rbind (wr old 0 data) (\<lambda>payload.
     rbind (if tagged then rbind (rd16 b (p + 12)) (\<lambda>tpid. rbind (rd16 b (p + 14)) (\<lambda>tci.
              Inr (''<VLAN TAGGED>'' @ newline @
                   tab @ ''TPID : 0x'' @ pad_left 4 (CHR '' '') (fmt_x tpid) @ newline @
                   tab @ ''PRI : '' @ fmt_u (tci AND 7) @ newline @
                   tab @ ''DEI: '' @ fmt_u (drop_bit 3 tci AND 1) @ newline @
                   tab @ ''VLAN ID: '' @ fmt_u (tci_vid tci) @ newline)))
            else Inr (''<VLAN Untagged>'' @ newline)) (\<lambda>tag_text.
     rbind (if type = ARP_PACKET then arp_pkt_dump payload 0
            else if type = IP_PROTO then ip_pkt_dump payload 0
            else Inr (tab @ ''<UNKNOWN>'' @ newline @
                      tab @ ''Offset: '' @ digits 16 ETH_HDR_SIZE @ newline @
                      ''Pkt Size : '' @ fmt_u (ucast pkt_size - of_nat (ETH_HDR_SIZE + 4) :: 64 word) @ newline)) (\<lambda>s.
     Inr (''<Ethernet>'' @ newline @
          ''Dst Mac: '' @ mac_02x dmac @ newline @
          ''Src Mac: '' @ mac_02x smac @ newline @ tag_text @
          ''Type : 0x'' @ pad_left 4 (CHR ''0'') (fmt_x type) @ newline @ s)))))))))"


section \<open>What a dump does\<close>

lemma dump_slots_ok:
  "(\<And>q. Some q \<in> set ss \<Longrightarrow> \<exists>s. dump q = Inr s) \<Longrightarrow> \<exists>s. dump_slots dump ss = Inr s"
proof (induction dump ss rule: dump_slots.induct)
  case (3 dump q ss)
  then obtain s t where "dump q = Inr s" "dump_slots dump ss = Inr t" by fastforce
  then show ?case by simp
qed simp_all

lemma dump_nw_interface_ok:
  assumes "config_ok g" "fst q < n_links g"
  shows "\<exists>s. dump_nw_interface g q = Inr s"
proof -
  obtain m where m: "att_node (iface g (remote_intf q)) = Some m"
    by (rule graph_wf_att [OF config_ok_wf [OF assms(1)], of "remote_intf q"])
      (use assms(2) in \<open>simp_all add: remote_intf_def\<close>)
  have "\<exists>t. apply_mask (ip_add (iface g q)) (if_mask (iface g q)) = Inr t" if "is_ipadd_config (iface g q)"
    using config_ok_intf [OF assms] that by (auto simp: intf_cfg_ok_def apply_mask_total)
  then show ?thesis
    using m by (auto simp: dump_nw_interface_def Let_def get_nbr_node_remote)
qed

lemma slot_link:
  assumes "graph_wf g" "n < n_nodes g" "Some q \<in> set (intf (nodes g n))"
  shows "fst q < n_links g"
  using assms(3) node_wf_slots [OF graph_wf_node [OF assms(1,2)]]
    node_wf_props(3) [OF graph_wf_node [OF assms(1,2)], of q] by (simp add: set_slots)

text \<open>The change that a dump makes to a node.\<close>

definition mark_loopback :: "nid \<Rightarrow> graph \<Rightarrow> graph" where
  "mark_loopback n g = upd_node g n (\<lambda>nd. nd\<lparr>lb_addr := lb_addr nd @ ''/32''\<rparr>)"

definition markable :: "graph \<Rightarrow> nid \<Rightarrow> bool" where
  "markable g n \<longleftrightarrow> length (lb_addr (nodes g n)) < 13"

lemma mark_loopback_frame [simp]:
  "n_nodes (mark_loopback n g) = n_nodes g" "n_links (mark_loopback n g) = n_links g"
  "node_list (mark_loopback n g) = node_list g" "iface (mark_loopback n g) q = iface g q"
  "node_route_table (nodes (mark_loopback n g) m) = node_route_table (nodes g m)"
  "intf (nodes (mark_loopback n g) m) = intf (nodes g m)"
  "node_name (nodes (mark_loopback n g) m) = node_name (nodes g m)"
  "lb_addr (nodes (mark_loopback n g) m) = lb_addr (nodes g m) @ (if m = n then ''/32'' else [])"
  by (simp_all add: mark_loopback_def)

lemma config_ok_mark: "config_ok g \<Longrightarrow> config_ok (mark_loopback n g)"
  unfolding mark_loopback_def by (rule config_ok_upd_node) (auto simp: node_cfg_ok_def)

lemma dump_nw_node_result:
  assumes "config_ok g" "n < n_nodes g"
  shows "if markable g n then \<exists>s. dump_nw_node g n = Inr (s, mark_loopback n g)
    else dump_nw_node g n = Inl Out_of_bounds"
proof (cases "markable g n")
  case True
  have m: "upd_node g n (\<lambda>nd. nd\<lparr>lb_addr := lb_addr (nodes g n) @ ''/32''\<rparr>) = mark_loopback n g"
    by (simp add: mark_loopback_def upd_node_def)
  let ?ss = "take (MAX_INTF_PER_NODE - 1) (intf (nodes (mark_loopback n g) n))"
  have "fst q < n_links g" if "Some q \<in> set ?ss" for q
    using slot_link [OF config_ok_wf [OF assms(1)] assms(2)] in_set_takeD [OF that] by simp
  then have "\<exists>s. dump_slots (dump_nw_interface (mark_loopback n g)) ?ss = Inr s"
    by (intro dump_slots_ok dump_nw_interface_ok config_ok_mark assms(1)) simp
  then show ?thesis
    using True m by (auto simp: dump_nw_node_def strcat_to_def markable_def)
qed (simp add: dump_nw_node_def strcat_to_def markable_def)

lemma dump_nw_nodes_result:
  assumes "config_ok g" "distinct ns" "\<forall>n \<in> set ns. n < n_nodes g"
  shows "if \<forall>n \<in> set ns. markable g n then \<exists>s. dump_nw_nodes ns g = Inr (s, fold mark_loopback ns g)
    else dump_nw_nodes ns g = Inl Out_of_bounds"
  using assms
proof (induction ns arbitrary: g)
  case (Cons n ns)
  let ?g = "mark_loopback n g"
  have m: "markable ?g k = markable g k" if "k \<in> set ns" for k
    using that Cons.prems(2) by (auto simp: markable_def)
  have "if \<forall>k \<in> set ns. markable ?g k then \<exists>s. dump_nw_nodes ns ?g = Inr (s, fold mark_loopback ns ?g)
      else dump_nw_nodes ns ?g = Inl Out_of_bounds"
    using Cons.prems by (intro Cons.IH config_ok_mark) simp_all
  then show ?case
    using dump_nw_node_result [OF Cons.prems(1), of n] Cons.prems(3) m
    by (cases "markable g n") (auto split: if_splits)
qed simp

lemma dump_nw_graph_result:
  assumes "config_ok g"
  shows "if \<forall>n < n_nodes g. markable g n
    then \<exists>s. dump_nw_graph g = Inr (s, fold mark_loopback (node_list g) g)
    else dump_nw_graph g = Inl Out_of_bounds"
proof -
  have l: "node_list g = rev [0..<n_nodes g]" using config_ok_wf [OF assms] by (simp add: graph_wf_def)
  then have "distinct (node_list g)" "set (node_list g) = {..<n_nodes g}" by auto
  then show ?thesis
    using dump_nw_nodes_result [OF assms, of "node_list g"]
    by (auto simp: dump_nw_graph_def split: if_splits)
qed

lemma config_ok_marks: "config_ok g \<Longrightarrow> config_ok (fold mark_loopback ns g)"
  by (induction ns arbitrary: g) (simp_all add: config_ok_mark)

text \<open>A marked text is no address.\<close>

lemma pton_run_slash: "pton_run (s @ CHR ''/'' # t) acc cur saw = None"
proof (induction s arbitrary: acc cur saw)
  case Nil
  have "\<not> is_digit (CHR ''/'')" by (simp add: is_digit_def)
  then show ?case by simp
next
  case (Cons c s)
  then show ?case by simp
qed

lemma inet_pton_marked [simp]: "inet_pton (s @ ''/32'') = None"
  by (simp add: inet_pton_def pton_run_slash)

lemma marked_not_address [simp]: "s @ ''/32'' \<noteq> inet_ntop a"
  using inet_pton_marked [of s] inet_pton_ntop [of a] by (metis option.distinct(1))

text \<open>An address text has seven to fifteen characters.\<close>

lemma length_inet_ntop_ge: "7 \<le> length (inet_ntop a)"
proof -
  have d: "1 \<le> length (dec_octet n)" for n by (simp add: dec_octet_def)
  obtain p q r s where l: "le32 a = [p, q, r, s]"
    by (rule list4_cases [of "le32 a"]) simp_all
  show ?thesis
    using d [of "unat p"] d [of "unat q"] d [of "unat r"] d [of "unat s"] by (simp add: inet_ntop_def l)
qed

end
