(* ===== verification/Saved.thy ===== *)
theory Saved
  imports Dump
begin

text \<open>
  The descriptions of the sample topologies that the command line shows
  (\<^verbatim>\<open>saved_topologies\<close> of \<^verbatim>\<open>src/nwcli.c\<close>), line by line.
\<close>

definition lines :: "string list \<Rightarrow> string" where
  "lines ls = sep_by newline ls"

definition first_topology_text :: string where
  "first_topology_text = lines
    [''0 - Simple Host Topology '',
     [],
     ''                               +----------+ '',
     ''                            0/4 |          |0/0 '',
     ''         +----------------------+   R0_re  +---------------------+ '',
     ''         |           40.1.1.1/24| 122.1.1.0|20.1.1.1/24          | '',
     ''         |                      +----------+                     | '',
     ''         |                                                       | '',
     ''         |                                                       | '',
     ''         |                                                       | '',
     ''         |40.1.1.2/24                                            |20.1.1.2/24 '',
     ''         |0/5                                                    |0/1 '',
     ''     +---+---+                                              +----+-----+ '',
     ''     |       |0/3                                        0/2|          | '',
     ''     | R2_re +----------------------------------------------+    R1_re | '',
     ''     |       |30.1.1.2/24                        30.1.1.1/24|          | '',
     ''     +-------+                                              +----------+  '',
     [],
     '' '']"

definition linear_topology_text :: string where
  "linear_topology_text = lines
    [''1 - Linear '',
     [],
     ''    +-----------+                        +-----------+                         +-----------+                         +-----------+'',
     ''     |           |0/1                  0/2|           |0/3                   0/4|           |0/3                   0/2|           |'',
     ''     +     R0    +------------------------+     R1    +-------------------------+     R2    +-------------------------+     R3    +'',
     ''     |           |10.1.1.1/24  10.1.1.2/24|           |20.1.1.2/24   20.1.1.1/24|           |30.1.1.1/24   30.1.1.2/24|           |'',
     ''     +-----------+                        +-----------+                         +-----------+                         +-----------+'',
     [],
     '' '']"

definition l2_switch_topology_text :: string where
  "l2_switch_topology_text = lines
    [''2 - Simple Layer 2 Topology '',
     [],
     ''                                        +--------+ '',
     ''                                         |   H4   | '',
     ''                                         +--------+ '',
     ''                                             | eth0/0 '',
     ''                                             | 10.1.1.3/24 '',
     ''                                             | '',
     ''                                             | eth0/4 '',
     ''                                       +-----------+                                    '',
     ''     +--------+ 10.1.1.1/24            |           |              10.1.1.3/24 +--------+ '',
     ''     |   H1   |------------------------+    SW01   +--------------------------|   H3   | '',
     ''     +--------+ eth0/0           eth0/1|           | eth0/3            eth0/0 +--------+ '',
     ''                                       +-----------+                                    '',
     ''                                             | eth0/2 '',
     ''                                             | '',
     ''                                             |10.1.1.2/24 '',
     ''                                             | eth0/0 '',
     ''                                        +--------+ '',
     ''                                        |   H2   | '',
     ''                                        +--------+ '',
     [],
     '' '']"

definition dual_switch_topology_text :: string where
  "dual_switch_topology_text = lines
    [''3 - Dual Switch Technology '',
     [],
     ''                                        +--------+                                              +--------+'',
     ''                                         |   H3   |                                              |   H4   |'',
     ''                                         +--------+                                              +--------+'',
     ''                                             | eth0/0                                                | eth0/0'',
     ''                                             | 10.1.1.3/24                                           | 10.1.1.4/24'',
     ''                                             |                                                       |'',
     ''                                             | eth0/3  , VID10                                       | eth0/4  , VID 10'',
     ''                                       +-----------+                                           +----------+'',
     ''     +--------+ 10.1.1.1/24       VID10|           | TR VID 10 , 11             TR VID 10 , 11 |          |              10.1.1.6/24 +--------+'',
     ''     |   H1   |------------------------+    SW01   +===========================================+   SW02   +--------------------------|   H6   |'',
     ''     +--------+ eth0/0           eth0/1|           | ge0/1                                ge0/1|          | eth0/6 , VID 11   eth0/0 +--------+'',
     ''                                       +-----------+                                           +----------+'',
     ''                                             | eth0/2 , VID11                                        | eth0/5  , VID11'',
     ''                                             |                                                       |'',
     ''                                             |10.1.1.2/24                                            |10.1.1.5/24'',
     ''                                             | eth0/0                                                | eth0/0'',
     ''                                        +--------+                                              +--------+'',
     ''                                        |   H2   |                                              |   H5   |'',
     ''                                        +--------+                                              +--------+'',
     [],
     []]"

definition l3_topology_text :: string where
  "l3_topology_text = lines
    [''4 - Simple Layer 3 Topology '',
     [],
     ''                                          .-'' @ [CHR 0x27, CHR 0x27] @ ''-.                                         '',
     ''                            40.1.1.1/24  /       '' @ [CHR 0x5C] @ ''  20.1.1.1/24                           '',
     ''                 +----------------------|   R1    |-----------------------+               '',
     ''                 |                 ge0/2'' @ [CHR 0x5C] @ ''       / ge0/3                  |               '',
     ''                 |                         `-..-'' @ [CHR 0x27] @ ''                         |               '',
     ''    40.1.1.2/24  |ge0/1                 Lo : 1.1.1.1                ge0/1 |  20.1.1.3/24  '',
     ''              .-'' @ [CHR 0x27, CHR 0x27] @ ''-.                                                    .-'' @ [CHR 0x27, CHR 0x27] @ ''-.            '',
     ''             /      '' @ [CHR 0x5C] @ '' ge0/3                                     ge0/2  /      '' @ [CHR 0x5C] @ ''           '',
     ''            |   R2   |------------------------------------------------|   R3   |          '',
     ''            '' @ [CHR 0x5C] @ ''        / 30.1.1..2/24                       30.1.1.3/24 '' @ [CHR 0x5C] @ ''      /           '',
     ''              `-..-'' @ [CHR 0x27] @ ''                                                    `-..-'' @ [CHR 0x27] @ ''            '',
     ''         Lo : 2.2.2.2                                                 Lo : 3.3.3.3        '',
     [],
     []]"

definition saved_topologies :: "string list" where
  "saved_topologies = [first_topology_text, linear_topology_text, l2_switch_topology_text, dual_switch_topology_text, l3_topology_text]"

lemma length_saved_topologies: "length saved_topologies = 5"
  by (simp add: saved_topologies_def)

end
