(* ===== verification/Terminal.thy ===== *)
theory Terminal
  imports Prelude
begin

text \<open>
  The terminal settings (\<^verbatim>\<open>src/utils.c\<close>): raw mode is entered when the program starts and left when
  it ends. \<open>tty\<close> is the setting of the terminal at standard input, if there is one;
  \<open>orig\<close> is the static variable with the setting to go back to.
\<close>

text \<open>As in the theories of the graph, quantifiers over pairs stay as they are.\<close>

declare split_paired_All [simp del] split_paired_Ex [simp del]

record termios =
  c_iflag :: u32
  c_oflag :: u32
  c_cflag :: u32
  c_lflag :: u32
  c_line :: u8
  c_cc :: bytes
  c_ispeed :: u32
  c_ospeed :: u32

record term_state =
  tty :: "termios option"
  orig :: "termios option"

definition NCCS :: nat where "NCCS = 32"
definition ICANON :: u32 where "ICANON = 2"
definition ECHO :: u32 where "ECHO = 8"

definition zero_termios :: termios where
  "zero_termios = \<lparr>c_iflag = 0, c_oflag = 0, c_cflag = 0, c_lflag = 0, c_line = 0,
     c_cc = zeros NCCS, c_ispeed = 0, c_ospeed = 0\<rparr>"

text \<open>Without a terminal \<^verbatim>\<open>tcgetattr\<close> and \<^verbatim>\<open>tcsetattr\<close> fail and change nothing.\<close>

definition tcgetattr :: "term_state \<Rightarrow> termios \<Rightarrow> termios" where
  "tcgetattr s old = (case tty s of Some t \<Rightarrow> t | None \<Rightarrow> old)"

definition tcsetattr :: "termios \<Rightarrow> term_state \<Rightarrow> term_state" where
  "tcsetattr t s = s\<lparr>tty := map_option (\<lambda>_. t) (tty s)\<rparr>"

definition set_raw_mode :: "term_state \<Rightarrow> term_state" where
  "set_raw_mode s =
     (let buf = (case orig s of None \<Rightarrow> zero_termios | Some t \<Rightarrow> t);
          saved = tcgetattr s buf;
          raw = saved\<lparr>c_lflag := c_lflag saved AND NOT (ICANON OR ECHO)\<rparr>
      in tcsetattr raw (s\<lparr>orig := Some saved\<rparr>))"

definition restore_mode :: "term_state \<Rightarrow> term_state" where
  "restore_mode s = (case orig s of None \<Rightarrow> s | Some t \<Rightarrow> tcsetattr t s)"

text \<open>\<^verbatim>\<open>print_termios\<close> reads the control character behind the last.\<close>

definition print_termios :: "termios option \<Rightarrow> u8 res" where
  "print_termios term =
     (case term of None \<Rightarrow> Inr 0
      | Some t \<Rightarrow> if NCCS < length (c_cc t) then Inr (c_cc t ! NCCS) else Inl Out_of_bounds)"

lemma restore_idem [simp]: "restore_mode (restore_mode s) = restore_mode s"
  by (auto simp: restore_mode_def tcsetattr_def option.map_comp comp_def split: option.split)

lemma restore_raw: "tty (restore_mode (set_raw_mode s)) = tty s"
  by (auto simp: restore_mode_def set_raw_mode_def tcsetattr_def tcgetattr_def Let_def option.map_comp
      comp_def split: option.split)

lemma raw_mode_flags:
  assumes "tty s = Some t"
  shows "\<exists>r. tty (set_raw_mode s) = Some r \<and> c_lflag r AND ECHO = 0 \<and> c_lflag r AND ICANON = 0 \<and>
    r\<lparr>c_lflag := c_lflag t\<rparr> = t"
proof -
  have a: "(x AND NOT (ICANON OR ECHO)) AND ECHO = 0" "(x AND NOT (ICANON OR ECHO)) AND ICANON = 0" for x
    by (simp_all add: and.assoc ICANON_def ECHO_def)
  show ?thesis
    using assms a by (simp add: set_raw_mode_def tcsetattr_def tcgetattr_def Let_def)
qed

end
