(* ===== verification/Traffic.thy ===== *)
theory Traffic
  imports Stack
begin

text \<open>
  What traffic can change. A relation between worlds that holds across the few primitive
  effects of the stack (a datagram is sent, something is reported, a MAC or an ARP table
  learns) holds across every call of the stack; this is proved once, in a locale, and used
  twice: for the configuration, which stays as it is, and for the datagrams in flight, of
  which no call takes any away.
\<close>

section \<open>Relations that the stack respects\<close>

text \<open>
  \<open>calm E\<close> says that what happens while a thread sleeps respects the relation as well.
\<close>

locale traffic_relation =
  fixes evolves :: "world \<Rightarrow> world \<Rightarrow> bool"
  assumes ev_refl: "evolves w w"
    and ev_trans: "evolves w w1 \<Longrightarrow> evolves w1 w2 \<Longrightarrow> evolves w w2"
    and ev_sendto: "evolves w (sendto w data port)"
    and ev_report: "evolves w (report_msg w r)"
    and ev_learned: "length smac = 6 \<Longrightarrow> evolves w (learned w n smac nm)"
    and ev_arp_update: "arp_table_update_from_arp_reply (node_arp_table (nodes (topo w) n)) arp oif = Inr t \<Longrightarrow>
      evolves w (w\<lparr>topo := upd_node (topo w) n (\<lambda>nd. nd\<lparr>node_arp_table := t\<rparr>)\<rparr>)"
begin

declare ev_refl [simp]

definition calm :: "env \<Rightarrow> bool" where
  "calm E \<longleftrightarrow> (\<forall>w. evolves w (asleep E w))"

lemma ev_send_pkt_out: "send_pkt_out w b p k q = Inr w' \<Longrightarrow> evolves w w'"
  by (auto simp: send_pkt_out_def rbind_eq_Inr Let_def split: option.splits intro: ev_sendto)

lemma ev_learning:
  assumes "l2_switch_perform_mac_learning w n smac nm = Inr w'" and "length smac = 6"
  shows "evolves w w'"
proof -
  have "w' = learned w n smac nm"
    using assms(1) by (auto simp: l2_switch_perform_mac_learning_def rbind_eq_Inr learned_def dest!: strcpy_to_InrD)
  then show ?thesis using ev_learned assms(2) by blast
qed

lemma ev_l2_send:
  assumes "l2_switch_send_pkt_out E w b p k q = Inr (r, w', b')"
  shows "evolves w w'"
  using assms
  by (auto simp: l2_switch_send_pkt_out_def rbind_eq_Inr Let_def
      split: if_splits intf_l2_mode.splits intro: ev_send_pkt_out)

lemma ev_flood_loop: "l2_flood_loop E iif p k ss w b = Inr (w', b') \<Longrightarrow> evolves w w'"
proof (induction E iif p k ss w b arbitrary: w' b' rule: l2_flood_loop.induct)
  case (3 E iif p k q ss w b)
  show ?case
  proof (cases "q = iif \<or> l2_mode (iface (topo w) q) = L2_MODE_UNKNOWN")
    case True
    then show ?thesis using 3 by simp
  next
    case False
    then obtain r w1 b1 where s: "l2_switch_send_pkt_out E w b p k (Some q) = Inr (r, w1, b1)"
      and l: "l2_flood_loop E iif p k ss w1 b1 = Inr (w', b')"
      using "3.prems" by (auto simp: rbind_eq_Inr)
    have "evolves w1 w'" using 3(2) [OF False s refl] l by blast
    then show ?thesis using ev_l2_send [OF s] ev_trans by blast
  qed
qed auto

lemma ev_forward: "l2_switch_forward_frame E w n iif b p k = Inr w' \<Longrightarrow> evolves w w'"
  by (auto simp: l2_switch_forward_frame_def l2_switch_flood_pkt_out_def rbind_eq_Inr
      split: if_splits option.splits intro: ev_flood_loop ev_l2_send)

lemma ev_switch_recv: "l2_switch_recv_frame E w iif b p k = Inr w' \<Longrightarrow> evolves w w'"
  by (auto simp: l2_switch_recv_frame_def rbind_eq_Inr eth_src_def dest!: rd_InrD
      intro: ev_trans ev_learning ev_forward)

lemma ev_arp_request: "send_arp_broadcast_request w n q ip = Inr w' \<Longrightarrow> evolves w w'"
  by (auto simp: send_arp_broadcast_request_def arp_request_on_def rbind_eq_Inr Let_def
      split: option.splits if_splits intro: ev_send_pkt_out)

lemma ev_arp_reply_msg: "send_arp_reply_msg w b p q = Inr w' \<Longrightarrow> evolves w w'"
  by (auto simp: send_arp_reply_msg_def rbind_eq_Inr Let_def intro: ev_send_pkt_out)

lemma ev_process_request: "process_arp_broadcast_request w n q b p = Inr w' \<Longrightarrow> evolves w w'"
  by (auto simp: process_arp_broadcast_request_def rbind_eq_Inr Let_def
      split: if_splits intro: ev_arp_reply_msg)

lemma ev_process_reply: "process_arp_reply_message w n q b p = Inr w' \<Longrightarrow> evolves w w'"
  by (auto simp: process_arp_reply_message_def rbind_eq_Inr intro: ev_arp_update)

definition ev_promote :: "promote_fun \<Rightarrow> bool" where
  "ev_promote f \<longleftrightarrow> (\<forall>w n q b p k t w'. f w n q b p k t = Inr w' \<longrightarrow> evolves w w')"

definition ev_top :: "top_fun \<Rightarrow> bool" where
  "ev_top f \<longleftrightarrow> (\<forall>w n x t d w'. f w n x t d = Inr w' \<longrightarrow> evolves w w')"

lemma ev_promote2:
  assumes "ev_promote f" and "promote_pkt_to_layer2 f w n q b p k = Inr w'"
  shows "evolves w w'"
  using assms
  by (auto simp: promote_pkt_to_layer2_def ev_promote_def rbind_eq_Inr
      split: if_splits intro: ev_process_request ev_process_reply)

lemma ev_resolved: "l2_send_resolved w q e b p k = Inr w' \<Longrightarrow> evolves w w'"
  by (auto simp: l2_send_resolved_def rbind_eq_Inr intro: ev_send_pkt_out)

lemma ev_l2_forward:
  assumes "ev_promote f" and E: "calm E"
    and "l2_forward_ip_packet E f w n nh nm b p k = Inr w'"
  shows "evolves w w'"
proof (cases "nm = None \<and> is_layer3_local_delivery (topo w) n nh")
  case True
  then show ?thesis
    using assms(1,3) by (auto simp: l2_forward_ip_packet_def ev_promote_def rbind_eq_Inr Let_def)
next
  case False
  then obtain oif where o: "(case arp_table_lookup (node_arp_table (nodes (topo w) n)) (inet_ntop nh) of
          Some e \<Rightarrow> l2_send_resolved w oif e b p k
        | None \<Rightarrow>
            rbind (send_arp_broadcast_request w n oif (inet_ntop nh)) (\<lambda>w1.
            let w2 = asleep E w1 in
            case arp_table_lookup (node_arp_table (nodes (topo w2) n)) (inet_ntop nh) of
              Some e \<Rightarrow> l2_send_resolved w2 oif e b p k
            | None \<Rightarrow> Inr w2)) = Inr w'"
    using assms(3) unfolding l2_forward_ip_packet_def Let_def if_not_P [OF False]
    by (elim rbind_InrE) blast
  show ?thesis
  proof (cases "arp_table_lookup (node_arp_table (nodes (topo w) n)) (inet_ntop nh)")
    case (Some e)
    then show ?thesis using o ev_resolved by auto
  next
    case None
    then obtain w1 where w1: "send_arp_broadcast_request w n oif (inet_ntop nh) = Inr w1"
      and r: "(case arp_table_lookup (node_arp_table (nodes (topo (asleep E w1)) n)) (inet_ntop nh) of
              Some e \<Rightarrow> l2_send_resolved (asleep E w1) oif e b p k
            | None \<Rightarrow> Inr (asleep E w1)) = Inr w'"
      using o by (auto simp: rbind_eq_Inr Let_def)
    have "evolves w (asleep E w1)"
      using ev_arp_request [OF w1] E ev_trans by (auto simp: calm_def)
    moreover have "evolves (asleep E w1) w'"
      using r by (auto split: option.splits intro: ev_resolved)
    ultimately show ?thesis by (rule ev_trans)
  qed
qed

lemma ev_demote:
  assumes "ev_promote f" and "calm E"
    and "demote_pkt_to_layer2 E f w n nh q b p k = Inr w'"
  shows "evolves w w'"
  using assms(3) ev_l2_forward [OF assms(1,2)]
  by (auto simp: demote_pkt_to_layer2_def rbind_eq_Inr)

lemma ev_from_top_body:
  assumes "ev_top g" "ev_promote f" "calm E" and "from_top_body E g f w n x t d = Inr w'"
  shows "evolves w w'"
  using assms(4) ev_demote [OF assms(2,3)] assms(1)
  by (auto simp: from_top_body_def rbind_eq_Inr Let_def ev_top_def send_icmp_dest_unreacheable_def
      split: option.splits if_splits)

lemma ev_icmp: "ev_top g \<Longrightarrow> process_icmp_pkt g w n b p = Inr w' \<Longrightarrow> evolves w w'"
  by (auto simp: process_icmp_pkt_def rbind_eq_Inr Let_def ev_top_def send_icmp_echo_reply_def
      split: if_splits intro: ev_report)

lemma ev_ip_recv:
  assumes "ev_top g" "ev_promote f" "calm E"
    and r: "layer3_ip_pkt_recv_from_layer2 E g f w n b p k = Inr w'"
  shows "evolves w w'"
proof -
  have top: "g w n x t d = Inr w' \<Longrightarrow> evolves w w'" for x t d
    using assms(1) by (simp add: ev_top_def)
  obtain hdr rt where "rd_ip b p = Inr hdr"
    "l3rib_lookup_lpm (node_route_table (nodes (topo w) n)) (ip_dest hdr) = Inr rt"
    using r unfolding layer3_ip_pkt_recv_from_layer2_def by (elim rbind_InrE) blast
  then show ?thesis
    using r ev_demote [OF assms(2,3)] ev_icmp [OF assms(1)] top
    by (cases rt)
      (auto simp: layer3_ip_pkt_recv_from_layer2_def Let_def rbind_eq_Inr
        send_icmp_dest_unreacheable_def send_icmp_time_exceeded_def split: if_splits)
qed

lemma ev_promote_body:
  assumes "ev_top g" "ev_promote f" "calm E"
  shows "ev_promote (promote_body E g f)"
  using ev_ip_recv [OF assms] by (simp add: ev_promote_def promote_body_def)

lemma ev_layer3:
  assumes "calm E"
  shows "ev_top (layer3_pkt_receive_from_top fuel E) \<and> ev_promote (promote_pkt_to_layer3 fuel E)"
proof (induction fuel)
  case 0
  then show ?case by (simp add: ev_top_def ev_promote_def)
next
  case (Suc fuel)
  let ?g = "layer3_pkt_receive_from_top fuel E" and ?f = "promote_pkt_to_layer3 fuel E"
  have "ev_top (layer3_pkt_receive_from_top (Suc fuel) E)"
    using ev_from_top_body [of ?g ?f] Suc assms by (simp add: ev_top_def)
  moreover have "ev_promote (promote_pkt_to_layer3 (Suc fuel) E)"
    using ev_promote_body [of ?g ?f] Suc assms by (simp add: ev_promote_def)
  ultimately show ?case ..
qed

lemma ev_frame_recv:
  assumes "calm E" and "layer2_frame_recv fuel E w n q b p k = Inr w'"
  shows "evolves w w'"
  using assms(2) ev_promote2 [of "promote_pkt_to_layer3 fuel E" w n q b p k w']
    ev_layer3 [OF assms(1), of fuel]
  by (auto simp: layer2_frame_recv_def rbind_eq_Inr Let_def split: if_splits intro: ev_switch_recv)

lemma ev_node_receive:
  assumes "calm E" and "node_receive fuel E w n data = Inr w'"
  shows "evolves w w'"
  using assms(2) ev_frame_recv [OF assms(1)]
  by (auto simp: node_receive_def pkt_receive_def split: prod.splits option.splits if_splits)

lemma ev_ping_loop: "calm E \<Longrightarrow> ping_loop fuel E n d count i w = Inr w' \<Longrightarrow> evolves w w'"
proof (induction fuel E n d count i w arbitrary: w' rule: ping_loop.induct)
  case (1 fuel E n d count i w)
  show ?case
  proof (cases "i < count")
    case True
    then obtain w1 where w1: "send_icmp_echo_message (layer3_pkt_receive_from_top fuel E) w n
        (ucast i) (ucast i) d = Inr w1"
      and r: "ping_loop fuel E n d count (i + 1) (asleep E w1) = Inr w'"
      using "1.prems"(2) by (subst (asm) ping_loop.simps) (auto simp: rbind_eq_Inr)
    have "evolves w w1"
      using w1 ev_layer3 [OF "1.prems"(1), of fuel] by (auto simp: send_icmp_echo_message_def ev_top_def)
    moreover have "evolves w1 (asleep E w1)" using "1.prems"(1) by (simp add: calm_def)
    moreover have "evolves (asleep E w1) w'" by (rule "1.IH" [OF True w1 "1.prems"(1) r])
    ultimately show ?thesis using ev_trans by blast
  next
    case False
    then show ?thesis using "1.prems"(2) by (subst (asm) ping_loop.simps) simp
  qed
qed

end


section \<open>The configuration stays\<close>

text \<open>
  Two graphs agree on everything that is configured; only ARP and MAC tables may differ.
\<close>

definition erase_tables :: "node \<Rightarrow> node" where
  "erase_tables nd = nd\<lparr>node_arp_table := [], node_mac_table := []\<rparr>"

definition same_config :: "graph \<Rightarrow> graph \<Rightarrow> bool" where
  "same_config g g' \<longleftrightarrow> n_nodes g' = n_nodes g \<and> n_links g' = n_links g \<and> links g' = links g \<and>
     node_list g' = node_list g \<and> udp_counter g' = udp_counter g \<and>
     topolgy_name g' = topolgy_name g \<and>
     (\<forall>n. erase_tables (nodes g' n) = erase_tables (nodes g n))"

definition keeps :: "world \<Rightarrow> world \<Rightarrow> bool" where
  "keeps w w' \<longleftrightarrow> same_config (topo w) (topo w') \<and> (config_ok (topo w) \<longrightarrow> config_ok (topo w'))"

definition env_ok :: "env \<Rightarrow> bool" where
  "env_ok E \<longleftrightarrow> (\<forall>w. keeps w (asleep E w))"

lemma same_config_refl [simp]: "same_config g g"
  by (simp add: same_config_def)

lemma same_config_trans: "same_config g g' \<Longrightarrow> same_config g' g'' \<Longrightarrow> same_config g g''"
  by (simp add: same_config_def)

lemma keeps_refl [simp]: "keeps w w"
  by (simp add: keeps_def)

lemma keeps_trans: "keeps w w' \<Longrightarrow> keeps w' w'' \<Longrightarrow> keeps w w''"
  unfolding keeps_def using same_config_trans by blast

lemma keeps_topo: "topo w' = topo w \<Longrightarrow> keeps w w'"
  by (simp add: keeps_def)

lemma keeps_sent_topo: "keeps (w\<lparr>sent := xs\<rparr>) w' = keeps w w'"
  by (simp add: keeps_def)


lemma keeps_upd_node:
  assumes "\<And>nd. erase_tables (f nd) = erase_tables nd"
    and "node_cfg_ok (nodes (topo w) n) \<Longrightarrow> node_cfg_ok (f (nodes (topo w) n))"
  shows "keeps w (w\<lparr>topo := upd_node (topo w) n f\<rparr>)"
proof -
  have e: "node_name (f nd) = node_name nd" "intf (f nd) = intf nd" for nd
    using assms(1) [of nd] by (auto simp: erase_tables_def dest: arg_cong [where f = node_name] arg_cong [where f = intf])
  have "config_ok (upd_node (topo w) n f)" if "config_ok (topo w)"
    by (rule config_ok_upd_node [OF that]) (use e assms(2) that in auto)
  then show ?thesis
    using assms(1) by (simp add: keeps_def same_config_def)
qed

lemma keeps_arp_update:
  assumes "arp_table_update_from_arp_reply (node_arp_table (nodes (topo w) n)) arp oif = Inr t"
  shows "keeps w (w\<lparr>topo := upd_node (topo w) n (\<lambda>nd. nd\<lparr>node_arp_table := t\<rparr>)\<rparr>)"
proof -
  have "arp_table_ok (node_arp_table (nodes (topo w) n)) \<Longrightarrow> arp_table_ok t"
    using assms by (auto simp: arp_table_update_from_arp_reply_def rbind_eq_Inr arp_table_ok_add split: if_splits)
  then show ?thesis by (intro keeps_upd_node) (auto simp: erase_tables_def node_cfg_ok_def)
qed

lemma keeps_learned: "length smac = 6 \<Longrightarrow> keeps w (learned w n smac nm)"
  using config_ok_learned [of w smac n nm]
  by (simp add: keeps_def same_config_def erase_tables_def learned_def)

interpretation cfg: traffic_relation keeps
  by unfold_locales
    (auto simp: sendto_def report_msg_def intro: keeps_trans keeps_topo keeps_learned keeps_arp_update)

lemma calm_env_ok [simp]: "cfg.calm E = env_ok E"
  by (simp add: cfg.calm_def env_ok_def)

lemmas keeps_commands = cfg.ev_ping_loop [unfolded calm_env_ok] cfg.ev_arp_request

lemma keeps_net_step: "net_step fuel E w w' \<Longrightarrow> env_ok E \<Longrightarrow> keeps w w'"
proof (induction rule: net_step.induct)
  case (deliver n w data rest w')
  then show ?case using cfg.ev_node_receive [of E fuel "w\<lparr>sent := rest\<rparr>" n data w'] by (simp add: keeps_sent_topo)
qed (auto simp: keeps_def send_ping_request_def dest: keeps_commands)

lemma keeps_net_steps: "(net_step fuel E)\<^sup>*\<^sup>* w w' \<Longrightarrow> env_ok E \<Longrightarrow> keeps w w'"
  by (induction rule: rtranclp_induct) (auto intro: keeps_trans keeps_net_step)


section \<open>Nothing in flight is taken away\<close>

text \<open>The calls of the stack only append to the datagrams in flight and to the reports.\<close>

definition appends :: "world \<Rightarrow> world \<Rightarrow> bool" where
  "appends w w' \<longleftrightarrow> (\<exists>xs. sent w' = sent w @ xs) \<and> (\<exists>rs. reports w' = reports w @ rs)"

lemma appends_trans: "appends w w1 \<Longrightarrow> appends w1 w2 \<Longrightarrow> appends w w2"
  by (auto simp: appends_def)

interpretation flight: traffic_relation appends
  by unfold_locales (auto simp: appends_def sendto_def report_msg_def learned_def)

section \<open>Properties\<close>

lemma env_ok_example: "env_ok example_env"
  by (simp add: env_ok_def example_env_def)

text \<open>C9: whatever frames travel, get lost, are answered or forwarded, and whatever the ping and ARP
  commands send: the nodes, links, addresses, VLANs and routes of a network stay as they
  were configured, only ARP and MAC tables change, and the invariants of these tables
  survive.\<close>

theorem traffic_keeps_configuration:
  assumes "env_ok E" and "config_ok (topo w)" and "(net_step fuel E)\<^sup>*\<^sup>* w w'"
  shows "config_ok (topo w') \<and> same_config (topo w) (topo w')"
  using keeps_net_steps [OF assms(3,1)] assms(2) by (simp add: keeps_def)

lemma traffic_keeps_configuration_witness:
  "config_ok (topo (example_world\<lparr>sent := []\<rparr>)) \<and>
   same_config (topo (example_world\<lparr>sent := [\<lparr>dport = 1, dg_data = []\<rparr>]\<rparr>)) (topo (example_world\<lparr>sent := []\<rparr>))"
proof -
  let ?w = "example_world\<lparr>sent := [\<lparr>dport = 1, dg_data = []\<rparr>]\<rparr>"
  have "net_step 0 example_env ?w (?w\<lparr>sent := [] @ []\<rparr>)"
    by (rule net_step.lose [of _ "[]" "\<lparr>dport = 1, dg_data = []\<rparr>"]) simp
  then have s: "(net_step 0 example_env)\<^sup>*\<^sup>* ?w (example_world\<lparr>sent := []\<rparr>)" by simp
  show ?thesis
    by (rule traffic_keeps_configuration [OF env_ok_example _ s])
      (simp add: example_world_def configured_ok [OF configured_example])
qed

end
