(* ===== verification/Cli.thy ===== *)
theory Cli
  imports Depth Topologies Saved Terminal Traffic
begin

text \<open>
  The command line (\<^verbatim>\<open>src/nwcli.c\<close>): the handlers over the list of parsed parameters, the
  validators, and the tree of commands that \<^verbatim>\<open>nw_init_cli\<close> registers. The parser is libcli, a
  library outside the repository: it calls a handler with the names and the texts of the
  leaves on the path to it, each text accepted by the validator of its leaf.
\<close>

section \<open>Numbers\<close>

text \<open>\<^verbatim>\<open>atoi\<close> of glibc: \<^verbatim>\<open>strtol\<close> with its saturation, converted to \<^verbatim>\<open>int\<close>.\<close>

definition is_space :: "char \<Rightarrow> bool" where
  "is_space ch \<longleftrightarrow> (of_char ch :: nat) = 32 \<or> 9 \<le> (of_char ch :: nat) \<and> (of_char ch :: nat) \<le> 13"

fun digits_value :: "string \<Rightarrow> int \<Rightarrow> int" where
  "digits_value [] acc = acc"
| "digits_value (ch # cs) acc =
     (if is_digit ch then digits_value cs (acc * 10 + int (digit_val ch)) else acc)"

definition strtol :: "string \<Rightarrow> int" where
  "strtol s =
     (let t = dropWhile is_space s in
      case t of
        [] \<Rightarrow> 0
      | ch # cs \<Rightarrow>
          if ch = CHR ''-'' then max (- (2 ^ 63)) (- digits_value cs 0)
          else if ch = CHR ''+'' then min (2 ^ 63 - 1) (digits_value cs 0)
          else min (2 ^ 63 - 1) (digits_value t 0))"

definition atoi :: "string \<Rightarrow> int" where
  "atoi s = sint (word_of_int (strtol s) :: 32 word)"


section \<open>Parameters and state\<close>

type_synonym tlv = "string \<times> string"

text \<open>The loop over the parameters keeps the last value of a leaf.\<close>

definition leaf_value :: "string \<Rightarrow> tlv list \<Rightarrow> string option" where
  "leaf_value leaf tlvs = fold (\<lambda>(leaf_id, value) v. if leaf_id = leaf then Some value else v) tlvs None"

text \<open>
  The global \<^verbatim>\<open>topology\<close>, with what travels in it, the counter of ports, the terminal, and
  whether the process still runs. What uninitialised variables hold and what sockets answer
  is part of the environment.
\<close>

record cli =
  cl_topology :: "world option"
  cl_port :: u32
  cl_term :: term_state
  cl_running :: bool

record cli_env =
  ce_env :: env
  ce_sock :: "nid \<Rightarrow> int option"
  ce_fuel :: nat
  ce_mask :: u8
  ce_vlan :: u16
  ce_id :: int
  ce_count :: u8

datatype cli_out =
    No_topology
  | Node_not_found "string option"
  | No_such_interface "string option" "string option"
  | Not_a_valid_interface "string option" "string option"
  | Not_in_l3_mode "string option" "string option"
  | Invalid_topology_id
  | Topology_loaded
  | Topology_created
  | Debug_status_set nid string
  | Vlan_text string
  | Vlan_number u16
  | Exit
  | Printed string

type_synonym answer = "(int \<times> cli_out list \<times> cli) res"

definition with_topology :: "cli \<Rightarrow> (world \<Rightarrow> answer) \<Rightarrow> answer" where
  "with_topology c k =
     (case cl_topology c of None \<Rightarrow> Inr (-1, [No_topology], c) | Some w \<Rightarrow> k w)"

text \<open>Searching with a null name follows it as soon as there is something to compare it with.\<close>

definition find_node :: "world \<Rightarrow> string option \<Rightarrow> nid option res" where
  "find_node w name =
     (case name of
        Some nm \<Rightarrow> Inr (get_node_by_node_name (topo w) nm)
      | None \<Rightarrow> if node_list (topo w) = [] then Inr None else Inl Null_deref)"

definition find_intf :: "world \<Rightarrow> nid \<Rightarrow> string option \<Rightarrow> ifptr option res" where
  "find_intf w n name =
     (case name of
        Some nm \<Rightarrow> Inr (get_node_if_by_name (topo w) n nm)
      | None \<Rightarrow> if hd (intf (nodes (topo w) n)) = None then Inr None else Inl Null_deref)"

definition with_node :: "cli \<Rightarrow> world \<Rightarrow> string option \<Rightarrow> (nid \<Rightarrow> answer) \<Rightarrow> answer" where
  "with_node c w name k =
     rbind (find_node w name) (\<lambda>node.
     case node of None \<Rightarrow> Inr (-1, [Node_not_found name], c) | Some n \<Rightarrow> k n)"

definition with_intf :: "cli \<Rightarrow> world \<Rightarrow> string option \<Rightarrow> nid \<Rightarrow> string option \<Rightarrow> (ifptr \<Rightarrow> answer) \<Rightarrow> answer" where
  "with_intf c w node_nm n name k =
     rbind (find_intf w n name) (\<lambda>intf.
     case intf of None \<Rightarrow> Inr (-1, [No_such_interface node_nm name], c) | Some q \<Rightarrow> k q)"

definition set_graph :: "cli \<Rightarrow> world \<Rightarrow> graph \<Rightarrow> cli" where
  "set_graph c w g = c\<lparr>cl_topology := Some (w\<lparr>topo := g\<rparr>)\<rparr>"


section \<open>Command codes\<close>

definition CMDCODE_SHOW_NW_TOPOLOGY :: nat where "CMDCODE_SHOW_NW_TOPOLOGY = 0"
definition CMDCODE_SHOW_TOPOLOGIES_SAVED :: nat where "CMDCODE_SHOW_TOPOLOGIES_SAVED = 1"
definition CMDCODE_SHOW_TOPOLOGY_ID :: nat where "CMDCODE_SHOW_TOPOLOGY_ID = 2"
definition CMDCODE_SHOW_NODE :: nat where "CMDCODE_SHOW_NODE = 3"
definition CMDCODE_SHOW_NODE_ARP_TABLE :: nat where "CMDCODE_SHOW_NODE_ARP_TABLE = 4"
definition CMDCODE_SHOW_NODE_MAC_TABLE :: nat where "CMDCODE_SHOW_NODE_MAC_TABLE = 5"
definition CMDCODE_SHOW_NODE_INTERFACES :: nat where "CMDCODE_SHOW_NODE_INTERFACES = 6"
definition CMDCODE_SHOW_NODE_INTERFACE_MODE :: nat where "CMDCODE_SHOW_NODE_INTERFACE_MODE = 7"
definition CMDCODE_SHOW_NODE_INTERFACE_VLANS :: nat where "CMDCODE_SHOW_NODE_INTERFACE_VLANS = 8"
definition CMDCODE_SHOW_NODE_DEBUG_STATUS :: nat where "CMDCODE_SHOW_NODE_DEBUG_STATUS = 9"
definition CMDCODE_SHOW_NODE_ROUTE_TABLE :: nat where "CMDCODE_SHOW_NODE_ROUTE_TABLE = 10"
definition CMDCODE_CONFIG_NODE_DEBUG :: nat where "CMDCODE_CONFIG_NODE_DEBUG = 100"
definition CMDCODE_CONFIG_NODE_MODE :: nat where "CMDCODE_CONFIG_NODE_MODE = 101"
definition CMDCODE_CONFIG_NODE_INTERFACE_VLAN_ADD :: nat where "CMDCODE_CONFIG_NODE_INTERFACE_VLAN_ADD = 102"
definition CMDCODE_CONFIG_NODE_INTERFACE_VLAN_REMOVE :: nat where "CMDCODE_CONFIG_NODE_INTERFACE_VLAN_REMOVE = 103"
definition CMDCODE_CONFIG_NODE_ROUTE_OIF :: nat where "CMDCODE_CONFIG_NODE_ROUTE_OIF = 107"
definition CMDCODE_CONFIG_TOPOLOGY_LOAD :: nat where "CMDCODE_CONFIG_TOPOLOGY_LOAD = 108"
definition CMDCODE_CONFIG_TOPOLOGY_CREATE :: nat where "CMDCODE_CONFIG_TOPOLOGY_CREATE = 109"
definition CMDCODE_RUN_NODE_PING :: nat where "CMDCODE_RUN_NODE_PING = 300"
definition CMDCODE_RUN_NODE_RESOLVE_ARP :: nat where "CMDCODE_RUN_NODE_RESOLVE_ARP = 301"
definition CMDCODE_EXIT :: nat where "CMDCODE_EXIT = 900"

lemmas cmdcodes = CMDCODE_SHOW_NW_TOPOLOGY_def CMDCODE_SHOW_TOPOLOGIES_SAVED_def
  CMDCODE_SHOW_TOPOLOGY_ID_def CMDCODE_SHOW_NODE_def CMDCODE_SHOW_NODE_ARP_TABLE_def
  CMDCODE_SHOW_NODE_MAC_TABLE_def CMDCODE_SHOW_NODE_INTERFACES_def
  CMDCODE_SHOW_NODE_INTERFACE_MODE_def CMDCODE_SHOW_NODE_INTERFACE_VLANS_def
  CMDCODE_SHOW_NODE_DEBUG_STATUS_def CMDCODE_SHOW_NODE_ROUTE_TABLE_def
  CMDCODE_CONFIG_NODE_DEBUG_def CMDCODE_CONFIG_NODE_MODE_def
  CMDCODE_CONFIG_NODE_INTERFACE_VLAN_ADD_def CMDCODE_CONFIG_NODE_INTERFACE_VLAN_REMOVE_def
  CMDCODE_CONFIG_NODE_ROUTE_OIF_def CMDCODE_CONFIG_TOPOLOGY_LOAD_def
  CMDCODE_CONFIG_TOPOLOGY_CREATE_def CMDCODE_RUN_NODE_PING_def CMDCODE_RUN_NODE_RESOLVE_ARP_def
  CMDCODE_EXIT_def


section \<open>Show handlers\<close>

definition NUM_SAVED_TOPOS :: nat where "NUM_SAVED_TOPOS = 5"

definition show_nw_topology_handler :: "nat \<Rightarrow> cli \<Rightarrow> answer" where
  "show_nw_topology_handler code c =
     with_topology c (\<lambda>w.
     if code = CMDCODE_SHOW_NW_TOPOLOGY
     then rbind (dump_nw_graph (topo w)) (\<lambda>(s, g). Inr (0, [Printed s], set_graph c w g))
     else Inr (0, [], c))"

text \<open>With an identifier the loop prints after every parameter.\<close>

fun show_saved_loop :: "tlv list \<Rightarrow> int \<Rightarrow> cli_out list res" where
  "show_saved_loop [] topology_id = Inr []"
| "show_saved_loop ((leaf_id, value) # tlvs) topology_id =
     (let topology_id = (if leaf_id = ''topology-id'' then atoi value else topology_id) in
      if topology_id < 0 \<or> int NUM_SAVED_TOPOS \<le> topology_id then Inl Out_of_bounds
      else rbind (show_saved_loop tlvs topology_id) (\<lambda>outs. Inr (Printed (saved_topologies ! nat topology_id) # outs)))"

definition show_saved_topologies_handler :: "cli_env \<Rightarrow> nat \<Rightarrow> tlv list \<Rightarrow> cli \<Rightarrow> answer" where
  "show_saved_topologies_handler CE code tlvs c =
     (if code = CMDCODE_SHOW_TOPOLOGIES_SAVED then Inr (0, map (\<lambda>i. Printed (saved_topologies ! i)) [0..<NUM_SAVED_TOPOS], c)
      else if code = CMDCODE_SHOW_TOPOLOGY_ID
      then rbind (show_saved_loop tlvs (ce_id CE)) (\<lambda>outs. Inr (0, outs, c))
      else Inr (0, [], c))"

definition show_node_handler :: "tlv list \<Rightarrow> cli \<Rightarrow> answer" where
  "show_node_handler tlvs c =
     with_topology c (\<lambda>w.
     with_node c w (leaf_value ''node-name'' tlvs) (\<lambda>n.
     rbind (dump_nw_node (topo w) n) (\<lambda>(s, g).
     Inr (0, [Printed (newline @ s)], set_graph c w g))))"

text \<open>This loop goes on after an empty slot.\<close>

fun show_slots :: "(ifptr \<Rightarrow> string res) \<Rightarrow> ifptr option list \<Rightarrow> string res" where
  "show_slots dump [] = Inr []"
| "show_slots dump (None # ss) = show_slots dump ss"
| "show_slots dump (Some q # ss) =
     rbind (dump q) (\<lambda>s. rbind (show_slots dump ss) (\<lambda>t. Inr (s @ t)))"

definition show_node_interfaces :: "tlv list \<Rightarrow> cli \<Rightarrow> answer" where
  "show_node_interfaces tlvs c =
     with_topology c (\<lambda>w.
     with_node c w (leaf_value ''node-name'' tlvs) (\<lambda>n.
     rbind (show_slots (dump_nw_interface (topo w)) (take (MAX_INTF_PER_NODE - 1) (intf (nodes (topo w) n)))) (\<lambda>s.
     Inr (0, [Printed s], c))))"

definition show_arp_handler :: "tlv list \<Rightarrow> cli \<Rightarrow> answer" where
  "show_arp_handler tlvs c =
     with_topology c (\<lambda>w.
     with_node c w (leaf_value ''node-name'' tlvs) (\<lambda>n.
     Inr (0, [Printed (arp_table_dump (node_arp_table (nodes (topo w) n)))], c)))"

definition show_mac_handler :: "tlv list \<Rightarrow> cli \<Rightarrow> answer" where
  "show_mac_handler tlvs c =
     with_topology c (\<lambda>w.
     with_node c w (leaf_value ''node-name'' tlvs) (\<lambda>n.
     Inr (0, [Printed (mac_table_dump (node_mac_table (nodes (topo w) n)))], c)))"

definition show_mode_handler :: "tlv list \<Rightarrow> cli \<Rightarrow> answer" where
  "show_mode_handler tlvs c =
     with_topology c (\<lambda>w.
     let node_nm = leaf_value ''node-name'' tlvs; if_nm = leaf_value ''interface-name'' tlvs in
     with_node c w node_nm (\<lambda>n.
     with_intf c w node_nm n if_nm (\<lambda>q.
     let i = iface (topo w) q in
     rbind (deref if_nm) (\<lambda>nm.
     Inr (0, [Printed (''IF '' @ nm @ '' is in '' @
       (if IS_INTF_L3_MODE i then ''Layer 3'' else intf_l2_mode_str (l2_mode i)) @ '' Mode'' @ newline)], c)))))"

definition show_vlans_handler :: "tlv list \<Rightarrow> cli \<Rightarrow> answer" where
  "show_vlans_handler tlvs c =
     with_topology c (\<lambda>w.
     let node_nm = leaf_value ''node-name'' tlvs; if_nm = leaf_value ''interface-name'' tlvs in
     with_node c w node_nm (\<lambda>n.
     with_intf c w node_nm n if_nm (\<lambda>q.
     Inr (0, [Printed (dump_vlan_membership (iface (topo w) q))], c))))"

definition show_route_handler :: "tlv list \<Rightarrow> cli \<Rightarrow> answer" where
  "show_route_handler tlvs c =
     with_topology c (\<lambda>w.
     with_node c w (leaf_value ''node-name'' tlvs) (\<lambda>n.
     Inr (0, [Printed (rt_dump_table (node_route_table (nodes (topo w) n)))], c)))"

definition show_debug_handler :: "tlv list \<Rightarrow> cli \<Rightarrow> answer" where
  "show_debug_handler tlvs c =
     with_topology c (\<lambda>w.
     with_node c w (leaf_value ''node-name'' tlvs) (\<lambda>n.
     Inr (0, [Printed (''Node '' @ node_name (nodes (topo w) n) @ '' debugging is '' @
       debug_status_str (node_debug (nodes (topo w) n)) @ newline)], c)))"

section \<open>Configuration handlers\<close>

definition config_route_handler :: "cli_env \<Rightarrow> tlv list \<Rightarrow> cli \<Rightarrow> answer" where
  "config_route_handler CE tlvs c =
     with_topology c (\<lambda>w.
     let node_nm = leaf_value ''node-name'' tlvs;
         dest = leaf_value ''dest'' tlvs;
         msk = (case leaf_value ''mask'' tlvs of Some v \<Rightarrow> word_of_int (atoi v) | None \<Rightarrow> ce_mask CE);
         gw = leaf_value ''gw'' tlvs;
         oif = leaf_value ''oif'' tlvs
     in
     with_node c w node_nm (\<lambda>n.
     rbind (find_intf w n oif) (\<lambda>intf.
     case intf of
       None \<Rightarrow> Inr (-1, [Not_a_valid_interface oif node_nm], c)
     | Some q \<Rightarrow>
         if \<not> IS_INTF_L3_MODE (iface (topo w) q) then Inr (-1, [Not_in_l3_mode oif node_nm], c)
         else
           rbind (deref dest) (\<lambda>dst.
           rbind (deref gw) (\<lambda>gw_ip.
           rbind (deref oif) (\<lambda>oif_name.
           rbind (rt_table_add_route (node_route_table (nodes (topo w) n)) dst msk gw_ip oif_name) (\<lambda>rt.
           Inr (0, [], set_graph c w (upd_node (topo w) n (\<lambda>nd. nd\<lparr>node_route_table := rt\<rparr>)))))))))) "

definition config_debug_handler :: "tlv list \<Rightarrow> cli \<Rightarrow> answer" where
  "config_debug_handler tlvs c =
     with_topology c (\<lambda>w.
     with_node c w (leaf_value ''node-name'' tlvs) (\<lambda>n.
     rbind (deref (leaf_value ''status'' tlvs)) (\<lambda>status.
     let g1 = (if status = ''on'' \<or> status = ''ON'' then set_node_debug_status (topo w) n DEBUG_ON else topo w);
         g2 = (if status = ''off'' \<or> status = ''OFF'' then set_node_debug_status g1 n DEBUG_OFF else g1)
     in Inr (0, [Debug_status_set n status], set_graph c w g2))))"

definition mode_set_handler :: "tlv list \<Rightarrow> cli \<Rightarrow> answer" where
  "mode_set_handler tlvs c =
     with_topology c (\<lambda>w.
     let node_nm = leaf_value ''node-name'' tlvs; if_nm = leaf_value ''interface-name'' tlvs in
     with_node c w node_nm (\<lambda>n.
     with_intf c w node_nm n if_nm (\<lambda>q.
     rbind (deref if_nm) (\<lambda>nm.
     rbind (deref (leaf_value ''intf_mode'' tlvs)) (\<lambda>md.
     Inr (0, [],
       if md = ''access'' \<or> md = ''ACCESS'' then set_graph c w (node_set_intf_l2_mode (topo w) n nm ACCESS)
       else if md = ''trunk'' \<or> md = ''TRUNK'' then set_graph c w (node_set_intf_l2_mode (topo w) n nm TRUNK)
       else c))))))"

text \<open>The assignment of \<^verbatim>\<open>vlan_id\<close> in the loop is not part of the conditional before it.\<close>

fun add_vlan_loop_id :: "tlv list \<Rightarrow> u16 \<Rightarrow> u16" where
  "add_vlan_loop_id [] vlan_id = vlan_id"
| "add_vlan_loop_id ((leaf_id, value) # tlvs) vlan_id = add_vlan_loop_id tlvs (word_of_int (atoi value))"

definition add_vlan_handler :: "cli_env \<Rightarrow> tlv list \<Rightarrow> cli \<Rightarrow> answer" where
  "add_vlan_handler CE tlvs c =
     with_topology c (\<lambda>w.
     let node_nm = leaf_value ''node-name'' tlvs;
         if_nm = leaf_value ''interface-name'' tlvs;
         vlan_id = add_vlan_loop_id tlvs (ce_vlan CE);
         outs = map (\<lambda>(_, value). Vlan_text value) (filter (\<lambda>(leaf_id, _). leaf_id = ''vlan-id'') tlvs)
     in
     rbind (with_node c w node_nm (\<lambda>n.
       with_intf c w node_nm n if_nm (\<lambda>q.
       rbind (deref if_nm) (\<lambda>nm.
       Inr (0, [Vlan_number vlan_id], set_graph c w (node_set_intf_vlan_membership (topo w) n nm vlan_id))))))
       (\<lambda>(r, out, c'). Inr (r, outs @ out, c')))"

definition remove_vlan_handler :: "cli_env \<Rightarrow> tlv list \<Rightarrow> cli \<Rightarrow> answer" where
  "remove_vlan_handler CE tlvs c =
     with_topology c (\<lambda>w.
     let node_nm = leaf_value ''node-name'' tlvs;
         if_nm = leaf_value ''interface-name'' tlvs;
         vlan_id = (case leaf_value ''vlan-id'' tlvs of Some v \<Rightarrow> word_of_int (atoi v) | None \<Rightarrow> ce_vlan CE)
     in
     with_node c w node_nm (\<lambda>n.
     with_intf c w node_nm n if_nm (\<lambda>q.
     rbind (deref if_nm) (\<lambda>nm.
     Inr (0, [], set_graph c w (node_remove_vlan_membership (topo w) n nm vlan_id))))))"


section \<open>Run handlers\<close>

definition resolve_arp_handler :: "tlv list \<Rightarrow> cli \<Rightarrow> answer" where
  "resolve_arp_handler tlvs c =
     with_topology c (\<lambda>w.
     with_node c w (leaf_value ''node-name'' tlvs) (\<lambda>n.
     rbind (deref (leaf_value ''ip-address'' tlvs)) (\<lambda>ip_address.
     rbind (send_arp_broadcast_request w n None ip_address) (\<lambda>w'.
     Inr (0, [], c\<lparr>cl_topology := Some w'\<rparr>)))))"

text \<open>The count is passed on as a \<^verbatim>\<open>uint8_t\<close>.\<close>

definition ping_handler :: "cli_env \<Rightarrow> tlv list \<Rightarrow> cli \<Rightarrow> answer" where
  "ping_handler CE tlvs c =
     with_topology c (\<lambda>w.
     let count = (case leaf_value ''count'' tlvs of Some v \<Rightarrow> atoi v | None \<Rightarrow> 1) in
     with_node c w (leaf_value ''node-name'' tlvs) (\<lambda>n.
     rbind (deref (leaf_value ''ip-address'' tlvs)) (\<lambda>ip_address.
     rbind (send_ping_request (ce_fuel CE) (ce_env CE) w n ip_address (word_of_int count) (ce_count CE)) (\<lambda>w'.
     Inr (0, [], c\<lparr>cl_topology := Some w'\<rparr>)))))"


section \<open>Topologies\<close>

text \<open>A new topology has sockets of its own; what was printed stays.\<close>

definition start_topology :: "cli \<Rightarrow> graph \<Rightarrow> cli" where
  "start_topology c g = c\<lparr>cl_port := udp_counter g, cl_topology := Some \<lparr>topo = g, sent = [],
     reports = (case cl_topology c of None \<Rightarrow> [] | Some w \<Rightarrow> reports w)\<rparr>\<rparr>"

definition build_topology :: "cli_env \<Rightarrow> u32 \<Rightarrow> int \<Rightarrow> graph res option" where
  "build_topology CE k topology_id =
     (if topology_id = 0 then Some (build_first_topology (ce_sock CE) k)
      else if topology_id = 1 then Some (build_linear_topology (ce_sock CE) k)
      else if topology_id = 2 then Some (build_simple_l2_switch_topology (ce_sock CE) k)
      else if topology_id = 3 then Some (build_dual_switch_topology (ce_sock CE) k)
      else if topology_id = 4 then Some (build_simple_l3_topology (ce_sock CE) k)
      else None)"

definition load_topology_handler :: "cli_env \<Rightarrow> tlv list \<Rightarrow> cli \<Rightarrow> answer" where
  "load_topology_handler CE tlvs c =
     (let topology_id = (case leaf_value ''topology-id'' tlvs of Some v \<Rightarrow> atoi v | None \<Rightarrow> ce_id CE) in
      case build_topology CE (cl_port c) topology_id of
        None \<Rightarrow> Inr (-1, [Invalid_topology_id], c)
      | Some r \<Rightarrow> rbind r (\<lambda>g. Inr (0, [Topology_loaded], start_topology c g)))"

definition create_topology_handler :: "tlv list \<Rightarrow> cli \<Rightarrow> answer" where
  "create_topology_handler tlvs c =
     rbind (deref (leaf_value ''topology-name'' tlvs)) (\<lambda>name.
     Inr (0, [Topology_created], start_topology c (fresh_graph (cl_port c) name)))"

definition exit_handler :: "nat \<Rightarrow> cli \<Rightarrow> answer" where
  "exit_handler code c =
     (if code = CMDCODE_EXIT
      then Inr (0, [Exit], c\<lparr>cl_term := restore_mode (cl_term c), cl_running := False\<rparr>)
      else Inr (0, [], c))"


section \<open>Validators\<close>

definition validate_topology_id :: "string \<Rightarrow> bool" where
  "validate_topology_id topology_id = (\<not> (atoi topology_id < 0 \<or> int NUM_SAVED_TOPOS \<le> atoi topology_id))"

definition validate_ip_address :: "string \<Rightarrow> bool" where
  "validate_ip_address ip = (inet_pton ip \<noteq> None)"

definition validate_debug_status :: "string \<Rightarrow> bool" where
  "validate_debug_status status = (status \<in> {''on'', ''ON'', ''off'', ''OFF''})"

definition validate_interface_mode :: "string \<Rightarrow> bool" where
  "validate_interface_mode md = (md \<in> {''access'', ''ACCESS'', ''trunk'', ''TRUNK''})"

definition validate_mask_handler :: "string \<Rightarrow> bool" where
  "validate_mask_handler msk = (\<not> (word_of_int (atoi msk) :: u8) > 32)"


section \<open>The commands\<close>

datatype callback =
    Show_nw_topology | Show_saved_topologies | Show_node_cb | Show_node_interfaces | Show_arp_cb
  | Show_mac_cb | Show_mode_cb | Show_vlans_cb | Show_route_cb | Show_debug_cb | Config_route
  | Config_debug | Mode_set | Add_vlan | Remove_vlan | Resolve_arp | Ping_cb | Load_topology
  | Create_topology | Exit_cb

fun run_callback :: "callback \<Rightarrow> cli_env \<Rightarrow> nat \<Rightarrow> tlv list \<Rightarrow> cli \<Rightarrow> answer" where
  "run_callback Show_nw_topology CE code tlvs c = show_nw_topology_handler code c"
| "run_callback Show_saved_topologies CE code tlvs c = show_saved_topologies_handler CE code tlvs c"
| "run_callback Show_node_cb CE code tlvs c = show_node_handler tlvs c"
| "run_callback Show_node_interfaces CE code tlvs c = show_node_interfaces tlvs c"
| "run_callback Show_arp_cb CE code tlvs c = show_arp_handler tlvs c"
| "run_callback Show_mac_cb CE code tlvs c = show_mac_handler tlvs c"
| "run_callback Show_mode_cb CE code tlvs c = show_mode_handler tlvs c"
| "run_callback Show_vlans_cb CE code tlvs c = show_vlans_handler tlvs c"
| "run_callback Show_route_cb CE code tlvs c = show_route_handler tlvs c"
| "run_callback Show_debug_cb CE code tlvs c = show_debug_handler tlvs c"
| "run_callback Config_route CE code tlvs c = config_route_handler CE tlvs c"
| "run_callback Config_debug CE code tlvs c = config_debug_handler tlvs c"
| "run_callback Mode_set CE code tlvs c = mode_set_handler tlvs c"
| "run_callback Add_vlan CE code tlvs c = add_vlan_handler CE tlvs c"
| "run_callback Remove_vlan CE code tlvs c = remove_vlan_handler CE tlvs c"
| "run_callback Resolve_arp CE code tlvs c = resolve_arp_handler tlvs c"
| "run_callback Ping_cb CE code tlvs c = ping_handler CE tlvs c"
| "run_callback Load_topology CE code tlvs c = load_topology_handler CE tlvs c"
| "run_callback Create_topology CE code tlvs c = create_topology_handler tlvs c"
| "run_callback Exit_cb CE code tlvs c = exit_handler code c"

datatype validator = V_topology_id | V_ip_address | V_debug_status | V_interface_mode | V_mask

fun run_validator :: "validator \<Rightarrow> string \<Rightarrow> bool" where
  "run_validator V_topology_id s = validate_topology_id s"
| "run_validator V_ip_address s = validate_ip_address s"
| "run_validator V_debug_status s = validate_debug_status s"
| "run_validator V_interface_mode s = validate_interface_mode s"
| "run_validator V_mask s = validate_mask_handler s"

text \<open>
  A registered parameter with those registered under it: a word with its callback and code,
  or a leaf, with its name and validator as well.
\<close>

datatype leaf_type = T_STRING | T_INT | T_IPV4

datatype param =
    CMD string "callback option" "nat option" "param list"
  | LEAF string leaf_type "validator option" "callback option" "nat option" "param list"

datatype hook = Show_hook | Config_hook | Run_hook | Root_hook

text \<open>\<^verbatim>\<open>nw_init_cli\<close>: what hangs under the four hooks of libcli, in the order of registration.\<close>

definition show_tree :: "param list" where
  "show_tree =
     [CMD ''topology'' (Some Show_nw_topology) (Some CMDCODE_SHOW_NW_TOPOLOGY)
       [CMD ''saved'' (Some Show_saved_topologies) (Some CMDCODE_SHOW_TOPOLOGIES_SAVED)
         [LEAF ''topology-id'' T_STRING (Some V_topology_id) (Some Show_saved_topologies)
            (Some CMDCODE_SHOW_TOPOLOGY_ID) []]],
      CMD ''node'' None None
       [LEAF ''node-name'' T_STRING None (Some Show_node_cb) (Some CMDCODE_SHOW_NODE)
         [CMD ''arp'' (Some Show_arp_cb) (Some CMDCODE_SHOW_NODE_ARP_TABLE) [],
          CMD ''mac-table'' (Some Show_mac_cb) (Some CMDCODE_SHOW_NODE_MAC_TABLE) [],
          CMD ''debug'' (Some Show_debug_cb) (Some CMDCODE_SHOW_NODE_DEBUG_STATUS) [],
          CMD ''interface'' (Some Show_node_interfaces) (Some CMDCODE_SHOW_NODE_INTERFACES)
           [LEAF ''interface-name'' T_STRING None None None
             [CMD ''mode'' (Some Show_mode_cb) (Some CMDCODE_SHOW_NODE_INTERFACE_MODE) [],
              CMD ''vlans'' (Some Show_vlans_cb) (Some CMDCODE_SHOW_NODE_INTERFACE_VLANS) []]],
          CMD ''route'' (Some Show_route_cb) (Some CMDCODE_SHOW_NODE_ROUTE_TABLE) []]]]"

definition config_tree :: "param list" where
  "config_tree =
     [CMD ''topology'' None None
       [CMD ''load'' None None
         [LEAF ''topology-id'' T_INT (Some V_topology_id) (Some Load_topology)
            (Some CMDCODE_CONFIG_TOPOLOGY_LOAD) []],
        CMD ''create'' None None
         [LEAF ''topology-name'' T_STRING None (Some Create_topology)
            (Some CMDCODE_CONFIG_TOPOLOGY_CREATE) []]],
      CMD ''node'' None None
       [LEAF ''node-name'' T_STRING None None None
         [CMD ''debug'' None None
           [LEAF ''status'' T_STRING (Some V_debug_status) (Some Config_debug)
              (Some CMDCODE_CONFIG_NODE_DEBUG) []],
          CMD ''interface'' None None
           [LEAF ''interface-name'' T_STRING None None None
             [CMD ''mode'' None None
               [LEAF ''intf_mode'' T_STRING (Some V_interface_mode) (Some Mode_set)
                  (Some CMDCODE_CONFIG_NODE_MODE) []],
              CMD ''vlans'' None None
               [CMD ''add'' None None
                 [LEAF ''vlan-id'' T_INT None (Some Add_vlan)
                    (Some CMDCODE_CONFIG_NODE_INTERFACE_VLAN_ADD) []],
                CMD ''remove'' None None
                 [LEAF ''vlan-id'' T_INT None (Some Remove_vlan)
                    (Some CMDCODE_CONFIG_NODE_INTERFACE_VLAN_REMOVE) []]]]],
          CMD ''route'' None None
           [LEAF ''dest'' T_IPV4 None None None
             [LEAF ''mask'' T_INT (Some V_mask) None None
               [LEAF ''gw'' T_IPV4 None None None
                 [LEAF ''oif'' T_STRING None (Some Config_route)
                    (Some CMDCODE_CONFIG_NODE_ROUTE_OIF) []]]]]]]]"

definition run_tree :: "param list" where
  "run_tree =
     [CMD ''node'' None None
       [LEAF ''node-name'' T_STRING None None None
         [CMD ''ping'' None None
           [LEAF ''ip-address'' T_STRING (Some V_ip_address) None None
             [LEAF ''count'' T_INT None (Some Ping_cb) (Some CMDCODE_RUN_NODE_PING) []]],
          CMD ''resolve-arp'' None None
           [LEAF ''ip-address'' T_STRING (Some V_ip_address) (Some Resolve_arp)
              (Some CMDCODE_RUN_NODE_RESOLVE_ARP) []]]]]"

definition exit_tree :: "param list" where
  "exit_tree = [CMD ''exit'' (Some Exit_cb) (Some CMDCODE_EXIT) []]"

definition nw_init_cli :: "(hook \<times> param list) list" where
  "nw_init_cli =
     [(Show_hook, show_tree), (Config_hook, config_tree), (Run_hook, run_tree), (Root_hook, exit_tree)]"

text \<open>
  The commands of a tree: the leaves on the path, with their validators, and the callback and
  code at its end.
\<close>

type_synonym command = "(string \<times> validator option) list \<times> callback \<times> nat option"

fun command_here :: "callback option \<Rightarrow> nat option \<Rightarrow> command list" where
  "command_here None code = []"
| "command_here (Some f) code = [([], f, code)]"

fun commands :: "param \<Rightarrow> command list" where
  "commands (CMD name f code subs) = command_here f code @ concat (map commands subs)"
| "commands (LEAF leaf t v f code subs) =
     map (\<lambda>(ls, g, cd). ((leaf, v) # ls, g, cd)) (command_here f code @ concat (map commands subs))"

definition registered :: "command list" where
  "registered = concat (map (\<lambda>(_, ps). concat (map commands ps)) nw_init_cli)"

text \<open>
  An invocation: values for the leaves that their validators accept. Values are C strings.
\<close>

definition accepted :: "command \<Rightarrow> string list \<Rightarrow> bool" where
  "accepted cm vs \<longleftrightarrow>
     list_all2 (\<lambda>(leaf, v) x. nul_free x \<and> (case v of None \<Rightarrow> True | Some va \<Rightarrow> run_validator va x)) (fst cm) vs"

definition invoke :: "cli_env \<Rightarrow> command \<Rightarrow> string list \<Rightarrow> cli \<Rightarrow> answer" where
  "invoke CE cm vs c =
     (case cm of (ls, f, code) \<Rightarrow>
        run_callback f CE (case code of None \<Rightarrow> 0 | Some k \<Rightarrow> k) (zip (map fst ls) vs) c)"


section \<open>What the commands are\<close>

lemma registered_list:
  "registered =
    [([], Show_nw_topology, Some 0),
     ([], Show_saved_topologies, Some 1),
     ([(''topology-id'', Some V_topology_id)], Show_saved_topologies, Some 2),
     ([(''node-name'', None)], Show_node_cb, Some 3),
     ([(''node-name'', None)], Show_arp_cb, Some 4),
     ([(''node-name'', None)], Show_mac_cb, Some 5),
     ([(''node-name'', None)], Show_debug_cb, Some 9),
     ([(''node-name'', None)], Show_node_interfaces, Some 6),
     ([(''node-name'', None), (''interface-name'', None)], Show_mode_cb, Some 7),
     ([(''node-name'', None), (''interface-name'', None)], Show_vlans_cb, Some 8),
     ([(''node-name'', None)], Show_route_cb, Some 10),
     ([(''topology-id'', Some V_topology_id)], Load_topology, Some 108),
     ([(''topology-name'', None)], Create_topology, Some 109),
     ([(''node-name'', None), (''status'', Some V_debug_status)], Config_debug, Some 100),
     ([(''node-name'', None), (''interface-name'', None), (''intf_mode'', Some V_interface_mode)], Mode_set, Some 101),
     ([(''node-name'', None), (''interface-name'', None), (''vlan-id'', None)], Add_vlan, Some 102),
     ([(''node-name'', None), (''interface-name'', None), (''vlan-id'', None)], Remove_vlan, Some 103),
     ([(''node-name'', None), (''dest'', None), (''mask'', Some V_mask), (''gw'', None), (''oif'', None)],
        Config_route, Some 107),
     ([(''node-name'', None), (''ip-address'', Some V_ip_address), (''count'', None)], Ping_cb, Some 300),
     ([(''node-name'', None), (''ip-address'', Some V_ip_address)], Resolve_arp, Some 301),
     ([], Exit_cb, Some 900)]"
  by (simp add: registered_def nw_init_cli_def show_tree_def config_tree_def run_tree_def exit_tree_def cmdcodes)

lemma registered_cases:
  assumes "cm \<in> set registered" "accepted cm vs"
  obtains (no_leaf) "vs = []" "fst (snd cm) \<in> {Show_nw_topology, Show_saved_topologies, Exit_cb}"
      "invoke CE cm vs c = run_callback (fst (snd cm)) CE (the (snd (snd cm))) [] c" "the (snd (snd cm)) \<noteq> 2"
  | (saved) v where "vs = [v]" "validate_topology_id v"
      "invoke CE cm vs c = show_saved_topologies_handler CE 2 [(''topology-id'', v)] c"
  | (load) v where "vs = [v]" "validate_topology_id v"
      "invoke CE cm vs c = load_topology_handler CE [(''topology-id'', v)] c"
  | (create) v where "vs = [v]" "invoke CE cm vs c = create_topology_handler [(''topology-name'', v)] c"
  | (show_node) v where "vs = [v]" "fst (snd cm) \<in> {Show_node_cb, Show_arp_cb, Show_mac_cb, Show_debug_cb, Show_node_interfaces, Show_route_cb}"
      "invoke CE cm vs c = run_callback (fst (snd cm)) CE (the (snd (snd cm))) [(''node-name'', v)] c"
  | (show_intf) v i where "vs = [v, i]" "fst (snd cm) \<in> {Show_mode_cb, Show_vlans_cb}"
      "invoke CE cm vs c = run_callback (fst (snd cm)) CE (the (snd (snd cm))) [(''node-name'', v), (''interface-name'', i)] c"
  | (debug) v st where "vs = [v, st]" "validate_debug_status st"
      "invoke CE cm vs c = config_debug_handler [(''node-name'', v), (''status'', st)] c"
  | (mode) v i m where "vs = [v, i, m]" "validate_interface_mode m"
      "invoke CE cm vs c = mode_set_handler [(''node-name'', v), (''interface-name'', i), (''intf_mode'', m)] c"
  | (add) v i k where "vs = [v, i, k]"
      "invoke CE cm vs c = add_vlan_handler CE [(''node-name'', v), (''interface-name'', i), (''vlan-id'', k)] c"
  | (remove) v i k where "vs = [v, i, k]"
      "invoke CE cm vs c = remove_vlan_handler CE [(''node-name'', v), (''interface-name'', i), (''vlan-id'', k)] c"
  | (route) v d m g i where "vs = [v, d, m, g, i]" "fst (snd cm) = Config_route" "validate_mask_handler m"
      "invoke CE cm vs c = config_route_handler CE
         [(''node-name'', v), (''dest'', d), (''mask'', m), (''gw'', g), (''oif'', i)] c"
  | (ping) v a k where "vs = [v, a, k]" "fst (snd cm) = Ping_cb" "validate_ip_address a"
      "invoke CE cm vs c = ping_handler CE [(''node-name'', v), (''ip-address'', a), (''count'', k)] c"
  | (resolve) v a where "vs = [v, a]" "fst (snd cm) = Resolve_arp" "validate_ip_address a"
      "invoke CE cm vs c = resolve_arp_handler [(''node-name'', v), (''ip-address'', a)] c"
  using assms unfolding registered_list accepted_def
  by (auto simp: list_all2_Cons1 invoke_def)

lemma leaf_value_Nil [simp]: "leaf_value leaf [] = None"
  by (simp add: leaf_value_def)

lemma leaf_value_hit [simp]: "\<forall>x \<in> set t. fst x \<noteq> leaf \<Longrightarrow> leaf_value leaf ((leaf, v) # t) = Some v"
proof -
  have "\<forall>x \<in> set t. fst x \<noteq> leaf \<Longrightarrow>
      fold (\<lambda>(leaf_id, value) v. if leaf_id = leaf then Some value else v) t z = z" for z :: "string option"
    by (induction t) auto
  then show "\<forall>x \<in> set t. fst x \<noteq> leaf \<Longrightarrow> leaf_value leaf ((leaf, v) # t) = Some v"
    by (simp add: leaf_value_def)
qed

lemma leaf_value_miss [simp]: "x \<noteq> leaf \<Longrightarrow> leaf_value leaf ((x, v) # t) = leaf_value leaf t"
  by (simp add: leaf_value_def)

text \<open>Handlers that only look something up return.\<close>

definition answers :: "answer \<Rightarrow> bool" where
  "answers a \<longleftrightarrow> (\<exists>r. a = Inr r)"

lemma answers_Inr [simp]: "answers (Inr r)"
  by (simp add: answers_def)

lemma answers_with_topology: "(\<And>w. cl_topology c = Some w \<Longrightarrow> answers (k w)) \<Longrightarrow> answers (with_topology c k)"
  by (simp add: with_topology_def split: option.split)

lemma answers_with_node:
  "(\<And>n. get_node_by_node_name (topo w) nm = Some n \<Longrightarrow> answers (k n)) \<Longrightarrow> answers (with_node c w (Some nm) k)"
  by (simp add: with_node_def find_node_def split: option.split)

lemma answers_with_intf: "(\<And>q. answers (k q)) \<Longrightarrow> answers (with_intf c w x n (Some nm) k)"
  by (simp add: with_intf_def find_intf_def split: option.split)

lemma answers_rbind: "answers a \<Longrightarrow> (\<And>r. answers (f r)) \<Longrightarrow> answers (rbind a f)"
  by (cases a) (auto simp: answers_def)

lemmas answering = answers_rbind answers_with_topology answers_with_node answers_with_intf

lemma by_name_exists:
  assumes "graph_wf g" "get_node_by_node_name g nm = Some n"
  shows "n < n_nodes g"
proof -
  have "n \<in> set (node_list g)"
    using assms(2) by (auto simp: get_node_by_node_name_def find_Some_iff)
  then show ?thesis using assms(1) by (simp add: graph_wf_def)
qed

definition cli_ok :: "cli \<Rightarrow> bool" where
  "cli_ok c \<longleftrightarrow> (\<forall>w. cl_topology c = Some w \<longrightarrow> config_ok (topo w))"

lemma show_slots_ok:
  "(\<And>q. Some q \<in> set ss \<Longrightarrow> \<exists>s. dump q = Inr s) \<Longrightarrow> \<exists>s. show_slots dump ss = Inr s"
proof (induction dump ss rule: show_slots.induct)
  case (3 dump q ss)
  then obtain s t where "dump q = Inr s" "show_slots dump ss = Inr t" by fastforce
  then show ?case by simp
qed simp_all

lemma answers_interfaces:
  assumes "cli_ok c"
  shows "answers (show_node_interfaces [(''node-name'', v)] c)"
proof -
  have "\<exists>s. show_slots (dump_nw_interface g) (take (MAX_INTF_PER_NODE - 1) (intf (nodes g n))) = Inr s"
    if "config_ok g" "get_node_by_node_name g v = Some n" for g n
    using slot_link [OF config_ok_wf [OF that(1)] by_name_exists [OF config_ok_wf [OF that(1)] that(2)]]
    by (intro show_slots_ok dump_nw_interface_ok that(1)) (auto dest: in_set_takeD)
  note slots = this
  have v: "leaf_value ''node-name'' [(''node-name'', v)] = Some v" by simp
  show ?thesis
    unfolding show_node_interfaces_def v
  proof (rule answers_with_topology, rule answers_with_node)
    fix w n
    assume "cl_topology c = Some w" "get_node_by_node_name (topo w) v = Some n"
    then have "\<exists>s. show_slots (dump_nw_interface (topo w))
        (take (MAX_INTF_PER_NODE - 1) (intf (nodes (topo w) n))) = Inr s"
      using assms by (intro slots) (simp_all add: cli_ok_def)
    then show "answers (rbind (show_slots (dump_nw_interface (topo w))
        (take (MAX_INTF_PER_NODE - 1) (intf (nodes (topo w) n)))) (\<lambda>s. Inr (0, [Printed s], c)))"
      by (auto simp: answers_def)
  qed
qed

lemma build_topology_configured:
  assumes "0 \<le> i" "i < 5"
  shows "\<exists>g. build_topology CE k i = Some (Inr g) \<and> configured g"
proof -
  have "i = 0 \<or> i = 1 \<or> i = 2 \<or> i = 3 \<or> i = 4" using assms by linarith
  then show ?thesis
    using sample_topologies_configured [of "ce_sock CE" k] by (auto simp: build_topology_def)
qed

lemma load_accepted:
  assumes "validate_topology_id s"
  shows "\<exists>g. load_topology_handler CE [(''topology-id'', s)] c = Inr (0, [Topology_loaded], start_topology c g) \<and> configured g"
  using build_topology_configured [of "atoi s" CE "cl_port c"] assms
  by (auto simp: validate_topology_id_def NUM_SAVED_TOPOS_def load_topology_handler_def)

section \<open>Properties\<close>

definition initial_cli :: cli where
  "initial_cli = \<lparr>cl_topology = None, cl_port = 40000, cl_term = \<lparr>tty = None, orig = None\<rparr>, cl_running = True\<rparr>"

definition example_cli_env :: cli_env where
  "example_cli_env = \<lparr>ce_env = example_env, ce_sock = (\<lambda>n. Some (3 + int n)), ce_fuel = 5,
     ce_mask = 0, ce_vlan = 0, ce_id = 0, ce_count = 0\<rparr>"



text \<open>C30: adding a route: for a node and an interface in L3 mode that are found, with a mask its
  validator accepts and a gateway text that fits, the route becomes the newest of the
  node's table and nothing else changes, and the longest prefix match gives it for every
  address of its network that no longer prefix covers; but a mask that reads as zero, which
  is accepted too, ends in an undefined shift.\<close>

theorem route_command_adds_route:
  assumes "cl_topology c = Some w" and "config_ok (topo w)"
    and n: "get_node_by_node_name (topo w) node_nm = Some n" "n < n_nodes (topo w)"
    and q: "get_node_if_by_name (topo w) n oif = Some q" "is_ipadd_config (iface (topo w) q)"
    and m: "validate_mask_handler msk_text" and d: "inet_pton dest = Some d" and g: "length gw < 16"
  defines "msk \<equiv> word_of_int (atoi msk_text) :: u8"
    and "r \<equiv> \<lparr>rt_dest = inet_ntop (network d (word_of_int (atoi msk_text))), rt_mask = word_of_int (atoi msk_text),
      is_direct = False, rt_gw = gw, rt_oif = oif\<rparr>"
    and "t \<equiv> node_route_table (nodes (topo w) n)"
  shows "config_route_handler CE [(''node-name'', node_nm), (''dest'', dest), (''mask'', msk_text),
      (''gw'', gw), (''oif'', oif)] c =
    (if msk = 0 then Inl Bad_shift
     else Inr (0, [], set_graph c w (upd_node (topo w) n (\<lambda>nd. nd\<lparr>node_route_table := r # t\<rparr>)))) \<and>
    (msk \<noteq> 0 \<longrightarrow> (\<forall>a. same_prefix msk d a \<and> (\<forall>x \<in> set t. covers x a \<longrightarrow> rt_mask x \<le> msk) \<longrightarrow>
      l3rib_lookup_lpm (r # t) a = Inr (Some r)))"
proof -
  note wf = config_ok_wf [OF assms(2)]
  have nm: "length oif < IF_NAME_SIZE"
    using named_interface [OF assms(2) n(2) q(1)] graph_wf_iface [OF wf, of q] by (auto simp: iface_wf_def fits_def)
  have v: "valid_mask msk" if "msk \<noteq> 0"
  proof -
    have "msk \<le> 32" using m by (simp add: msk_def validate_mask_handler_def not_less)
    then show ?thesis using that by (simp add: valid_mask_def word_le_nat_alt unat_gt_0 Suc_le_eq)
  qed
  have a: "apply_mask dest msk = Inr (inet_ntop (network d msk))" if "msk \<noteq> 0"
    using d prefix_bits_valid [OF v [OF that]] by (simp add: apply_mask_def network_def Let_def)
  have z: "apply_mask dest 0 = Inl Bad_shift"
    by (simp add: apply_mask_def prefix_bits_def Let_def)
  have add: "rt_table_add_route t dest msk gw oif = (if msk = 0 then Inl Bad_shift else Inr (r # t))"
    using a z g nm by (auto simp: rt_table_add_route_def strcpy_to_def r_def msk_def)
  have "l3rib_lookup_lpm (r # t) a = Inr (Some r)"
    if "msk \<noteq> 0" "same_prefix msk d a" "\<forall>x \<in> set t. covers x a \<longrightarrow> rt_mask x \<le> msk" for a
  proof -
    have "rt_ok t" using config_ok_node [OF assms(2) n(2)] by (simp add: node_cfg_ok_def t_def)
    then have ok: "rt_ok (r # t)" using v [OF that(1)] by (simp add: rt_ok_def r_def msk_def)
    have "covers r a" using that(2) by (simp add: covers_def r_def msk_def network_eq_iff)
    then have "is_lpm (r # t) a r"
      using that(3) unfolding is_lpm_def by (intro exI [of _ "[]"] exI [of _ t]) (simp add: r_def msk_def)
    then show ?thesis by (simp add: l3rib_lookup_Some [OF ok])
  qed
  moreover have "config_route_handler CE [(''node-name'', node_nm), (''dest'', dest), (''mask'', msk_text),
      (''gw'', gw), (''oif'', oif)] c =
    (if msk = 0 then Inl Bad_shift
     else Inr (0, [], set_graph c w (upd_node (topo w) n (\<lambda>nd. nd\<lparr>node_route_table := r # t\<rparr>))))"
    using assms(1) n(1) q add
    by (simp add: config_route_handler_def with_topology_def with_node_def find_node_def find_intf_def
        IS_INTF_L3_MODE_def msk_def [symmetric] t_def [symmetric])
  ultimately show ?thesis by blast
qed

definition example_cli :: cli where
  "example_cli = \<lparr>cl_topology = Some resolved_world, cl_port = 40002,
     cl_term = \<lparr>tty = None, orig = None\<rparr>, cl_running = True\<rparr>"

lemma resolved_names: "get_node_by_node_name resolved_graph ''R1'' = Some 1"
proof -
  have l: "node_list resolved_graph = [1, 0]"
    using config_ok_wf [OF config_ok_resolved] by (simp add: graph_wf_def resolved_graph_sel numeral_2_eq_2)
  have "node_name (nodes resolved_graph 1) = ''R1''"
    using example_tables(6) by (simp add: resolved_graph_def host_graph_def with_loopbacks_def)
  then show ?thesis by (simp add: get_node_by_node_name_def l strncmp_eq_def)
qed

lemma route_command_adds_route_witness:
  "\<exists>c'. config_route_handler example_cli_env [(''node-name'', ''R1''), (''dest'', ''40.0.0.0''), (''mask'', ''8''),
     (''gw'', ''10.1.1.1''), (''oif'', ''eth1'')] example_cli = Inr (0, [], c')"
proof -
  have m: "atoi ''8'' = 8" and d: "inet_pton ''40.0.0.0'' = Some 40" by code_simp+
  have "get_node_if_by_name resolved_graph 1 ''eth1'' = Some (0, Intf2)"
    using graph_wf_node [OF config_ok_wf [OF config_ok_resolved], of 1]
    by (simp add: get_node_if_by_name_find resolved_graph_sel host_graph_sel del: One_nat_def)
  then show ?thesis
    using route_command_adds_route [of example_cli resolved_world "''R1''" 1 "''eth1''" "(0, Intf2)" "''8''" "''40.0.0.0''" 40 "''10.1.1.1''" example_cli_env]
      config_ok_resolved resolved_names d
    by (simp add: m example_cli_def resolved_world_def resolved_graph_sel host_graph_sel validate_mask_handler_def
        del: One_nat_def)
qed

text \<open>
  A session: commands with accepted values, and steps of the network in between. The
  network may also lose or deliver what an earlier command sent.
\<close>

inductive session_step :: "cli_env \<Rightarrow> cli \<Rightarrow> cli \<Rightarrow> bool" for CE :: cli_env where
  command: "cl_running c \<Longrightarrow> cm \<in> set registered \<Longrightarrow> accepted cm vs \<Longrightarrow>
    invoke CE cm vs c = Inr (r, out, c') \<Longrightarrow> session_step CE c c'"
| network: "cl_running c \<Longrightarrow> cl_topology c = Some w \<Longrightarrow> net_step (ce_fuel CE) (ce_env CE) w w' \<Longrightarrow>
    session_step CE c (c\<lparr>cl_topology := Some w'\<rparr>)"

lemma cli_ok_start: "configured g \<Longrightarrow> cli_ok (start_topology c g)"
  by (simp add: cli_ok_def start_topology_def configured_ok)

text \<open>
  A property of answers that a fault satisfies and that otherwise speaks of the new state
  only. The handlers are built from four forms, each of which preserves such a property.
\<close>

locale answer_invariant =
  fixes good :: "answer \<Rightarrow> bool" and fine :: "cli \<Rightarrow> bool"
  assumes fault: "good (Inl e)" and returned: "good (Inr (r, out, c)) \<longleftrightarrow> fine c"
begin

lemma rbind: "(\<And>x. m = Inr x \<Longrightarrow> good (f x)) \<Longrightarrow> good (rbind m f)"
  by (cases m) (simp_all add: fault)

lemma with_topology:
  "fine c \<Longrightarrow> (\<And>w. cl_topology c = Some w \<Longrightarrow> good (k w)) \<Longrightarrow> good (with_topology c k)"
  by (simp add: with_topology_def returned split: option.split)

lemma with_node:
  "fine c \<Longrightarrow> (\<And>n. find_node w x = Inr (Some n) \<Longrightarrow> good (k n)) \<Longrightarrow> good (with_node c w x k)"
  by (auto simp: with_node_def returned intro!: rbind split: option.split)

lemma with_intf:
  "fine c \<Longrightarrow> (\<And>q. find_intf w n x = Inr (Some q) \<Longrightarrow> good (k q)) \<Longrightarrow> good (with_intf c w y n x k)"
  by (auto simp: with_intf_def returned intro!: rbind split: option.split)

lemma more_output: "good a \<Longrightarrow> good (rbind a (\<lambda>(r, out, c'). Inr (r, outs @ out, c')))"
  by (cases a) (auto simp: returned)

end

text \<open>An answer keeps the invariant.\<close>

definition keeps_cli :: "answer \<Rightarrow> bool" where
  "keeps_cli a \<longleftrightarrow> (\<forall>r out c'. a = Inr (r, out, c') \<longrightarrow> cli_ok c')"

lemma keeps_cli_simps [simp]: "keeps_cli (Inr (r, out, c)) \<longleftrightarrow> cli_ok c" "keeps_cli (Inl e)"
  by (simp_all add: keeps_cli_def)

interpretation kept: answer_invariant keeps_cli cli_ok
  by unfold_locales simp_all

lemma keeps_cli_with_topology:
  "cli_ok c \<Longrightarrow> (\<And>w. cl_topology c = Some w \<Longrightarrow> config_ok (topo w) \<Longrightarrow> keeps_cli (k w)) \<Longrightarrow> keeps_cli (with_topology c k)"
  by (rule kept.with_topology) (simp_all add: cli_ok_def)

lemma keeps_cli_with_node:
  assumes "cli_ok c" "config_ok (topo w)" "\<And>n. n < n_nodes (topo w) \<Longrightarrow> keeps_cli (k n)"
  shows "keeps_cli (with_node c w (Some nm) k)"
  using assms by_name_exists [OF config_ok_wf [OF assms(2)], of nm]
  by (intro kept.with_node) (simp_all add: find_node_def)

lemmas keeping = kept.rbind keeps_cli_with_topology keeps_cli_with_node kept.with_intf

lemma cli_ok_set_graph: "config_ok g \<Longrightarrow> cli_ok (set_graph c w g)"
  by (simp add: cli_ok_def set_graph_def)

lemma cli_ok_debug: "config_ok g \<Longrightarrow> config_ok (set_node_debug_status g n st)"
  unfolding set_node_debug_status_def by (rule config_ok_upd_node) (auto simp: node_cfg_ok_def)

lemma keeps_cli_show:
  assumes ok: "cli_ok c"
  shows "keeps_cli (show_nw_topology_handler code c)"
    and "keeps_cli (show_node_handler [(''node-name'', v)] c)"
proof -
  have "config_ok g'" if "dump_nw_graph g = Inr (s, g')" "config_ok g" for g g' s
    using dump_nw_graph_result [OF that(2)] config_ok_marks [OF that(2)] that(1) by (auto split: if_splits)
  then show "keeps_cli (show_nw_topology_handler code c)"
    unfolding show_nw_topology_handler_def
    using ok by (auto intro!: keeping cli_ok_set_graph split: prod.split)
  have "config_ok g'" if "dump_nw_node g n = Inr (s, g')" "config_ok g" "n < n_nodes g" for g g' n s
    using dump_nw_node_result [OF that(2,3)] config_ok_mark [OF that(2)] that(1) by (auto split: if_splits)
  then show "keeps_cli (show_node_handler [(''node-name'', v)] c)"
    unfolding show_node_handler_def
    using ok by (auto intro!: keeping cli_ok_set_graph split: prod.split)
qed

lemma keeps_cli_config:
  assumes ok: "cli_ok c"
  shows "keeps_cli (config_debug_handler [(''node-name'', v), (''status'', st)] c)"
    and "keeps_cli (mode_set_handler [(''node-name'', v), (''interface-name'', i), (''intf_mode'', m)] c)"
    and "keeps_cli (add_vlan_handler CE [(''node-name'', v), (''interface-name'', i), (''vlan-id'', k)] c)"
    and "keeps_cli (remove_vlan_handler CE [(''node-name'', v), (''interface-name'', i), (''vlan-id'', k)] c)"
proof -
  show "keeps_cli (add_vlan_handler CE [(''node-name'', v), (''interface-name'', i), (''vlan-id'', k)] c)"
    unfolding add_vlan_handler_def Let_def
    by (intro keeps_cli_with_topology [OF ok] kept.more_output)
      (use ok in \<open>auto intro!: keeping cli_ok_set_graph config_ok_set_vlan\<close>)
qed (use ok in \<open>auto simp: config_debug_handler_def mode_set_handler_def remove_vlan_handler_def Let_def
    intro!: keeping cli_ok_set_graph cli_ok_debug config_ok_set_l2_mode config_ok_remove_vlan\<close>)

lemma keeps_cli_route:
  assumes ok: "cli_ok c" and m: "validate_mask_handler m"
  shows "keeps_cli (config_route_handler CE
    [(''node-name'', v), (''dest'', d), (''mask'', m), (''gw'', g), (''oif'', i)] c)"
proof -
  have vm: "valid_mask (word_of_int (atoi m))" if "rt_table_add_route t d (word_of_int (atoi m)) g i = Inr rt" for t rt
  proof -
    have "(word_of_int (atoi m) :: u8) \<noteq> 0"
      using that by (auto simp: rt_table_add_route_def apply_mask_def prefix_bits_def Let_def)
    then show ?thesis
      using m by (simp add: validate_mask_handler_def valid_mask_def word_le_nat_alt unat_gt_0 Suc_le_eq not_less)
  qed
  have "config_ok (upd_node h n (\<lambda>nd. nd\<lparr>node_route_table := rt\<rparr>))"
    if "config_ok h" "rt_table_add_route (node_route_table (nodes h n)) d (word_of_int (atoi m)) g i = Inr rt" for h n rt
    by (rule config_ok_upd_node [OF that(1)]) (use rt_ok_add_route [OF that(2)] vm [OF that(2)] in \<open>auto simp: node_cfg_ok_def\<close>)
  then show ?thesis
    unfolding config_route_handler_def
    using ok by (auto simp: Let_def find_intf_def intro!: keeping cli_ok_set_graph split: option.split)
qed

lemma keeps_cli_run:
  assumes ok: "cli_ok c" and E: "env_ok (ce_env CE)"
  shows "keeps_cli (resolve_arp_handler [(''node-name'', v), (''ip-address'', a)] c)"
    and "keeps_cli (ping_handler CE [(''node-name'', v), (''ip-address'', a), (''count'', k)] c)"
proof -
  have k: "cli_ok (c\<lparr>cl_topology := Some w'\<rparr>)" if "config_ok (topo w)" "keeps w w'" for w w'
    using that by (simp add: cli_ok_def keeps_def)
  show "keeps_cli (resolve_arp_handler [(''node-name'', v), (''ip-address'', a)] c)"
    unfolding resolve_arp_handler_def
    using ok by (auto intro!: keeping k dest: keeps_commands)
  show "keeps_cli (ping_handler CE [(''node-name'', v), (''ip-address'', a), (''count'', k)] c)"
    unfolding ping_handler_def send_ping_request_def
    using ok by (auto simp: Let_def intro!: keeping k dest: keeps_commands(1) [OF E])
qed

lemma session_step_ok:
  assumes "session_step CE c c'" and E: "env_ok (ce_env CE)" and ok: "cli_ok c"
  shows "cli_ok c'"
  using assms(1)
proof cases
  case (command cm vs r out)
  have "keeps_cli (invoke CE cm vs c)"
    using command(2,3)
  proof (cases rule: registered_cases [of cm vs CE c])
    case (load v)
    then obtain g where "invoke CE cm vs c = Inr (0, [Topology_loaded], start_topology c g)" "configured g"
      using load_accepted [of v CE c] by auto
    then show ?thesis by (simp add: cli_ok_start)
  next
    case (route v d m g i)
    then show ?thesis using keeps_cli_route [OF ok] by simp
  next
    case (create v)
    then show ?thesis by (simp add: create_topology_handler_def cli_ok_start configured_fresh)
  next
    case no_leaf
    then show ?thesis
      using ok keeps_cli_show(1) [OF ok]
      by (auto simp: cli_ok_def show_saved_topologies_handler_def exit_handler_def intro!: keeping)
  next
    case (saved v)
    then show ?thesis using ok by (auto simp: show_saved_topologies_handler_def intro!: keeping)
  qed (use ok keeps_cli_show(2) [OF ok] keeps_cli_config [OF ok] keeps_cli_run [OF ok E] in
      \<open>auto simp: show_arp_handler_def show_mac_handler_def show_debug_handler_def
        show_node_interfaces_def show_route_handler_def show_mode_handler_def show_vlans_handler_def Let_def intro!: keeping\<close>)
  then show ?thesis using command(4) by (simp add: keeps_cli_def)
next
  case (network w w')
  then show ?thesis using keeps_net_step [OF network(4) E] ok by (simp add: cli_ok_def keeps_def)
qed

lemma session_ok: "(session_step CE)\<^sup>*\<^sup>* c c' \<Longrightarrow> env_ok (ce_env CE) \<Longrightarrow> cli_ok c \<Longrightarrow> cli_ok c'"
  by (induction rule: rtranclp_induct) (auto dest: session_step_ok)

text \<open>C10: whatever commands a user gives, in whatever order, and whatever the network does in
  between: the loaded topology is well formed, its configuration and tables are sound, and
  every route lookup and subnet scan in it stays within defined behaviour.\<close>

theorem sessions_are_sound:
  assumes "env_ok (ce_env CE)" and "(session_step CE)\<^sup>*\<^sup>* initial_cli c" and "cl_topology c = Some w"
  shows "config_ok (topo w) \<and>
    (\<forall>n a. n < n_nodes (topo w) \<longrightarrow>
      (\<exists>r. l3rib_lookup_lpm (node_route_table (nodes (topo w) n)) a = Inr r) \<and>
      (\<exists>q. node_get_matching_subnet_interface (topo w) n (inet_ntop a) = Inr q))"
proof -
  have "cli_ok initial_cli" by (simp add: cli_ok_def initial_cli_def)
  then have ok: "config_ok (topo w)" using session_ok [OF assms(2,1)] assms(3) by (simp add: cli_ok_def)
  then show ?thesis
    using config_ok_node [OF ok] lookup_total matching_subnet_find [OF ok] by (auto simp: node_cfg_ok_def)
qed

lemma sessions_are_sound_witness:
  "\<exists>c w. (session_step example_cli_env)\<^sup>*\<^sup>* initial_cli c \<and> cl_topology c = Some w \<and> config_ok (topo w)"
proof -
  let ?cm = "([(''topology-id'', Some V_topology_id)], Load_topology, Some 108) :: command"
  have a: "atoi ''1'' = 1" by code_simp
  have v: "validate_topology_id ''1''" by (simp add: validate_topology_id_def a NUM_SAVED_TOPOS_def)
  obtain g where g: "load_topology_handler example_cli_env [(''topology-id'', ''1'')] initial_cli =
      Inr (0, [Topology_loaded], start_topology initial_cli g)"
    using load_accepted [OF v] by blast
  have "session_step example_cli_env initial_cli (start_topology initial_cli g)"
    by (rule session_step.command [of _ ?cm "[''1'']"])
      (use g v in \<open>simp_all add: initial_cli_def registered_list accepted_def invoke_def nul_free_def byte_of_char_def\<close>)
  then have s: "(session_step example_cli_env)\<^sup>*\<^sup>* initial_cli (start_topology initial_cli g)" by simp
  let ?w = "\<lparr>topo = g, sent = [], reports = []\<rparr>"
  have w: "cl_topology (start_topology initial_cli g) = Some ?w"
    by (simp add: start_topology_def initial_cli_def)
  have "config_ok (topo ?w)"
    by (rule sessions_are_sound [OF _ s w, THEN conjunct1]) (simp add: example_cli_env_def env_ok_example)
  then show ?thesis using s w by blast
qed

end
