(* ===== verification/Session.thy ===== *)
theory Session
  imports Cli
begin

text \<open>
  Commands that follow one another: what showing a node does to the commands after it.
\<close>

section \<open>Showing a node again and again\<close>

lemma get_node_mark [simp]:
  "get_node_by_node_name (mark_loopback n g) nm = get_node_by_node_name g nm"
  by (simp add: get_node_by_node_name_def)

lemma show_node_result:
  assumes "cl_topology c = Some w" "config_ok (topo w)" "get_node_by_node_name (topo w) nm = Some n"
  shows "if markable (topo w) n
    then \<exists>s. show_node_handler [(''node-name'', nm)] c = Inr (0, [Printed s], set_graph c w (mark_loopback n (topo w)))
    else show_node_handler [(''node-name'', nm)] c = Inl Out_of_bounds"
  using dump_nw_node_result [OF assms(2) by_name_exists [OF config_ok_wf [OF assms(2)] assms(3)]] assms(1,3)
  by (auto simp: show_node_handler_def with_topology_def with_node_def find_node_def split: if_splits)

fun show_times :: "nat \<Rightarrow> string \<Rightarrow> cli \<Rightarrow> cli res" where
  "show_times 0 nm c = Inr c"
| "show_times (Suc k) nm c =
     rbind (show_node_handler [(''node-name'', nm)] c) (\<lambda>(_, _, c'). show_times k nm c')"

lemma marks_frame [simp]:
  "length (lb_addr (nodes ((mark_loopback n ^^ k) g) n)) = length (lb_addr (nodes g n)) + 3 * k"
  "node_route_table (nodes ((mark_loopback n ^^ k) g) m) = node_route_table (nodes g m)"
  "n_nodes ((mark_loopback n ^^ k) g) = n_nodes g" "iface ((mark_loopback n ^^ k) g) q = iface g q"
  "intf (nodes ((mark_loopback n ^^ k) g) m) = intf (nodes g m)"
  by (induction k) simp_all

lemma config_ok_marked: "config_ok g \<Longrightarrow> config_ok ((mark_loopback n ^^ k) g)"
  by (induction k) (simp_all add: config_ok_mark)

lemma marked_lb: "0 < k \<Longrightarrow> \<exists>s. lb_addr (nodes ((mark_loopback n ^^ k) g) n) = s @ ''/32''"
  by (cases k) auto

lemma show_times_result:
  assumes "cl_topology c = Some w" "config_ok (topo w)" "get_node_by_node_name (topo w) nm = Some n"
    and "length (lb_addr (nodes (topo w) n)) < 16"
  shows "show_times k nm c =
    (if length (lb_addr (nodes (topo w) n)) + 3 * k < 16 then Inr (set_graph c w ((mark_loopback n ^^ k) (topo w)))
     else Inl Out_of_bounds)"
  using assms
proof (induction k arbitrary: c w)
  case 0
  then show ?case by (simp add: set_graph_def)
next
  case (Suc k)
  note r = show_node_result [OF Suc.prems(1-3)]
  show ?case
  proof (cases "markable (topo w) n")
    case True
    let ?w = "w\<lparr>topo := mark_loopback n (topo w)\<rparr>"
    obtain s where s: "show_node_handler [(''node-name'', nm)] c = Inr (0, [Printed s], set_graph c w (topo ?w))"
      using r True by auto
    have "show_times k nm (set_graph c w (topo ?w)) =
        (if length (lb_addr (nodes (topo ?w) n)) + 3 * k < 16
         then Inr (set_graph (set_graph c w (topo ?w)) ?w ((mark_loopback n ^^ k) (topo ?w))) else Inl Out_of_bounds)"
      by (rule Suc.IH) (use Suc.prems True in \<open>simp_all add: set_graph_def config_ok_mark markable_def\<close>)
    then show ?thesis
      using s by (simp add: set_graph_def funpow_swap1)
  next
    case False
    then show ?thesis using r by (simp add: markable_def)
  qed
qed

text \<open>C27: showing a node spoils its loopback address, because the dump appends \<^verbatim>\<open>/32\<close> to it in
  place. The first commands answer and change nothing else, at the latest the third writes
  behind the array. After one of them the node no longer takes packets for its loopback
  address, and sending to a destination without a route never returns, unless there is a
  route to 0.0.0.0.\<close>

theorem show_node_spoils_loopback:
  assumes c: "cl_topology c = Some w" "config_ok (topo w)"
    and n: "get_node_by_node_name (topo w) nm = Some n"
    and lb: "lb_addr (nodes (topo w) n) = inet_ntop a"
  defines "g \<equiv> \<lambda>k. (mark_loopback n ^^ k) (topo w)"
  shows "show_times k nm c =
      (if length (inet_ntop a) + 3 * k < 16 then Inr (set_graph c w (g k)) else Inl Out_of_bounds) \<and>
    (3 \<le> k \<longrightarrow> show_times k nm c = Inl Out_of_bounds) \<and>
    (0 < k \<longrightarrow>
      (is_layer3_local_delivery (g k) n a \<longleftrightarrow>
        (\<exists>q \<in> set (node_intfs (topo w) n). is_ipadd_config (iface (topo w) q) \<and> ip_add (iface (topo w) q) = inet_ntop a)) \<and>
      (\<forall>d fuel E data t.
        l3rib_lookup_lpm (node_route_table (nodes (topo w) n)) d = Inr None \<and>
        l3rib_lookup_lpm (node_route_table (nodes (topo w) n)) 0 = Inr None \<longrightarrow>
        layer3_pkt_receive_from_top fuel E (w\<lparr>topo := g k\<rparr>) n data t d = Inl Out_of_fuel))"
proof (intro conjI impI allI)
  have r: "show_times k nm c =
      (if length (inet_ntop a) + 3 * k < 16 then Inr (set_graph c w (g k)) else Inl Out_of_bounds)"
    using show_times_result [OF c n, of k] length_inet_ntop [of a] unfolding lb g_def by simp
  then show "show_times k nm c =
      (if length (inet_ntop a) + 3 * k < 16 then Inr (set_graph c w (g k)) else Inl Out_of_bounds)" .
  show "show_times k nm c = Inl Out_of_bounds" if "3 \<le> k"
    using r length_inet_ntop_ge [of a] that by simp
  assume k: "0 < k"
  obtain s where s: "lb_addr (nodes (g k) n) = s @ ''/32''" unfolding g_def using marked_lb [OF k] by blast
  have "n < n_nodes (g k)" using by_name_exists [OF config_ok_wf [OF c(2)] n] by (simp add: g_def)
  then show "is_layer3_local_delivery (g k) n a \<longleftrightarrow>
      (\<exists>q \<in> set (node_intfs (topo w) n). is_ipadd_config (iface (topo w) q) \<and> ip_add (iface (topo w) q) = inet_ntop a)"
    using local_delivery_iff [OF config_ok_wf [OF config_ok_marked [OF c(2), of k n]], of n a] s
    by (simp add: g_def node_intfs_def)
  fix d fuel E data t
  assume "l3rib_lookup_lpm (node_route_table (nodes (topo w) n)) d = Inr None \<and>
      l3rib_lookup_lpm (node_route_table (nodes (topo w) n)) 0 = Inr None"
  then show "layer3_pkt_receive_from_top fuel E (w\<lparr>topo := g k\<rparr>) n data t d = Inl Out_of_fuel"
    by (intro no_route_no_end) (simp_all add: loopback_def pton_into_def s, simp_all add: g_def)
qed

lemma show_node_spoils_loopback_witness:
  "show_times 2 ''R1'' example_cli = Inr (set_graph example_cli resolved_world ((mark_loopback 1 ^^ 2) resolved_graph)) \<and>
   show_times 3 ''R1'' example_cli = Inl Out_of_bounds"
proof -
  have l: "length (inet_ntop 0x02020202) = 7" by code_simp
  have t: "topo resolved_world = resolved_graph" by (simp add: resolved_world_def)
  have "cl_topology example_cli = Some resolved_world" by (simp add: example_cli_def)
  moreover have "config_ok (topo resolved_world)" unfolding t by (rule config_ok_resolved)
  moreover have "get_node_by_node_name (topo resolved_world) ''R1'' = Some 1" unfolding t by (rule resolved_names)
  moreover have "lb_addr (nodes (topo resolved_world) 1) = inet_ntop 0x02020202" unfolding t by (rule resolved_graph_sel)
  ultimately show ?thesis
    using show_node_spoils_loopback [of example_cli resolved_world "''R1''" 1 "0x02020202" 2]
      show_node_spoils_loopback [of example_cli resolved_world "''R1''" 1 "0x02020202" 3] l
    by (simp add: t)
qed

section \<open>The terminal over a run of the program\<close>

text \<open>\<^verbatim>\<open>main\<close> up to the shell, and after the shell has returned.\<close>

definition main_start :: "termios option \<Rightarrow> cli" where
  "main_start t = initial_cli\<lparr>cl_term := set_raw_mode \<lparr>tty = t, orig = None\<rparr>\<rparr>"

definition main_end :: "cli \<Rightarrow> cli" where
  "main_end c = c\<lparr>cl_term := restore_mode (cl_term c), cl_running := False\<rparr>"

text \<open>Only the exit command touches the terminal.\<close>

definition same_term :: "cli \<Rightarrow> answer \<Rightarrow> bool" where
  "same_term c a \<longleftrightarrow> (\<forall>r out c'. a = Inr (r, out, c') \<longrightarrow> cl_term c' = cl_term c \<and> cl_running c' = cl_running c)"

lemma same_term_simps [simp]:
  "same_term c (Inr (r, out, c')) \<longleftrightarrow> cl_term c' = cl_term c \<and> cl_running c' = cl_running c"
  "same_term c (Inl e)"
  "cl_term (set_graph c w g) = cl_term c" "cl_running (set_graph c w g) = cl_running c"
  "cl_term (start_topology c g) = cl_term c" "cl_running (start_topology c g) = cl_running c"
  by (simp_all add: same_term_def set_graph_def start_topology_def)

interpretation same_term: answer_invariant "same_term c" "\<lambda>c'. cl_term c' = cl_term c \<and> cl_running c' = cl_running c" for c
  by unfold_locales simp_all

lemmas same_terms = same_term.rbind same_term.with_topology same_term.with_node same_term.with_intf

lemma same_term_callback:
  assumes "f \<noteq> Exit_cb"
  shows "same_term c (run_callback f CE code tlvs c)"
proof (cases f)
  case Exit_cb
  then show ?thesis using assms by simp
next
  case Add_vlan
  show ?thesis
    unfolding Add_vlan run_callback.simps add_vlan_handler_def Let_def
    by (intro same_term.with_topology same_term.more_output) (auto intro!: same_terms)
qed (auto simp: show_nw_topology_handler_def show_saved_topologies_handler_def show_node_handler_def
    show_node_interfaces_def show_arp_handler_def show_mac_handler_def show_mode_handler_def
    show_vlans_handler_def show_route_handler_def show_debug_handler_def config_route_handler_def
    config_debug_handler_def mode_set_handler_def remove_vlan_handler_def
    resolve_arp_handler_def ping_handler_def load_topology_handler_def create_topology_handler_def Let_def
    intro!: same_terms split: option.split prod.split)

definition term_inv :: "termios option \<Rightarrow> cli \<Rightarrow> bool" where
  "term_inv t c \<longleftrightarrow> cl_term c =
     (let s = set_raw_mode \<lparr>tty = t, orig = None\<rparr> in if cl_running c then s else restore_mode s)"

lemma session_step_term:
  assumes "session_step CE c c'" "term_inv t c"
  shows "term_inv t c'"
  using assms(1)
proof cases
  case (command cm vs r out)
  obtain ls f code where cm: "cm = (ls, f, code)" by (cases cm)
  show ?thesis
  proof (cases "f = Exit_cb")
    case True
    then show ?thesis
      using command(1,4) assms(2) by (auto simp: cm invoke_def exit_handler_def term_inv_def split: if_splits)
  next
    case False
    then show ?thesis
      using same_term_callback [OF False, of c CE] command(4) assms(2)
      by (auto simp: cm invoke_def same_term_def term_inv_def)
  qed
qed (use assms(2) in \<open>simp add: term_inv_def\<close>)



end
