(* ===== verification/Path.thy ===== *)
theory Path
  imports Delivery
begin

text \<open>
  Packets that cross several routers: the routes of the nodes as a path of hops, and what
  becomes of a packet on it, in steps of the network.
\<close>

section \<open>Routes as paths\<close>

text \<open>A hop: the interface a node sends on and the node at the other end.\<close>

type_synonym hop = "ifptr \<times> nid"

definition forwards :: "graph \<Rightarrow> nid \<Rightarrow> u32 \<Rightarrow> ifptr \<Rightarrow> bool" where
  "forwards g m d q \<longleftrightarrow>
     (\<exists>r gw. l3rib_lookup_lpm (node_route_table (nodes g m)) d = Inr (Some r) \<and> \<not> is_direct r \<and>
        rt_gw r = inet_ntop gw \<and> get_node_if_by_name g m (rt_oif r) = Some q \<and>
        has_mac g m gw (if_mac (iface g (remote_intf q))))"

definition good_hop :: "graph \<Rightarrow> nid \<Rightarrow> hop \<Rightarrow> bool" where
  "good_hop g n h \<longleftrightarrow> joins g (fst h) n (snd h) \<and> is_ipadd_config (iface g (remote_intf (fst h))) \<and>
     udp_sock_fd (nodes g (snd h)) \<noteq> 0"

text \<open>The hops behind a node that a packet for \<open>d\<close> takes.\<close>

fun route_path :: "graph \<Rightarrow> u32 \<Rightarrow> nid \<Rightarrow> hop list \<Rightarrow> bool" where
  "route_path g d m [] = True"
| "route_path g d m (h # hs) = (forwards g m d (fst h) \<and> good_hop g m h \<and> route_path g d (snd h) hs)"

text \<open>A network in which one IP packet travels on a hop, and nothing else.\<close>

definition carrying :: "world \<Rightarrow> hop \<Rightarrow> bytes \<Rightarrow> ip_hdr \<Rightarrow> bytes \<Rightarrow> world" where
  "carrying w hp s h data =
     w\<lparr>sent := [frame_dgram w (fst hp)
       (ip_frame (if_mac (iface (topo w) (remote_intf (fst hp)))) s (ip_bytes h @ data))]\<rparr>"

lemma carrying_sel [simp]:
  "topo (carrying w hp s h data) = topo w" "reports (carrying w hp s h data) = reports w"
  "(carrying w hp s h data)\<lparr>sent := []\<rparr> = w\<lparr>sent := []\<rparr>"
  by (simp_all add: carrying_def)

declare frame_dgram_sent [simp]

lemma carrying_transmit:
  "transmit (w\<lparr>sent := []\<rparr>) (fst hp) (ip_frame (if_mac (iface (topo w) (remote_intf (fst hp)))) s (ip_bytes h @ data)) =
    carrying w hp s h data"
  by (simp add: transmit_def carrying_def)

text \<open>The node at the end of the hop reads the packet.\<close>

lemma deliver_carried:
  assumes "config_ok (topo w)" "good_hop (topo w) n hp"
    and "node_receive fuel E (w\<lparr>sent := []\<rparr>) (snd hp) (dg_data (frame_dgram w (fst hp)
      (ip_frame (if_mac (iface (topo w) (remote_intf (fst hp)))) s (ip_bytes h @ data)))) = Inr w'"
  shows "net_step fuel E (carrying w hp s h data) w'"
proof (rule net_step.deliver)
  have j: "joins (topo w) (fst hp) n (snd hp)" using assms(2) by (simp add: good_hop_def)
  show "snd hp < n_nodes (topo (carrying w hp s h data))"
    using joins_nodes [OF config_ok_wf [OF assms(1)] j] by simp
  show "take_dgram (node_port (carrying w hp s h data) (snd hp)) (sent (carrying w hp s h data)) =
      Some (dg_data (frame_dgram w (fst hp)
      (ip_frame (if_mac (iface (topo w) (remote_intf (fst hp)))) s (ip_bytes h @ data))), [])"
    using j by (simp add: carrying_def node_port_def frame_dgram_def joins_def get_nbr_node_remote)
qed (use assms in \<open>simp_all add: good_hop_def\<close>)

lemma length_remote_mac:
  assumes "config_ok g" "good_hop g n hp"
  shows "length (if_mac (iface g (remote_intf (fst hp)))) = 6" "length (if_mac (iface g (fst hp))) = 6"
  using assms length_if_mac [OF config_ok_wf [OF assms(1)]] by (simp_all add: good_hop_def joins_def)

text \<open>One router.\<close>

lemma hop_step:
  assumes ok: "config_ok (topo w)" and a: "good_hop (topo w) n hp" and f: "forwards (topo w) (snd hp) (ip_dest h) (fst hq)"
    and q: "good_hop (topo w) (snd hp) hq" and l: "length s = 6" "length data \<le> 1994" and h: "ip_hdr_ok h"
  shows "node_receive (Suc fuel) E (w\<lparr>sent := []\<rparr>) (snd hp) (dg_data (frame_dgram w (fst hp)
      (ip_frame (if_mac (iface (topo w) (remote_intf (fst hp)))) s (ip_bytes h @ data)))) =
    (if TTL h = 1
     then send_icmp_time_exceeded (layer3_pkt_receive_from_top fuel E) (w\<lparr>sent := []\<rparr>) (snd hp) (h\<lparr>TTL := 0\<rparr>)
     else Inr (carrying w hq (if_mac (iface (topo w) (fst hq))) (h\<lparr>TTL := TTL h - 1\<rparr>) data))"
proof -
  let ?w = "w\<lparr>sent := []\<rparr>"
  obtain r gw where r: "l3rib_lookup_lpm (node_route_table (nodes (topo w) (snd hp))) (ip_dest h) = Inr (Some r)"
    "\<not> is_direct r" "rt_gw r = inet_ntop gw" "get_node_if_by_name (topo w) (snd hp) (rt_oif r) = Some (fst hq)"
    "has_mac (topo w) (snd hp) gw (if_mac (iface (topo w) (remote_intf (fst hq))))"
    using f by (auto simp: forwards_def)
  show ?thesis
    using forward_step [of ?w "fst hp" n "snd hp" s data h r gw "fst hq" "if_mac (iface (topo w) (remote_intf (fst hq)))" fuel E]
      ok a r l h length_remote_mac(1) [OF ok q]
    by (simp add: good_hop_def carrying_transmit cong: if_cong)
qed

text \<open>The hop that a packet is on after some routers, and the source address of its frame.\<close>

definition at_hop :: "hop \<Rightarrow> hop list \<Rightarrow> nat \<Rightarrow> hop" where
  "at_hop hp hs k = (hp # hs) ! k"

definition frame_src :: "graph \<Rightarrow> bytes \<Rightarrow> hop \<Rightarrow> hop list \<Rightarrow> nat \<Rightarrow> bytes" where
  "frame_src g s hp hs k = (if k = 0 then s else if_mac (iface g (fst (at_hop hp hs k))))"

lemma route_path_at:
  assumes "route_path g d m hs" "k < length hs"
  shows "forwards g (snd (((q, m) # hs) ! k)) d (fst (hs ! k)) \<and> good_hop g (snd (((q, m) # hs) ! k)) (hs ! k)"
  using assms
proof (induction hs arbitrary: q m k)
  case (Cons h hs)
  show ?case
  proof (cases k)
    case (Suc j)
    then show ?thesis using Cons.IH [of "snd h" j "fst h"] Cons.prems by simp
  qed (use Cons.prems in simp)
qed simp

lemma ip_hdr_ok_TTL [simp]: "ip_hdr_ok (h\<lparr>TTL := t\<rparr>) = ip_hdr_ok h"
  by (simp add: ip_hdr_ok_def)

lemma good_hop_at:
  assumes "good_hop g n hp" "route_path g d (snd hp) hs" "k \<le> length hs"
  shows "\<exists>m. good_hop g m (at_hop hp hs k)"
proof (cases k)
  case (Suc j)
  then show ?thesis
    using route_path_at [OF assms(2), of j "fst hp"] assms(3) by (auto simp: at_hop_def)
qed (use assms(1) in \<open>auto simp: at_hop_def\<close>)

lemma next_hop:
  assumes ok: "config_ok (topo w)" and a: "good_hop (topo w) n hp" and p: "route_path (topo w) (ip_dest h) (snd hp) hs"
    and l: "length s = 6" "length data \<le> 1994" and h: "ip_hdr_ok h" and k: "k < length hs"
  shows "node_receive (Suc fuel) E (w\<lparr>sent := []\<rparr>) (snd (at_hop hp hs k)) (dg_data (frame_dgram w (fst (at_hop hp hs k))
      (ip_frame (if_mac (iface (topo w) (remote_intf (fst (at_hop hp hs k))))) (frame_src (topo w) s hp hs k)
        (ip_bytes (h\<lparr>TTL := t\<rparr>) @ data)))) =
    (if t = 1
     then send_icmp_time_exceeded (layer3_pkt_receive_from_top fuel E) (w\<lparr>sent := []\<rparr>) (snd (at_hop hp hs k)) (h\<lparr>TTL := 0\<rparr>)
     else Inr (carrying w (at_hop hp hs (Suc k)) (frame_src (topo w) s hp hs (Suc k)) (h\<lparr>TTL := t - 1\<rparr>) data))"
proof -
  obtain m where m: "good_hop (topo w) m (at_hop hp hs k)"
    using good_hop_at [OF a p] k by (meson less_imp_le)
  have n: "at_hop hp hs (Suc k) = hs ! k" by (simp add: at_hop_def)
  have src: "length (frame_src (topo w) s hp hs k) = 6"
    using l(1) length_remote_mac(2) [OF ok m] by (simp add: frame_src_def)
  have f: "forwards (topo w) (snd (at_hop hp hs k)) (ip_dest (h\<lparr>TTL := t\<rparr>)) (fst (hs ! k))"
    and q: "good_hop (topo w) (snd (at_hop hp hs k)) (hs ! k)"
    using route_path_at [OF p k, of "fst hp"] by (simp_all add: at_hop_def)
  show ?thesis
    using hop_step [OF ok m f q src l(2)] h by (simp add: n frame_src_def)
qed

lemma reaches_hop:
  assumes ok: "config_ok (topo w)" and a: "good_hop (topo w) n hp" and p: "route_path (topo w) (ip_dest h) (snd hp) hs"
    and l: "length s = 6" "length data \<le> 1994" and h: "ip_hdr_ok h" and k: "k \<le> length hs" "k < unat (TTL h)"
  shows "(net_step (Suc fuel) E)\<^sup>*\<^sup>* (carrying w hp s h data)
    (carrying w (at_hop hp hs k) (frame_src (topo w) s hp hs k) (h\<lparr>TTL := TTL h - of_nat k\<rparr>) data)"
  using k
proof (induction k)
  case 0
  then show ?case by (simp add: at_hop_def frame_src_def)
next
  case (Suc k)
  let ?t = "TTL h - of_nat k"
  have u: "unat ?t = unat (TTL h) - k"
    using Suc.prems(2) unsigned_less [of "TTL h", where 'a = nat]
    by (simp add: unat_sub word_le_nat_alt unat_of_nat)
  have t: "?t \<noteq> 1"
    using Suc.prems(2) u by (metis Suc_lessD add_diff_inverse_nat less_irrefl not_less_eq plus_1_eq_Suc unsigned_1 not_less add.commute)
  obtain m where m: "good_hop (topo w) m (at_hop hp hs k)"
    using good_hop_at [OF a p] Suc.prems(1) by (meson Suc_leD)
  have "net_step (Suc fuel) E
      (carrying w (at_hop hp hs k) (frame_src (topo w) s hp hs k) (h\<lparr>TTL := ?t\<rparr>) data)
      (carrying w (at_hop hp hs (Suc k)) (frame_src (topo w) s hp hs (Suc k)) (h\<lparr>TTL := ?t - 1\<rparr>) data)"
    by (rule deliver_carried [OF ok m]) (use next_hop [OF ok a p l h, of k] Suc.prems(1) t in simp)
  moreover have "?t - 1 = TTL h - of_nat (Suc k)" by simp
  ultimately show ?case
    using Suc.IH Suc.prems by (auto intro: rtranclp.rtrancl_into_rtrancl)
qed

section \<open>Properties\<close>

text \<open>C8: a packet follows the routes: when the routing and ARP tables of the nodes make a path, of
  any length and with loops or not, steps of the network bring the packet to every node of it
  as long as its TTL lasts, with its payload and every header field unchanged but for the TTL,
  which is lower by the number of routers passed. When the path is longer than the TTL, the
  router where it reaches zero drops the packet and reports Time Exceeded to its source, so a
  loop ends after at most 255 hops.\<close>

theorem packet_follows_route:
  assumes ok: "config_ok (topo w)" and a: "good_hop (topo w) n hp"
    and p: "route_path (topo w) (ip_dest h) (snd hp) hs"
    and l: "length s = 6" "length data \<le> 1994" and h: "ip_hdr_ok h" and t: "TTL h \<noteq> 0"
  shows "(\<forall>k. k \<le> length hs \<and> k < unat (TTL h) \<longrightarrow>
      (net_step (Suc fuel) E)\<^sup>*\<^sup>* (carrying w hp s h data)
        (carrying w (at_hop hp hs k) (frame_src (topo w) s hp hs k) (h\<lparr>TTL := TTL h - of_nat k\<rparr>) data)) \<and>
    (unat (TTL h) \<le> length hs \<longrightarrow>
      (let k = unat (TTL h) - 1; m = snd (at_hop hp hs k) in
       \<forall>w'. send_icmp_time_exceeded (layer3_pkt_receive_from_top fuel E) (w\<lparr>sent := []\<rparr>) m (h\<lparr>TTL := 0\<rparr>) = Inr w' \<longrightarrow>
        (net_step (Suc fuel) E)\<^sup>*\<^sup>* (carrying w hp s h data) w'))"
proof (intro conjI impI allI, goal_cases)
  case (1 k)
  then show ?case using reaches_hop [OF ok a p l h] by blast
next
  case 2
  define k where "k = unat (TTL h) - 1"
  have u: "unat (TTL h) = Suc k" using t by (simp add: k_def unat_gt_0)
  have k: "k < length hs" using 2 u by simp
  have one: "TTL h - of_nat k = 1" using u by (metis add_diff_cancel_right' of_nat_Suc of_nat_unat ucast_id add.commute)
  obtain m where m: "good_hop (topo w) m (at_hop hp hs k)"
    using good_hop_at [OF a p] k by (meson less_imp_le)
  have r: "(net_step (Suc fuel) E)\<^sup>*\<^sup>* (carrying w hp s h data)
      (carrying w (at_hop hp hs k) (frame_src (topo w) s hp hs k) (h\<lparr>TTL := TTL h - of_nat k\<rparr>) data)"
    by (rule reaches_hop [OF ok a p l h]) (use k u in simp_all)
  have "net_step (Suc fuel) E (carrying w (at_hop hp hs k) (frame_src (topo w) s hp hs k) (h\<lparr>TTL := 1\<rparr>) data) w'"
    if "send_icmp_time_exceeded (layer3_pkt_receive_from_top fuel E) (w\<lparr>sent := []\<rparr>) (snd (at_hop hp hs k)) (h\<lparr>TTL := 0\<rparr>) = Inr w'"
    for w'
    by (rule deliver_carried [OF ok m]) (use that next_hop [OF ok a p l h k, of fuel E 1] in simp)
  then show ?case
    using r one unfolding Let_def k_def [symmetric] by (auto intro: rtranclp.rtrancl_into_rtrancl)
qed


lemma router_hops:
  "good_hop (topo router_world) 0 ((0, Intf1), 1)" "good_hop (topo router_world) 1 ((0, Intf2), 0)"
  "forwards (topo router_world) 1 0x01010128 (0, Intf2)"
proof -
  have r: "remote_intf (0, Intf1) = (0, Intf2)" "remote_intf (0, Intf2) = (0, Intf1)"
    by (simp_all add: remote_intf_def)
  have fd: "udp_sock_fd (nodes (topo router_world) 0) = 3" "udp_sock_fd (nodes (topo router_world) 1) = 4"
    using example_tables(7,8)
    by (simp_all add: router_world_def resolved_world_def resolved_graph_def host_graph_def with_loopbacks_def del: One_nat_def)
  show "good_hop (topo router_world) 0 ((0, Intf1), 1)" "good_hop (topo router_world) 1 ((0, Intf2), 0)"
    using joins_router joins_sym [OF joins_router] fd
    by (simp_all add: good_hop_def r router_world_sel host_graph_sel del: One_nat_def)
  have "has_mac (topo router_world) 1 0x0101010A (if_mac (iface host_graph (0, Intf1)))"
    using resolved_has_mac(2) by (simp add: has_mac_def router_world_sel)
  then show "forwards (topo router_world) 1 0x01010128 (0, Intf2)"
    unfolding forwards_def r
    using example_route_lookup router_by_name
    by (intro exI [of _ example_route] exI [of _ "0x0101010A"]) (simp add: example_route_def router_world_sel)
qed

lemma packet_follows_route_witness:
  "let h = (top_hdr ICMP_PROTO 0x01010128 0x0101010A 0)\<lparr>TTL := 9\<rparr> in
   (net_step (Suc 0) example_env)\<^sup>*\<^sup>* (carrying router_world ((0, Intf1), 1) (zeros 6) h [])
     (carrying router_world ((0, Intf2), 0) (if_mac (iface (topo router_world) (0, Intf2))) (h\<lparr>TTL := 8\<rparr>) [])"
proof -
  let ?h = "(top_hdr ICMP_PROTO 0x01010128 0x0101010A 0)\<lparr>TTL := 9\<rparr>"
  have h: "ip_hdr_ok ?h" using top_hdr_ok by simp
  have t: "TTL ?h \<noteq> 0" by simp
  have p: "route_path (topo router_world) (ip_dest ?h) (snd ((0, Intf1), 1)) [((0, Intf2), 0)]"
    using router_hops by simp
  have l: "length (zeros 6) = 6" "length ([] :: bytes) \<le> 1994" by simp_all
  have u: "(1 :: nat) < unat (TTL ?h)" by simp
  have "(net_step (Suc 0) example_env)\<^sup>*\<^sup>* (carrying router_world ((0, Intf1), 1) (zeros 6) ?h [])
     (carrying router_world (at_hop ((0, Intf1), 1) [((0, Intf2), 0)] 1)
       (frame_src (topo router_world) (zeros 6) ((0, Intf1), 1) [((0, Intf2), 0)] 1) (?h\<lparr>TTL := TTL ?h - of_nat 1\<rparr>) [])"
    using packet_follows_route [OF config_ok_router router_hops(1) p l h t, of 0 example_env, THEN conjunct1,
        THEN spec, of 1] u by simp
  then show ?thesis by (simp add: at_hop_def frame_src_def)
qed

end
