(* ===== verification/Receiver.thy ===== *)
theory Receiver
  imports Traffic
begin

text \<open>
  The receiver thread (\<^verbatim>\<open>_network_start_pkt_receiver_thread\<close> of \<^verbatim>\<open>src/communications.c\<close>): the set of
  sockets it watches, a round of its loop, and its rounds in turn with what the other thread
  does. A set of descriptors is a set of numbers; \<^verbatim>\<open>select\<close> answers with the watched ones at
  whose socket a datagram waits.
\<close>

section \<open>The thread\<close>

text \<open>\<^verbatim>\<open>FD_SET\<close> writes into a bit array of 1024 descriptors.\<close>

definition FD_SETSIZE :: int where "FD_SETSIZE = 1024"

fun watch_loop :: "graph \<Rightarrow> nid list \<Rightarrow> int \<Rightarrow> int set \<Rightarrow> (int \<times> int set) res" where
  "watch_loop g [] sock_max_fd fds = Inr (sock_max_fd, fds)"
| "watch_loop g (n # ns) sock_max_fd fds =
     (let fd = udp_sock_fd (nodes g n) in
      if fd = 0 then watch_loop g ns sock_max_fd fds
      else if fd < 0 \<or> FD_SETSIZE \<le> fd then Inl Out_of_bounds
      else watch_loop g ns (if fd > sock_max_fd then fd else sock_max_fd) (insert fd fds))"

definition receiver_start :: "graph \<Rightarrow> (int \<times> int set) res" where
  "receiver_start g = watch_loop g (node_list g) 0 {}"

definition select_fds :: "world \<Rightarrow> int \<Rightarrow> int set \<Rightarrow> int set" where
  "select_fds w nfds fds =
     {fd \<in> fds. fd < nfds \<and> (\<exists>n \<in> set (node_list (topo w)). udp_sock_fd (nodes (topo w) n) = fd \<and>
        take_dgram (node_port w n) (sent w) \<noteq> None)}"

text \<open>
  One pass over the nodes. A \<^verbatim>\<open>recvfrom\<close> at an empty socket waits and ends the pass here; the
  lemmas below show that this does not happen.
\<close>

fun receive_loop :: "nat \<Rightarrow> env \<Rightarrow> int set \<Rightarrow> nid list \<Rightarrow> world \<Rightarrow> world res" where
  "receive_loop fuel E active [] w = Inr w"
| "receive_loop fuel E active (n # ns) w =
     (if udp_sock_fd (nodes (topo w) n) \<in> active then
        (case take_dgram (node_port w n) (sent w) of
           None \<Rightarrow> Inr w
         | Some (data, rest) \<Rightarrow>
             rbind (node_receive fuel E (w\<lparr>sent := rest\<rparr>) n data) (receive_loop fuel E active ns))
      else receive_loop fuel E active ns w)"

definition receiver_round :: "nat \<Rightarrow> env \<Rightarrow> int \<times> int set \<Rightarrow> world \<Rightarrow> world res" where
  "receiver_round fuel E watched w =
     (case watched of (sock_max_fd, fds) \<Rightarrow>
        receive_loop fuel E (select_fds w (sock_max_fd + 1) fds) (node_list (topo w)) w)"

text \<open>What the thread relies on stays while configuration and traffic go on: nodes, sockets and ports.\<close>

definition same_sockets :: "graph \<Rightarrow> graph \<Rightarrow> bool" where
  "same_sockets g g' \<longleftrightarrow> node_list g' = node_list g \<and> n_nodes g' = n_nodes g \<and>
     (\<forall>n. udp_sock_fd (nodes g' n) = udp_sock_fd (nodes g n) \<and>
        udp_port_number (nodes g' n) = udp_port_number (nodes g n))"

text \<open>
  The loop, by the number of its rounds. Between two rounds the thread of the command line may
  run: it may send, report, and change tables and configuration, but not the sockets.
\<close>

inductive receiver_run :: "nat \<Rightarrow> env \<Rightarrow> int \<times> int set \<Rightarrow> nat \<Rightarrow> world \<Rightarrow> world \<Rightarrow> bool"
  for fuel :: nat and E :: env and watched :: "int \<times> int set" where
  start: "receiver_run fuel E watched 0 w w"
| round: "receiver_run fuel E watched k w w1 \<Longrightarrow> receiver_round fuel E watched w1 = Inr w2 \<Longrightarrow>
    receiver_run fuel E watched (Suc k) w w2"
| commands: "receiver_run fuel E watched k w w1 \<Longrightarrow> same_sockets (topo w1) (topo w2) \<Longrightarrow> appends w1 w2 \<Longrightarrow>
    receiver_run fuel E watched k w w2"


section \<open>The queues of the sockets\<close>

definition queue :: "world \<Rightarrow> nid \<Rightarrow> bytes list" where
  "queue w n = map dg_data (filter (\<lambda>dg. dport dg = node_port w n) (sent w))"

lemma take_dgram_None: "take_dgram port dgs = None \<longleftrightarrow> filter (\<lambda>dg. dport dg = port) dgs = []"
  by (induction dgs) auto

lemma take_dgram_Some:
  "take_dgram port dgs = Some (data, rest) \<Longrightarrow>
    map dg_data (filter (\<lambda>dg. dport dg = port) dgs) =
      data # map dg_data (filter (\<lambda>dg. dport dg = port) rest) \<and>
    (port' \<noteq> port \<longrightarrow> filter (\<lambda>dg. dport dg = port') rest = filter (\<lambda>dg. dport dg = port') dgs)"
  by (induction dgs arbitrary: rest) (auto split: if_splits)

lemma waiting_iff: "take_dgram (node_port w n) (sent w) \<noteq> None \<longleftrightarrow> queue w n \<noteq> []"
  by (simp add: queue_def take_dgram_None)

lemma queue_taken:
  assumes "take_dgram (node_port w n) (sent w) = Some (data, rest)"
  shows "queue w n = data # queue (w\<lparr>sent := rest\<rparr>) n"
    and "node_port w m \<noteq> node_port w n \<Longrightarrow> queue (w\<lparr>sent := rest\<rparr>) m = queue w m"
  using take_dgram_Some [OF assms] by (simp_all add: queue_def node_port_def)

lemma same_sockets_trans: "same_sockets g g1 \<Longrightarrow> same_sockets g1 g2 \<Longrightarrow> same_sockets g g2"
  by (simp add: same_sockets_def)

lemma same_config_sockets:
  assumes "same_config g g'"
  shows "same_sockets g g'"
proof -
  have "erase_tables (nodes g' n) = erase_tables (nodes g n)" for n
    using assms by (simp add: same_config_def)
  from arg_cong [OF this, of udp_port_number] arg_cong [OF this, of udp_sock_fd] show ?thesis
    using assms by (simp add: same_sockets_def same_config_def erase_tables_def)
qed

lemma keeps_sockets: "keeps w w' \<Longrightarrow> same_sockets (topo w) (topo w')"
  by (simp add: keeps_def same_config_sockets)

lemma queue_appends:
  assumes "same_sockets (topo w) (topo w')" "appends w w'"
  shows "\<exists>ys. queue w' n = queue w n @ ys"
  using assms by (auto simp: queue_def appends_def same_sockets_def node_port_def)

text \<open>
  The operating system gives every socket a descriptor of its own; ports are distinct as long as
  the 16 bits that are left of the counter do not repeat.
\<close>

definition sockets_ok :: "graph \<Rightarrow> bool" where
  "sockets_ok g \<longleftrightarrow> node_list g = rev [0..<n_nodes g] \<and>
     inj_on (\<lambda>n. udp_sock_fd (nodes g n)) {n. n < n_nodes g \<and> udp_sock_fd (nodes g n) \<noteq> 0} \<and>
     inj_on (\<lambda>n. ucast (udp_port_number (nodes g n)) :: u16) {..<n_nodes g}"

lemma same_sockets_ok: "same_sockets g g' \<Longrightarrow> sockets_ok g' = sockets_ok g"
  by (simp add: same_sockets_def sockets_ok_def)

lemma other_port:
  "sockets_ok (topo w) \<Longrightarrow> n < n_nodes (topo w) \<Longrightarrow> m < n_nodes (topo w) \<Longrightarrow> m \<noteq> n \<Longrightarrow> node_port w m \<noteq> node_port w n"
  by (auto simp: sockets_ok_def node_port_def dest: inj_onD)


section \<open>One round\<close>

lemma node_receive_queues:
  assumes E: "env_ok E" "flight.calm E" and ok: "sockets_ok (topo w)" and n: "n < n_nodes (topo w)"
    and t: "take_dgram (node_port w n) (sent w) = Some (data, rest)"
    and r: "node_receive fuel E (w\<lparr>sent := rest\<rparr>) n data = Inr w'"
  shows "same_sockets (topo w) (topo w')" "queue w n = data # tl (queue w n)"
    "m < n_nodes (topo w) \<Longrightarrow> \<exists>ys. queue w' m = (if m = n then tl (queue w m) else queue w m) @ ys"
proof -
  have "same_sockets (topo (w\<lparr>sent := rest\<rparr>)) (topo w')"
    using cfg.ev_node_receive [OF _ r] E(1) by (intro keeps_sockets) simp
  then show s: "same_sockets (topo w) (topo w')" by simp
  show "queue w n = data # tl (queue w n)" using queue_taken(1) [OF t] by simp
  assume m: "m < n_nodes (topo w)"
  obtain ys where "queue w' m = queue (w\<lparr>sent := rest\<rparr>) m @ ys"
    using queue_appends [OF _ flight.ev_node_receive [OF E(2) r]] s by auto
  then show "\<exists>ys. queue w' m = (if m = n then tl (queue w m) else queue w m) @ ys"
    using queue_taken [OF t] other_port [OF ok n m] by auto
qed

lemma receive_loop_steps:
  assumes E: "env_ok E" "flight.calm E"
  shows "sockets_ok (topo w) \<Longrightarrow> distinct ns \<Longrightarrow> set ns \<subseteq> {..<n_nodes (topo w)} \<Longrightarrow> 0 \<notin> active \<Longrightarrow>
    \<forall>n \<in> set ns. udp_sock_fd (nodes (topo w) n) \<in> active \<longrightarrow> queue w n \<noteq> [] \<Longrightarrow>
    receive_loop fuel E active ns w = Inr w' \<Longrightarrow>
    (net_step fuel E ^^ length (filter (\<lambda>n. udp_sock_fd (nodes (topo w) n) \<in> active) ns)) w w' \<and>
    same_sockets (topo w) (topo w') \<and>
    (\<forall>m < n_nodes (topo w). \<exists>ys. queue w' m =
      (if m \<in> set ns \<and> udp_sock_fd (nodes (topo w) m) \<in> active then tl (queue w m) else queue w m) @ ys)"
proof (induction ns arbitrary: w)
  case Nil
  then show ?case by (simp add: same_sockets_def)
next
  case (Cons n ns)
  note ok = Cons.prems(1)
  have n: "n < n_nodes (topo w)" and ns: "distinct ns" "n \<notin> set ns" "set ns \<subseteq> {..<n_nodes (topo w)}"
    using Cons.prems(2,3) by auto
  show ?case
  proof (cases "udp_sock_fd (nodes (topo w) n) \<in> active")
    case False
    then show ?thesis using Cons.IH [OF ok ns(1,3) Cons.prems(4)] Cons.prems(5,6) by auto
  next
    case True
    then have "queue w n \<noteq> []" using Cons.prems(5) by simp
    then obtain data rest where t: "take_dgram (node_port w n) (sent w) = Some (data, rest)"
      using waiting_iff [of w n] by auto
    obtain w1 where r: "node_receive fuel E (w\<lparr>sent := rest\<rparr>) n data = Inr w1"
      and l: "receive_loop fuel E active ns w1 = Inr w'"
      using Cons.prems(6) True t by (auto simp: rbind_eq_Inr)
    note q = node_receive_queues [OF E ok n t r]
    have fd: "udp_sock_fd (nodes (topo w1) m) = udp_sock_fd (nodes (topo w) m)" "n_nodes (topo w1) = n_nodes (topo w)" for m
      using q(1) by (simp_all add: same_sockets_def)
    have "udp_sock_fd (nodes (topo w) n) \<noteq> 0" using True Cons.prems(4) by metis
    then have step: "net_step fuel E w w1" by (intro net_step.deliver [OF n _ t r])
    have "\<forall>m \<in> set ns. udp_sock_fd (nodes (topo w1) m) \<in> active \<longrightarrow> queue w1 m \<noteq> []"
    proof (intro ballI impI)
      fix m assume m: "m \<in> set ns" "udp_sock_fd (nodes (topo w1) m) \<in> active"
      then have "queue w m \<noteq> []" "m \<noteq> n" "m < n_nodes (topo w)" using Cons.prems(5) ns fd by auto
      then show "queue w1 m \<noteq> []" using q(3) [of m] by auto
    qed
    from Cons.IH [OF _ ns(1) _ Cons.prems(4) this l] q(1) ok ns(3)
    have ih: "(net_step fuel E ^^ length (filter (\<lambda>n. udp_sock_fd (nodes (topo w) n) \<in> active) ns)) w1 w'"
      "same_sockets (topo w1) (topo w')"
      "\<And>m. m < n_nodes (topo w) \<Longrightarrow> \<exists>ys. queue w' m =
        (if m \<in> set ns \<and> udp_sock_fd (nodes (topo w) m) \<in> active then tl (queue w1 m) else queue w1 m) @ ys"
      by (auto simp: same_sockets_ok fd)
    have "\<exists>ys. queue w' m = (if m \<in> set (n # ns) \<and> udp_sock_fd (nodes (topo w) m) \<in> active
        then tl (queue w m) else queue w m) @ ys" if m: "m < n_nodes (topo w)" for m
    proof -
      obtain ys zs where "queue w1 m = (if m = n then tl (queue w m) else queue w m) @ ys"
        "queue w' m = (if m \<in> set ns \<and> udp_sock_fd (nodes (topo w) m) \<in> active then tl (queue w1 m) else queue w1 m) @ zs"
        using q(3) [OF m] ih(3) [OF m] by blast
      then show ?thesis using True ns(2) Cons.prems(5) by auto
    qed
    then show ?thesis
      using True step ih(1) same_sockets_trans [OF q(1) ih(2)] relpowp_Suc_I2 [OF step ih(1)] by simp
  qed
qed

text \<open>What the thread watches, and when \<^verbatim>\<open>select\<close> answers.\<close>

lemma watch_loop_result:
  "watch_loop g ns mx fds = Inr (mx', fds') \<Longrightarrow>
    fds' = fds \<union> {udp_sock_fd (nodes g n) | n. n \<in> set ns \<and> udp_sock_fd (nodes g n) \<noteq> 0}"
  by (induction ns arbitrary: mx fds) (auto simp: Let_def split: if_splits)

lemma watch_loop_max:
  "watch_loop g ns mx fds = Inr (mx', fds') \<Longrightarrow> \<forall>fd \<in> fds. fd \<le> mx \<Longrightarrow> \<forall>fd \<in> fds'. fd \<le> mx'"
proof (induction ns arbitrary: mx fds)
  case (Cons n ns)
  let ?fd = "udp_sock_fd (nodes g n)"
  show ?case
  proof (cases "?fd = 0")
    case False
    then have "watch_loop g ns (if ?fd > mx then ?fd else mx) (insert ?fd fds) = Inr (mx', fds')"
      using Cons.prems(1) by (auto simp: Let_def split: if_splits)
    then show ?thesis by (rule Cons.IH) (use Cons.prems(2) in auto)
  qed (use Cons in simp)
qed simp

lemma receiver_start_result:
  assumes "sockets_ok g" "receiver_start g = Inr (mx, fds)"
  shows "fds = {udp_sock_fd (nodes g n) | n. n < n_nodes g \<and> udp_sock_fd (nodes g n) \<noteq> 0}"
    and "\<forall>fd \<in> fds. fd < mx + 1"
  using watch_loop_result [OF assms(2) [unfolded receiver_start_def]]
    watch_loop_max [OF assms(2) [unfolded receiver_start_def]] assms(1)
  by (auto simp: sockets_ok_def)

lemma receiver_start_same: "same_sockets g g' \<Longrightarrow> receiver_start g' = receiver_start g"
proof -
  assume s: "same_sockets g g'"
  then have "watch_loop g' ns mx fds = watch_loop g ns mx fds" for ns mx fds
    by (induction ns arbitrary: mx fds) (simp_all add: same_sockets_def Let_def)
  then show ?thesis using s by (simp add: receiver_start_def same_sockets_def)
qed

definition watched_node :: "world \<Rightarrow> nid \<Rightarrow> bool" where
  "watched_node w n \<longleftrightarrow> n < n_nodes (topo w) \<and> udp_sock_fd (nodes (topo w) n) \<noteq> 0"

lemma select_iff:
  assumes "sockets_ok (topo w)" "receiver_start (topo w) = Inr (mx, fds)"
    and n: "n < n_nodes (topo w)"
  shows "udp_sock_fd (nodes (topo w) n) \<in> select_fds w (mx + 1) fds \<longleftrightarrow> watched_node w n \<and> queue w n \<noteq> []"
proof -
  let ?fd = "\<lambda>m. udp_sock_fd (nodes (topo w) m)"
  note f = receiver_start_result [OF assms(1,2)]
  have nl: "set (node_list (topo w)) = {..<n_nodes (topo w)}" using assms(1) by (auto simp: sockets_ok_def)
  have watched: "?fd n \<in> fds \<longleftrightarrow> watched_node w n" using f(1) n by (auto simp: watched_node_def)
  have same: "m = n" if "m < n_nodes (topo w)" "?fd m = ?fd n" "watched_node w n" for m
    using assms(1) that by (auto simp: sockets_ok_def watched_node_def dest: inj_onD)
  have "?fd n \<in> select_fds w (mx + 1) fds \<longleftrightarrow>
      watched_node w n \<and> (\<exists>m < n_nodes (topo w). ?fd m = ?fd n \<and> queue w m \<noteq> [])"
    using f(2) watched nl by (auto simp: select_fds_def waiting_iff simp del: not_None_eq)
  then show ?thesis using same n by blast
qed

lemma round_steps:
  assumes E: "env_ok E" "flight.calm E" and ok: "sockets_ok (topo w)"
    and st: "receiver_start (topo w) = Inr watched" and r: "receiver_round fuel E watched w = Inr w'"
  shows "(net_step fuel E ^^ card {n. watched_node w n \<and> queue w n \<noteq> []}) w w'"
    and "same_sockets (topo w) (topo w')"
    and "\<And>n. watched_node w n \<Longrightarrow> \<exists>ys. queue w' n = tl (queue w n) @ ys"
proof -
  obtain mx fds where f: "watched = (mx, fds)" by (cases watched)
  let ?active = "select_fds w (mx + 1) fds" and ?ns = "node_list (topo w)"
  have ns: "set ?ns = {..<n_nodes (topo w)}" "distinct ?ns" using ok by (auto simp: sockets_ok_def)
  note sel = select_iff [OF ok st [unfolded f]]
  have zero: "0 \<notin> ?active" using receiver_start_result(1) [OF ok st [unfolded f]] by (auto simp: select_fds_def)
  have "length (filter (\<lambda>n. udp_sock_fd (nodes (topo w) n) \<in> ?active) ?ns) =
      card (set (filter (\<lambda>n. udp_sock_fd (nodes (topo w) n) \<in> ?active) ?ns))"
    by (rule distinct_card [symmetric]) (simp add: ns(2))
  moreover have "set (filter (\<lambda>n. udp_sock_fd (nodes (topo w) n) \<in> ?active) ?ns) =
      {n. watched_node w n \<and> queue w n \<noteq> []}"
    using ns(1) sel by (auto simp: watched_node_def)
  moreover note receive_loop_steps [OF E ok ns(2) _ zero _ r [unfolded receiver_round_def f prod.case]]
  ultimately show "(net_step fuel E ^^ card {n. watched_node w n \<and> queue w n \<noteq> []}) w w'"
    "same_sockets (topo w) (topo w')"
    "\<And>n. watched_node w n \<Longrightarrow> \<exists>ys. queue w' n = tl (queue w n) @ ys"
    using ns(1) sel by (auto simp: watched_node_def split: if_splits)
qed



section \<open>All rounds\<close>

lemma watched_node_same: "same_sockets (topo w) (topo w') \<Longrightarrow> watched_node w' = watched_node w"
  by (simp add: watched_node_def same_sockets_def fun_eq_iff)

lemma run_queues:
  assumes "receiver_run fuel E watched k w w'" "env_ok E" "flight.calm E"
    and "sockets_ok (topo w)" "receiver_start (topo w) = Inr watched"
  shows "same_sockets (topo w) (topo w') \<and>
    (\<forall>n. watched_node w n \<longrightarrow> (\<exists>ys. queue w' n = drop k (queue w n) @ ys))"
  using assms
proof (induction rule: receiver_run.induct)
  case (start w)
  then show ?case by (simp add: same_sockets_def)
next
  case (round k w w1 w2)
  then have ih: "same_sockets (topo w) (topo w1)"
    "\<And>n. watched_node w n \<Longrightarrow> \<exists>ys. queue w1 n = drop k (queue w n) @ ys" by auto
  have "sockets_ok (topo w1)" "receiver_start (topo w1) = Inr watched"
    using same_sockets_ok [OF ih(1)] receiver_start_same [OF ih(1)] round.prems(3,4) by simp_all
  note r = round_steps [OF round.prems(1,2) this round.hyps(2)]
  have "\<exists>ys. queue w2 n = drop (Suc k) (queue w n) @ ys" if n: "watched_node w n" for n
  proof -
    obtain ys zs where "queue w1 n = drop k (queue w n) @ ys" "queue w2 n = tl (queue w1 n) @ zs"
      using ih(2) [OF n] r(3) [of n] n watched_node_same [OF ih(1)] by auto
    then show ?thesis by (cases "drop k (queue w n)") (auto simp: drop_Suc drop_tl)
  qed
  then show ?case using same_sockets_trans [OF ih(1) r(2)] by blast
next
  case (commands k w w1 w2)
  then have ih: "same_sockets (topo w) (topo w1)"
    "\<And>n. watched_node w n \<Longrightarrow> \<exists>ys. queue w1 n = drop k (queue w n) @ ys" by auto
  have "\<exists>ys. queue w2 n = drop k (queue w n) @ ys" if "watched_node w n" for n
    using ih(2) [OF that] queue_appends [OF commands.hyps(2,3), of n] by auto
  then show ?case using same_sockets_trans [OF ih(1) commands.hyps(2)] by blast
qed



section \<open>Ports\<close>

text \<open>The ports of the nodes of a topology are consecutive, in the order of creation.\<close>

definition ports_consecutive :: "graph \<Rightarrow> bool" where
  "ports_consecutive g \<longleftrightarrow>
     (\<forall>n < n_nodes g. udp_port_number (nodes g n) = udp_counter g - of_nat (n_nodes g - Suc n))"

lemma ports_upd_iface: "nodes (upd_iface g p f) = nodes g" "n_nodes (upd_iface g p f) = n_nodes g"
    "udp_counter (upd_iface g p f) = udp_counter g"
  by (cases "(g, p, f)" rule: upd_iface.cases; simp)+

lemma ports_step: "config_step g g' \<Longrightarrow> ports_consecutive g \<Longrightarrow> ports_consecutive g'"
proof (induction rule: config_step.induct)
  case (create g nm sock n g')
  note r = create_graph_node_result [OF create.hyps(1)]
  show ?case
    unfolding ports_consecutive_def
  proof (intro allI impI)
    fix m assume m: "m < n_nodes g'"
    show "udp_port_number (nodes g' m) = udp_counter g' - of_nat (n_nodes g' - Suc m)"
    proof (cases "m = n")
      case False
      then have "m < n_nodes g" using m r(1,2) by simp
      moreover from this have "n_nodes g - m = Suc (n_nodes g - Suc m)" by simp
      ultimately show ?thesis
        using create.prems r(2,11) r(6) [OF False] by (simp add: ports_consecutive_def)
    qed (use r in simp)
  qed
next
  case (set_ip n g m ip nm b g')
  then show ?case
    by (auto simp: node_set_intf_ip_address_def ports_consecutive_def ports_upd_iface rbind_eq_Inr split: option.splits)
qed (auto simp: ports_consecutive_def insert_link_between_two_nodes_def set_slot_def node_set_loopback_address_def
    node_unset_intf_ip_address_def node_set_intf_l2_mode_def node_set_intf_vlan_membership_def on_named_intf_def
    node_remove_vlan_membership_def set_node_debug_status_def ports_upd_iface rbind_eq_Inr Let_def
    split: option.splits if_splits)

lemma configured_ports: "configured g \<Longrightarrow> ports_consecutive g"
proof -
  assume "configured g"
  then obtain k nm where "config_step\<^sup>*\<^sup>* (fresh_graph k nm) g" by (auto simp: configured_def)
  then show ?thesis
  proof (induction rule: rtranclp_induct)
    case base
    show ?case by (simp add: ports_consecutive_def)
  qed (rule ports_step)
qed

text \<open>The port that is bound is the counter reduced to 16 bits.\<close>

lemma ucast_minus: "(ucast (a - b :: u32) :: u16) = ucast a - ucast b"
proof transfer
  fix a b :: int
  have "take_bit 16 (take_bit 32 a - take_bit 32 b) = take_bit 16 (take_bit 16 (take_bit 32 a) - take_bit 16 (take_bit 32 b))"
    by (rule take_bit_diff [symmetric])
  then show "take_bit LENGTH(16) (take_bit LENGTH(32) (a - b)) =
      take_bit LENGTH(16) (take_bit LENGTH(32) a - take_bit LENGTH(32) b)"
    by (simp add: take_bit_diff)
qed

lemma ucast_of_nat16: "(ucast (of_nat k :: u32) :: u16) = of_nat k"
  by transfer (simp add: take_bit_of_nat)

lemma distinct_ports:
  assumes "ports_consecutive g" "n_nodes g \<le> 65536"
  shows "inj_on (\<lambda>n. ucast (udp_port_number (nodes g n)) :: u16) {..<n_nodes g}"
proof (rule inj_onI)
  fix m n assume m: "m \<in> {..<n_nodes g}" and n: "n \<in> {..<n_nodes g}"
    and e: "(ucast (udp_port_number (nodes g m)) :: u16) = ucast (udp_port_number (nodes g n))"
  have p: "(ucast (udp_port_number (nodes g k)) :: u16) = ucast (udp_counter g) - of_nat (n_nodes g - Suc k)"
    if "k \<in> {..<n_nodes g}" for k
  proof -
    have "udp_port_number (nodes g k) = udp_counter g - of_nat (n_nodes g - Suc k)"
      using assms(1) that unfolding ports_consecutive_def by blast
    then show ?thesis by (simp only: ucast_minus ucast_of_nat16)
  qed
  have "(of_nat (n_nodes g - Suc m) :: u16) = of_nat (n_nodes g - Suc n)"
    using e unfolding p [OF m] p [OF n] by (simp del: of_nat_diff)
  then have "n_nodes g - Suc m = n_nodes g - Suc n"
    using assms(2) m n by (simp del: of_nat_diff add: word_of_nat_eq_iff take_bit_nat_eq_self)
  then show "m = n" using m n by auto
qed

definition distinct_sockets :: "graph \<Rightarrow> bool" where
  "distinct_sockets g \<longleftrightarrow>
     inj_on (\<lambda>n. udp_sock_fd (nodes g n)) {n. n < n_nodes g \<and> udp_sock_fd (nodes g n) \<noteq> 0}"

lemma configured_sockets:
  assumes "configured g" "n_nodes g \<le> 65536" "distinct_sockets g"
  shows "sockets_ok g"
  using distinct_ports [OF configured_ports [OF assms(1)] assms(2)] assms(3)
    config_ok_wf [OF configured_ok [OF assms(1)]]
  by (simp add: sockets_ok_def distinct_sockets_def graph_wf_def)

lemma traffic_sockets:
  assumes "configured g" "n_nodes g \<le> 65536" "distinct_sockets g" "same_config g (topo w)"
    and "receiver_start g = Inr watched"
  shows "sockets_ok (topo w)" "receiver_start (topo w) = Inr watched"
proof -
  have "same_sockets g (topo w)" using same_config_sockets [OF assms(4)] .
  then show "sockets_ok (topo w)" "receiver_start (topo w) = Inr watched"
    using same_sockets_ok configured_sockets [OF assms(1-3)] receiver_start_same assms(5) by simp_all
qed



section \<open>Properties\<close>

text \<open>A network of two nodes with a datagram for the second.\<close>

definition waiting_world :: world where
  "waiting_world = example_world\<lparr>sent :=
     [\<lparr>dport = ucast (udp_port_number (nodes example_graph 1)), dg_data = []\<rparr>]\<rparr>"

lemma example_sockets: "distinct_sockets example_graph" "receiver_start example_graph = Inr (4, {3, 4})"
proof -
  have "inj_on (\<lambda>n. udp_sock_fd (nodes example_graph n)) {n. n < 2}"
    using example_tables(7,8) by (auto simp: inj_on_def less_2_cases_iff)
  then show "distinct_sockets example_graph"
    unfolding distinct_sockets_def by (rule inj_on_subset) (auto simp: graph_wf_example)
  have "node_list example_graph = [1, 0]"
    using graph_wf_example(1,2) by (simp add: graph_wf_def upt_rec)
  then show "receiver_start example_graph = Inr (4, {3, 4})"
    using example_tables(7,8) by (simp add: receiver_start_def FD_SETSIZE_def insert_commute)
qed

lemma waiting_round: "receiver_round 0 example_env (4, {3, 4}) waiting_world = Inr example_world"
proof -
  let ?p = "ucast (udp_port_number (nodes example_graph 1)) :: u16"
  have nl: "node_list example_graph = [1, 0]"
    using graph_wf_example(1,2) by (simp add: graph_wf_def upt_rec)
  have "inj_on (\<lambda>n. ucast (udp_port_number (nodes example_graph n)) :: u16) {..<2}"
    using distinct_ports [OF configured_ports [OF configured_example]] by (simp add: graph_wf_example)
  then have p: "ucast (udp_port_number (nodes example_graph 0)) \<noteq> ?p"
    by (auto simp del: One_nat_def dest: inj_onD [where x = 0 and y = 1])
  have if1: "get_node_if_by_name example_graph 1 [] = None"
    using graph_wf_node [OF graph_wf_example(1), of 1]
    by (simp add: get_node_if_by_name_find node_intfs_example graph_wf_example del: One_nat_def)
  have "text_of (zeros MAX_PACKET_BUFFER_SIZE) = []"
    by (simp add: text_of_def cstr_def zeros_def MAX_PACKET_BUFFER_SIZE_def takeWhile_eq_Nil_iff)
  then have "node_receive 0 example_env example_world 1 [] = Inr example_world"
    using if1 example_tables(3) [of 1]
    by (simp add: node_receive_def recv_buffer_def pkt_receive_def example_world_def)
  then show ?thesis
    using nl p example_tables(7,8)
    by (simp add: receiver_round_def waiting_world_def select_fds_def node_port_def example_world_def)
qed



text \<open>C25: no node starves and no datagram is overtaken: whatever is sent and configured meanwhile, after
  \<open>k\<close> rounds of the receiver thread exactly the \<open>k\<close> oldest of the datagrams that waited at a
  node's socket are gone, and what arrived since is behind the rest.\<close>

theorem every_datagram_is_received:
  assumes "env_ok E" and "\<And>v. appends v (asleep E v)"
    and "configured g" "n_nodes g \<le> 65536" "distinct_sockets g" "receiver_start g = Inr watched"
    and "same_config g (topo w)" and "receiver_run fuel E watched k w w'" and "watched_node w n"
  shows "\<exists>ys. queue w' n = drop k (queue w n) @ ys"
  using run_queues [OF assms(8,1) _ traffic_sockets [OF assms(3,4,5,7,6)]] assms(2,9)
  by (simp add: flight.calm_def)

lemma every_datagram_is_received_witness:
  "\<exists>ys. queue example_world 1 = drop 1 (queue waiting_world 1) @ ys"
proof -
  have r: "receiver_run 0 example_env (4, {3, 4}) 1 waiting_world example_world"
    using receiver_run.round [OF receiver_run.start waiting_round] by simp
  show ?thesis
    by (rule every_datagram_is_received
        [OF env_ok_example _ configured_example _ example_sockets _ r])
      (simp_all add: graph_wf_example waiting_world_def example_world_def example_env_def appends_def
        watched_node_def example_tables del: One_nat_def)
qed

end
