(* ===== verification/Pinging.thy ===== *)
theory Pinging
  imports Session Path Receiver
begin

text \<open>
  Commands and network together: what resolving the address of a neighbour and pinging it do,
  from the commands over the steps of the network to the report.
\<close>

section \<open>Pinging a neighbour\<close>

text \<open>The datagrams of an echo message and of its reply between neighbours.\<close>

definition echo_dgram :: "world \<Rightarrow> ifptr \<Rightarrow> u32 \<Rightarrow> u32 \<Rightarrow> nat \<Rightarrow> dgram" where
  "echo_dgram w q a b j = frame_dgram w q
     (ip_frame (if_mac (iface (topo w) (remote_intf q))) (if_mac (iface (topo w) q))
       (ip_bytes (top_hdr ICMP_PROTO b a 12) @ icmp_bytes (make_icmp_echo_message (of_nat j) (of_nat j))))"

definition reply_dgram :: "world \<Rightarrow> ifptr \<Rightarrow> u32 \<Rightarrow> u32 \<Rightarrow> nat \<Rightarrow> dgram" where
  "reply_dgram w q a b j = frame_dgram w (remote_intf q)
     (ip_frame (if_mac (iface (topo w) q)) (if_mac (iface (topo w) (remote_intf q)))
       (ip_bytes (top_hdr ICMP_PROTO a b 12) @ icmp_bytes (make_icmp_echo_reply (of_nat j) (of_nat j) 0xEFBEADDE)))"

lemma ping_loop_sends:
  assumes ok: "config_ok (topo w)" and r: "reachable (topo w) q n m a b" and t: "topo w' = topo w"
    and E: "\<And>v. asleep E v = v"
  shows "unat i + k = unat (count :: u8) \<Longrightarrow> ping_loop (Suc fuel) E n b count i w' =
    Inr (w'\<lparr>sent := sent w' @ map (echo_dgram w q a b) [unat i..<unat count]\<rparr>)"
  using t
proof (induction k arbitrary: i w')
  case 0
  then have "\<not> i < count" by (simp add: word_less_nat_alt)
  then show ?case using 0 by (subst ping_loop.simps) simp
next
  case (Suc k)
  have lt: "i < count" using Suc.prems(1) by (simp add: word_less_nat_alt)
  have u: "unat (i + 1) = Suc (unat i)"
    using Suc.prems(1) unsigned_less [of count, where 'a = nat] by (simp add: unat_word_ariths)
  have i: "ucast i = (of_nat (unat i) :: u16)" by simp
  have s: "send_icmp_echo_message (layer3_pkt_receive_from_top (Suc fuel) E) w' n (ucast i) (ucast i) b =
      Inr (w'\<lparr>sent := sent w' @ [echo_dgram w q a b (unat i)]\<rparr>)"
    using icmp_to_neighbour [OF ok r Suc.prems(2), of fuel E "make_icmp_echo_message (ucast i) (ucast i)"]
      frame_dgram_topo [OF Suc.prems(2)]
    by (simp add: send_icmp_echo_message_def transmit_def echo_dgram_def del: layer3_pkt_receive_from_top.simps)
  have "[unat i..<unat count] = unat i # [Suc (unat i)..<unat count]"
    using Suc.prems(1) by (simp add: upt_conv_Cons)
  then show ?case
    using Suc.IH [of "i + 1" "w'\<lparr>sent := sent w' @ [echo_dgram w q a b (unat i)]\<rparr>"] Suc.prems lt s u
    by (subst ping_loop.simps) (simp add: E)
qed

lemma dgram_ports:
  assumes "joins (topo w) q n m" "topo w' = topo w"
  shows "dport (echo_dgram w q a b j) = node_port w' m" "dport (reply_dgram w q a b j) = node_port w' n"
  using assms by (simp_all add: echo_dgram_def reply_dgram_def frame_dgram_def node_port_def joins_def get_nbr_node_remote)

text \<open>All echo messages are read and answered, then all answers are read.\<close>

lemma echoes_answered:
  assumes ok: "config_ok (topo w)" and r: "reachable (topo w) q n m a b"
    and m: "udp_sock_fd (nodes (topo w) m) \<noteq> 0"
  shows "(net_step (Suc (Suc fuel)) E)\<^sup>*\<^sup>*
      (w\<lparr>sent := map (echo_dgram w q a b) js @ map (reply_dgram w q a b) ks\<rparr>)
      (w\<lparr>sent := map (reply_dgram w q a b) (ks @ js)\<rparr>)"
proof (induction js arbitrary: ks)
  case (Cons j js)
  have jn: "joins (topo w) q n m" using r by (simp add: reachable_def)
  let ?rest = "map (echo_dgram w q a b) js @ map (reply_dgram w q a b) ks"
  have "node_receive (Suc (Suc fuel)) E (w\<lparr>sent := ?rest\<rparr>) m (dg_data (echo_dgram w q a b j)) =
      Inr (w\<lparr>sent := ?rest @ [reply_dgram w q a b j]\<rparr>)"
    using echo_at_neighbour [OF ok r, of "w\<lparr>sent := ?rest\<rparr>" fuel E "of_nat j" "of_nat j"]
    by (simp add: echo_dgram_def reply_dgram_def transmit_def)
  then have "net_step (Suc (Suc fuel)) E (w\<lparr>sent := echo_dgram w q a b j # ?rest\<rparr>)
      (w\<lparr>sent := map (echo_dgram w q a b) js @ map (reply_dgram w q a b) (ks @ [j])\<rparr>)"
    using joins_nodes [OF config_ok_wf [OF ok] jn] dgram_ports(1) [OF jn] m
    by (intro net_step.deliver [of m _ "dg_data (echo_dgram w q a b j)" ?rest]) (simp_all add: node_port_def)
  then show ?case
    using Cons.IH [of "ks @ [j]"] by (simp add: converse_rtranclp_into_rtranclp)
qed simp

lemma replies_reported:
  assumes ok: "config_ok (topo w)" and r: "reachable (topo w) q n m a b"
    and n: "udp_sock_fd (nodes (topo w) n) \<noteq> 0"
  shows "(net_step (Suc (Suc fuel)) E)\<^sup>*\<^sup>* (w\<lparr>sent := map (reply_dgram w q a b) ks, reports := rs\<rparr>)
      (w\<lparr>sent := [], reports := rs @ map (\<lambda>j. Echo_reply_received n 12 [] (of_nat j) 64) ks\<rparr>)"
proof (induction ks arbitrary: rs)
  case (Cons k ks)
  have jn: "joins (topo w) q n m" using r by (simp add: reachable_def)
  let ?w = "w\<lparr>reports := rs, sent := map (reply_dgram w q a b) ks\<rparr>"
  have "node_receive (Suc (Suc fuel)) E ?w n (dg_data (reply_dgram w q a b k)) =
      Inr (w\<lparr>sent := map (reply_dgram w q a b) ks, reports := rs @ [Echo_reply_received n 12 [] (of_nat k) 64]\<rparr>)"
    using echo_reply_at_neighbour [OF ok reachable_sym [OF r], of ?w "Suc fuel" E "of_nat k" "of_nat k"]
    by (simp add: reply_dgram_def report_msg_def)
  then have "net_step (Suc (Suc fuel)) E
      (w\<lparr>sent := reply_dgram w q a b k # map (reply_dgram w q a b) ks, reports := rs\<rparr>)
      (w\<lparr>sent := map (reply_dgram w q a b) ks, reports := rs @ [Echo_reply_received n 12 [] (of_nat k) 64]\<rparr>)"
    using joins_nodes [OF config_ok_wf [OF ok] jn] dgram_ports(2) [OF jn] n
    by (intro net_step.deliver [of n _ "dg_data (reply_dgram w q a b k)" "map (reply_dgram w q a b) ks"])
      (simp_all add: node_port_def)
  then show ?case
    using Cons.IH [of "rs @ [Echo_reply_received n 12 [] (of_nat k) 64]"]
    by (simp add: converse_rtranclp_into_rtranclp)
qed simp

lemma network_steps:
  assumes "(net_step (ce_fuel CE) (ce_env CE))\<^sup>*\<^sup>* w w'" "cl_running c"
  shows "(session_step CE)\<^sup>*\<^sup>* (c\<lparr>cl_topology := Some w\<rparr>) (c\<lparr>cl_topology := Some w'\<rparr>)"
  using assms(1)
proof (induction rule: rtranclp_induct)
  case (step w1 w2)
  have "session_step CE (c\<lparr>cl_topology := Some w1\<rparr>) (c\<lparr>cl_topology := Some w1\<rparr>\<lparr>cl_topology := Some w2\<rparr>)"
    by (rule session_step.network) (use assms(2) step.hyps(2) in simp_all)
  then show ?case using step.IH by simp
qed simp

text \<open>
  The ping command with a count that reads as \<open>k\<close> (modulo 256), to the address of a neighbour in
  the ARP table, in a quiet network. The loop variable, which is not initialised, must happen
  to be 0.
\<close>

lemma ping_command_replies:
  assumes c: "cl_running c" "cl_topology c = Some w" and ok: "config_ok (topo w)" and quiet: "sent w = []"
    and n: "get_node_by_node_name (topo w) nm = Some n" and r: "reachable (topo w) q n m a b"
    and ip: "inet_pton ip = Some b"
    and fd: "udp_sock_fd (nodes (topo w) n) \<noteq> 0" "udp_sock_fd (nodes (topo w) m) \<noteq> 0"
    and nf: "nul_free nm" "nul_free ip" "nul_free cnt"
    and CE: "ce_count CE = 0" "\<And>v. asleep (ce_env CE) v = v" "ce_fuel CE = Suc (Suc fuel)"
  shows "(session_step CE)\<^sup>*\<^sup>* c (c\<lparr>cl_topology := Some (w\<lparr>reports := reports w @
    map (\<lambda>j. Echo_reply_received n 12 [] (of_nat j) 64) [0..<unat (word_of_int (atoi cnt) :: u8)]\<rparr>)\<rparr>)"
proof -
  let ?k = "unat (word_of_int (atoi cnt) :: u8)"
  let ?w1 = "w\<lparr>sent := map (echo_dgram w q a b) [0..<?k]\<rparr>"
  let ?cm = "([(''node-name'', None), (''ip-address'', Some V_ip_address), (''count'', None)], Ping_cb, Some 300) :: command"
  have "ping_loop (Suc (Suc fuel)) (ce_env CE) n b (word_of_int (atoi cnt)) 0 w = Inr ?w1"
    using ping_loop_sends [OF ok r refl, of "ce_env CE" 0 ?k "word_of_int (atoi cnt)" "Suc fuel"] CE(2) quiet by simp
  then have "ping_handler CE [(''node-name'', nm), (''ip-address'', ip), (''count'', cnt)] c =
      Inr (0, [], c\<lparr>cl_topology := Some ?w1\<rparr>)"
    using c(2) n ip CE(1,3)
    by (simp add: ping_handler_def with_topology_def with_node_def find_node_def send_ping_request_def pton_into_def)
  then have p: "session_step CE c (c\<lparr>cl_topology := Some ?w1\<rparr>)"
    by (intro session_step.command [of _ ?cm "[nm, ip, cnt]" _ 0 "[]"])
      (use c(1) nf ip in \<open>simp_all add: registered_list accepted_def validate_ip_address_def invoke_def\<close>)
  have "(net_step (Suc (Suc fuel)) (ce_env CE))\<^sup>*\<^sup>* ?w1 (w\<lparr>sent := map (reply_dgram w q a b) [0..<?k], reports := reports w\<rparr>)"
    using echoes_answered [OF ok r fd(2), of fuel "ce_env CE" "[0..<?k]" "[]"] by simp
  also have "(net_step (Suc (Suc fuel)) (ce_env CE))\<^sup>*\<^sup>* \<dots>
      (w\<lparr>sent := [], reports := reports w @ map (\<lambda>j. Echo_reply_received n 12 [] (of_nat j) 64) [0..<?k]\<rparr>)"
    by (rule replies_reported [OF ok r fd(1)])
  finally have "(session_step CE)\<^sup>*\<^sup>* (c\<lparr>cl_topology := Some ?w1\<rparr>) (c\<lparr>cl_topology :=
      Some (w\<lparr>sent := [], reports := reports w @ map (\<lambda>j. Echo_reply_received n 12 [] (of_nat j) 64) [0..<?k]\<rparr>)\<rparr>)"
    by (intro network_steps) (simp_all add: CE(3) c(1))
  then show ?thesis
    using p quiet by (cases w) (simp add: converse_rtranclp_into_rtranclp)
qed

section \<open>Resolving a neighbour\<close>

text \<open>Neighbours that could reach each other if they knew their MAC addresses.\<close>

definition neighbours :: "graph \<Rightarrow> ifptr \<Rightarrow> nid \<Rightarrow> nid \<Rightarrow> u32 \<Rightarrow> u32 \<Rightarrow> bool" where
  "neighbours g q n m a b \<longleftrightarrow> joins g q n m \<and> own_address g n a q \<and> own_address g m b (remote_intf q) \<and>
     on_link g n b q \<and> on_link g m a (remote_intf q)"

lemma neighbours_sym: "neighbours g q n m a b \<Longrightarrow> neighbours g (remote_intf q) m n b a"
  by (auto simp: neighbours_def joins_sym)

lemma reachable_neighbours:
  "reachable g q n m a b \<longleftrightarrow> neighbours g q n m a b \<and>
     has_mac g n b (if_mac (iface g (remote_intf q))) \<and> has_mac g m a (if_mac (iface g q))"
  by (auto simp: reachable_def neighbours_def)

lemma neighbours_apart:
  assumes "graph_wf g" "neighbours g q n m a b"
  shows "n \<noteq> m" "a \<noteq> b"
proof -
  have j: "joins g q n m" using assms(2) by (simp add: neighbours_def)
  have "is_layer3_local_delivery g n a" "is_layer3_local_delivery g m b" "\<not> is_layer3_local_delivery g n b"
    using own_address_local [OF assms(1) joins_nodes(1) [OF assms(1) j]]
      own_address_local [OF assms(1) joins_nodes(2) [OF assms(1) j]] assms(2)
    unfolding neighbours_def on_link_def by blast+
  then show "n \<noteq> m" "a \<noteq> b" by auto
qed

text \<open>What a node learns does not change who its neighbours are.\<close>

lemma subnet_loop_upd_node [simp]: "subnet_loop (upd_node g k f) a ss = subnet_loop g a ss"
proof (induction ss)
  case (Cons x ss)
  then show ?case by (cases x) (simp_all cong: if_cong)
qed simp

lemma arp_learned_frame [simp]:
  "sent (arp_learned w k ip mc oif) = sent w" "reports (arp_learned w k ip mc oif) = reports w"
  "iface (topo (arp_learned w k ip mc oif)) q = iface (topo w) q"
  "node_intfs (topo (arp_learned w k ip mc oif)) n = node_intfs (topo w) n"
  "udp_sock_fd (nodes (topo (arp_learned w k ip mc oif)) n) = udp_sock_fd (nodes (topo w) n)"
  "node_name (nodes (topo (arp_learned w k ip mc oif)) n) = node_name (nodes (topo w) n)"
  "node_list (topo (arp_learned w k ip mc oif)) = node_list (topo w)"
  "n_nodes (topo (arp_learned w k ip mc oif)) = n_nodes (topo w)"
  by (simp_all add: arp_learned_def node_intfs_def)

lemma by_name_learned [simp]:
  "get_node_by_node_name (topo (arp_learned w k ip mc oif)) nm = get_node_by_node_name (topo w) nm"
  by (simp add: get_node_by_node_name_def)

lemma hosts_arp_learned [simp]:
  "joins (topo (arp_learned w k ip mc oif)) q n m = joins (topo w) q n m"
  "own_address (topo (arp_learned w k ip mc oif)) n a q = own_address (topo w) n a q"
  "on_link (topo (arp_learned w k ip mc oif)) n a q = on_link (topo w) n a q"
proof -
  let ?g = "topo (arp_learned w k ip mc oif)"
  have u: "?g = upd_node (topo w) k (\<lambda>nd. nd\<lparr>node_arp_table := arp_learn (node_arp_table (nodes (topo w) k)) ip (mc, oif)\<rparr>)"
    by (simp add: arp_learned_def)
  have local: "is_layer3_local_delivery ?g n x = is_layer3_local_delivery (topo w) n x" for n x
    unfolding u by (simp add: is_layer3_local_delivery_def cong: option.case_cong)
  have subnet: "node_get_matching_subnet_interface ?g n x = node_get_matching_subnet_interface (topo w) n x" for n x
    unfolding u by (simp add: node_get_matching_subnet_interface_def)
  have route: "node_route_table (nodes ?g n) = node_route_table (nodes (topo w) n)" "n_links ?g = n_links (topo w)" for n
    unfolding u by simp_all
  show "joins ?g q n m = joins (topo w) q n m" "own_address ?g n a q = own_address (topo w) n a q"
    "on_link ?g n a q = on_link (topo w) n a q"
    by (simp_all add: joins_def unique_names_def own_address_def on_link_def has_direct_route_def local subnet route)
qed

lemma neighbours_learned [simp]:
  "neighbours (topo (arp_learned w k ip mc oif)) q n m a b = neighbours (topo w) q n m a b"
  by (simp add: neighbours_def)

lemma config_ok_arp_learned: "config_ok (topo w) \<Longrightarrow> config_ok (topo (arp_learned w n ip m oif))"
  unfolding arp_learned_def using arpt.inv_learn
  by (simp, intro config_ok_upd_node) (auto simp: node_cfg_ok_def)

lemma same_config_learned: "same_config g (topo (arp_learned w n ip m oif)) = same_config g (topo w)"
  by (auto simp: same_config_def arp_learned_def erase_tables_def)

lemma arp_learned_other:
  "k \<noteq> n \<Longrightarrow> node_arp_table (nodes (topo (arp_learned w n ip m oif)) k) = node_arp_table (nodes (topo w) k)"
  by (simp add: arp_learned_def)

text \<open>
  The command that resolves an address, and the network after it, in a quiet network.
\<close>

lemma resolve_command_learns:
  assumes c: "cl_running c" "cl_topology c = Some w" and ok: "config_ok (topo w)" and quiet: "sent w = []"
    and n: "get_node_by_node_name (topo w) nm = Some n" and r: "neighbours (topo w) q n m a b"
    and fd: "udp_sock_fd (nodes (topo w) n) \<noteq> 0" "udp_sock_fd (nodes (topo w) m) \<noteq> 0" and nf: "nul_free nm"
  shows "(session_step CE)\<^sup>*\<^sup>* c (c\<lparr>cl_topology := Some (arp_learned w n (inet_ntop b)
    (if_mac (iface (topo w) (remote_intf q))) (if_name (iface (topo w) q)))\<rparr>)"
proof -
  note wf = config_ok_wf [OF ok]
  have j: "joins (topo w) q n m" using r by (simp add: neighbours_def)
  have ip: "is_ipadd_config (iface (topo w) q)" "is_ipadd_config (iface (topo w) (remote_intf q))"
    "ip_add (iface (topo w) q) = inet_ntop a" "ip_add (iface (topo w) (remote_intf q)) = inet_ntop b"
    using r by (simp_all add: neighbours_def own_address_def)
  let ?d1 = "request_dgram (topo w) q b" and ?d2 = "answer_dgram (topo w) q b"
  let ?w1 = "w\<lparr>sent := [?d1]\<rparr>" and ?w2 = "w\<lparr>sent := [?d2]\<rparr>"
  let ?w3 = "arp_learned w n (inet_ntop b) (if_mac (iface (topo w) (remote_intf q))) (if_name (iface (topo w) q))"
  note x = arp_exchange [OF ok j ip(1,2,4), unfolded quiet append_Nil]
  have sub: "node_get_matching_subnet_interface (topo w) n (inet_ntop b) = Inr (Some q)"
    using r by (simp add: neighbours_def on_link_def)
  have s: "send_arp_broadcast_request w n None (inet_ntop b) = Inr ?w1"
    using sub ip(3) neighbours_apart(2) [OF wf r] x(1) by (simp add: send_arp_broadcast_request_def)
  let ?cm = "([(''node-name'', None), (''ip-address'', Some V_ip_address)], Resolve_arp, Some 301) :: command"
  have "resolve_arp_handler [(''node-name'', nm), (''ip-address'', inet_ntop b)] c =
      Inr (0, [], c\<lparr>cl_topology := Some ?w1\<rparr>)"
    using c(2) n s by (simp add: resolve_arp_handler_def with_topology_def with_node_def find_node_def)
  then have cmd: "session_step CE c (c\<lparr>cl_topology := Some ?w1\<rparr>)"
    by (intro session_step.command [of _ ?cm "[nm, inet_ntop b]" _ 0 "[]"])
      (use c(1) nf in \<open>simp_all add: registered_list accepted_def validate_ip_address_def invoke_def\<close>)
  have w: "w\<lparr>sent := []\<rparr> = w" using quiet by (cases w) simp
  have s1: "net_step fuel E ?w1 ?w2" for fuel E
    using joins_nodes [OF wf j] x(2) x(4) fd(2) w
    by (intro net_step.deliver [of m _ "dg_data ?d1" "[]"]) (simp_all add: node_port_def)
  have s2: "net_step fuel E ?w2 ?w3" for fuel E
    using joins_nodes [OF wf j] x(3) x(5) fd(1) w
    by (intro net_step.deliver [of n _ "dg_data ?d2" "[]"]) (simp_all add: node_port_def)
  have "(session_step CE)\<^sup>*\<^sup>* (c\<lparr>cl_topology := Some ?w1\<rparr>) (c\<lparr>cl_topology := Some ?w3\<rparr>)"
    by (rule network_steps [OF rtranclp.rtrancl_into_rtrancl [OF r_into_rtranclp [of "net_step _ _", OF s1] s2] c(1)])
  then show ?thesis using cmd by (rule converse_rtranclp_into_rtranclp [rotated])
qed


section \<open>Properties\<close>


lemma host_neighbours: "neighbours (topo host_world) (remote_intf (0, Intf1)) 1 0 0x0201010A 0x0101010A"
proof -
  have e: "resolved_graph = topo (arp_learned (arp_learned host_world 0 (inet_ntop 0x0201010A)
      (if_mac (iface host_graph (0, Intf2))) ''eth0'') 1 (inet_ntop 0x0101010A)
      (if_mac (iface host_graph (0, Intf1))) ''eth1'')"
    by (simp add: resolved_graph_def arp_learned_def host_world_def upd_node_def)
  have "neighbours resolved_graph (0, Intf1) 0 1 0x0101010A 0x0201010A =
      neighbours (topo host_world) (0, Intf1) 0 1 0x0101010A 0x0201010A"
    unfolding e by simp
  then have "neighbours (topo host_world) (0, Intf1) 0 1 0x0101010A 0x0201010A"
    using resolved_reachable by (simp only: reachable_neighbours)
  then show ?thesis by (rule neighbours_sym)
qed

lemma host_names:
  "get_node_by_node_name host_graph ''R1'' = Some 1" "get_node_by_node_name host_graph ''R0'' = Some 0"
proof -
  have l: "node_list host_graph = [1, 0]"
    using config_ok_wf [OF configured_ok [OF configured_host_graph]]
    by (simp add: graph_wf_def host_graph_sel numeral_2_eq_2)
  have "node_name (nodes host_graph 1) = ''R1''" "node_name (nodes host_graph 0) = ''R0''"
    using example_tables(5,6) by (simp_all add: host_graph_def with_loopbacks_def)
  then show "get_node_by_node_name host_graph ''R1'' = Some 1" "get_node_by_node_name host_graph ''R0'' = Some 0"
    by (simp_all add: get_node_by_node_name_def l strncmp_eq_def)
qed


end
