(* ===== verification/Rounds.thy ===== *)
theory Rounds
  imports Pinging
begin

text \<open>
  A ping as the receiver thread serves it: how the rounds of the thread take the echo messages
  and the answers off the sockets of the two neighbours.
\<close>

section \<open>Rounds of the receiver thread\<close>

text \<open>The first \<open>k\<close> rounds of the endless loop.\<close>

fun receiver_rounds :: "nat \<Rightarrow> env \<Rightarrow> int \<times> int set \<Rightarrow> nat \<Rightarrow> world \<Rightarrow> world res" where
  "receiver_rounds fuel E watched 0 w = Inr w"
| "receiver_rounds fuel E watched (Suc k) w =
     rbind (receiver_round fuel E watched w) (receiver_rounds fuel E watched k)"

lemma take_dgram_append:
  "\<forall>x \<in> set xs. dport x \<noteq> port \<Longrightarrow> dport d = port \<Longrightarrow>
    take_dgram port (xs @ d # ys) = Some (dg_data d, xs @ ys)"
  by (induction xs) auto

text \<open>A pass visits the nodes that \<^verbatim>\<open>select\<close> named, in the order of the list.\<close>

lemma receive_loop_filter:
  assumes E: "env_ok E"
  shows "\<forall>n. udp_sock_fd (nodes (topo w) n) = fd n \<Longrightarrow>
    receive_loop fuel E active ns w = receive_loop fuel E active (filter (\<lambda>n. fd n \<in> active) ns) w"
proof (induction ns arbitrary: w)
  case (Cons n ns)
  show ?case
  proof (cases "fd n \<in> active")
    case True
    have "receive_loop fuel E active ns w1 = receive_loop fuel E active (filter (\<lambda>n. fd n \<in> active) ns) w1"
      if "node_receive fuel E (w\<lparr>sent := rest\<rparr>) n data = Inr w1" for data rest w1
    proof (rule Cons.IH)
      have "same_sockets (topo w) (topo w1)"
        using keeps_sockets [OF cfg.ev_node_receive [OF _ that]] E by simp
      then show "\<forall>n. udp_sock_fd (nodes (topo w1) n) = fd n" using Cons.prems by (simp add: same_sockets_def)
    qed
    then show ?thesis
      using True Cons.prems
      by (auto split: option.splits intro!: rbind_cong)
  next
    case False
    then show ?thesis using Cons by simp
  qed
qed simp

text \<open>Both ends of a ping in any state of the same network.\<close>

lemma echo_turn:
  assumes ok: "config_ok (topo w)" and r: "reachable (topo w) q n m a b" and t: "topo v = topo w"
    and xs: "sent v = echo_dgram w q a b j # xs"
    and m: "udp_sock_fd (nodes (topo w) m) \<in> active"
  shows "receive_loop (Suc (Suc fuel)) E active (m # ns) v =
    receive_loop (Suc (Suc fuel)) E active ns (v\<lparr>sent := xs @ [reply_dgram w q a b j]\<rparr>)"
proof -
  have j: "joins (topo w) q n m" using r by (simp add: reachable_def)
  have "take_dgram (node_port v m) (sent v) = Some (dg_data (echo_dgram w q a b j), xs)"
    using dgram_ports(1) [OF j t] xs by simp
  moreover have "node_receive (Suc (Suc fuel)) E (v\<lparr>sent := xs\<rparr>) m (dg_data (echo_dgram w q a b j)) =
      Inr (v\<lparr>sent := xs @ [reply_dgram w q a b j]\<rparr>)"
    using echo_at_neighbour [OF ok r, of "v\<lparr>sent := xs\<rparr>" fuel E "of_nat j" "of_nat j"] t
      frame_dgram_topo [of v w]
    by (simp add: echo_dgram_def reply_dgram_def transmit_def frame_dgram_def)
  ultimately show ?thesis using m t by simp
qed

lemma reply_turn:
  assumes ok: "config_ok (topo w)" and r: "reachable (topo w) q n m a b" and t: "topo v = topo w"
    and p: "node_port w m \<noteq> node_port w n"
    and xs: "sent v = map (echo_dgram w q a b) js @ reply_dgram w q a b j # ys"
    and n: "udp_sock_fd (nodes (topo w) n) \<in> active"
  shows "receive_loop (Suc (Suc fuel)) E active (n # ns) v =
    receive_loop (Suc (Suc fuel)) E active ns (v\<lparr>sent := map (echo_dgram w q a b) js @ ys,
      reports := reports v @ [Echo_reply_received n 12 [] (of_nat j) 64]\<rparr>)"
proof -
  have j: "joins (topo w) q n m" using r by (simp add: reachable_def)
  have pv: "node_port v n = node_port w n" using t by (simp add: node_port_def)
  have "take_dgram (node_port v n) (sent v) = Some (dg_data (reply_dgram w q a b j), map (echo_dgram w q a b) js @ ys)"
    using dgram_ports [OF j refl] p unfolding xs pv by (intro take_dgram_append) auto
  moreover have "node_receive (Suc (Suc fuel)) E (v\<lparr>sent := map (echo_dgram w q a b) js @ ys\<rparr>) n
      (dg_data (reply_dgram w q a b j)) =
      Inr (v\<lparr>sent := map (echo_dgram w q a b) js @ ys,
        reports := reports v @ [Echo_reply_received n 12 [] (of_nat j) 64]\<rparr>)"
    using echo_reply_at_neighbour [OF ok reachable_sym [OF r],
        of "v\<lparr>sent := map (echo_dgram w q a b) js @ ys\<rparr>" "Suc fuel" E "of_nat j" "of_nat j"] t
    by (simp add: reply_dgram_def report_msg_def)
  ultimately show ?thesis using n t by simp
qed

text \<open>A network in which nothing but this ping is under way: its first \<open>i\<close> messages have been answered, the
  first \<open>j\<close> answers have been read.\<close>

definition ping_state :: "world \<Rightarrow> ifptr \<Rightarrow> nid \<Rightarrow> u32 \<Rightarrow> u32 \<Rightarrow> nat \<Rightarrow> nat \<Rightarrow> nat \<Rightarrow> world" where
  "ping_state w q n a b k i j = w\<lparr>sent := map (echo_dgram w q a b) [i..<k] @ map (reply_dgram w q a b) [j..<i],
     reports := reports w @ map (\<lambda>j. Echo_reply_received n 12 [] (of_nat j) 64) [0..<j]\<rparr>"

lemma ping_state_round:
  assumes E: "env_ok E" and ok: "config_ok (topo w)" and r: "reachable (topo w) q n m a b"
    and so: "sockets_ok (topo w)" and st: "receiver_start (topo w) = Inr watched"
    and fd: "udp_sock_fd (nodes (topo w) n) \<noteq> 0" "udp_sock_fd (nodes (topo w) m) \<noteq> 0" and nm: "n \<noteq> m"
    and ij: "i \<le> k" "j \<le> i" "i \<le> Suc j"
  shows "receiver_round (Suc (Suc fuel)) E watched (ping_state w q n a b k i j) =
    Inr (ping_state w q n a b k (min k (Suc i)) i)"
proof -
  let ?S = "ping_state w q n a b k"
  let ?v = "?S i j" and ?fd = "\<lambda>x. udp_sock_fd (nodes (topo w) x)"
  obtain mx fds where f: "watched = (mx, fds)" by (cases watched)
  let ?A = "select_fds ?v (mx + 1) fds"
  have jn: "joins (topo w) q n m" using r by (simp add: reachable_def)
  note nodes = joins_nodes [OF config_ok_wf [OF ok] jn]
  have port: "node_port w m \<noteq> node_port w n" using other_port [OF so nodes] nm by simp
  have t: "topo ?v = topo w" by (simp add: ping_state_def)
  have q_eq: "queue ?v x = map dg_data (filter (\<lambda>dg. dport dg = node_port w x) (sent ?v))" for x
    by (simp add: queue_def node_port_def t)
  have same: "node_port w y = node_port w x \<longleftrightarrow> y = x" if "x < n_nodes (topo w)" "y < n_nodes (topo w)" for x y
    using other_port [OF so that(1,2)] by auto
  have queues: "queue ?v x \<noteq> [] \<longleftrightarrow> x = m \<and> i < k \<or> x = n \<and> j < i" if "x < n_nodes (topo w)" for x
    using same [OF that nodes(1)] same [OF that nodes(2)] ij
    unfolding q_eq by (auto simp: ping_state_def filter_empty_conv dgram_ports [OF jn refl])
  have sel: "?fd x \<in> ?A \<longleftrightarrow> x = m \<and> i < k \<or> x = n \<and> j < i" if x: "x < n_nodes (topo w)" for x
    using select_iff [of ?v mx fds x] so st x fd queues [OF x] unfolding f t
    by (auto simp: watched_node_def t)
  let ?ns = "filter (\<lambda>x. ?fd x \<in> ?A) (node_list (topo w))"
  have dist: "distinct ?ns" using so by (simp add: sockets_ok_def)
  have set: "set ?ns = (if i < k then {m} else {}) \<union> (if j < i then {n} else {})"
    using so sel nodes by (auto simp: sockets_ok_def)
  have run: "receiver_round (Suc (Suc fuel)) E watched ?v = receive_loop (Suc (Suc fuel)) E ?A ?ns ?v"
    using receive_loop_filter [OF E, of ?v ?fd] by (simp add: receiver_round_def f t)
  let ?L = "receive_loop (Suc (Suc fuel)) E ?A"
  let ?e = "echo_dgram w q a b" and ?y = "reply_dgram w q a b" and ?rep = "\<lambda>j. Echo_reply_received n 12 [] (of_nat j) 64"
  note sims = ping_state_def upt_conv_Cons upt_Suc_append min_def
  show ?thesis
  proof (cases "i < k"; cases "j < i")
    assume c: "i < k" "j < i"
    then have ji: "i = Suc j" using ij by simp
    have A: "?fd m \<in> ?A" "?fd n \<in> ?A" using sel nodes c by auto
    have v: "sent ?v = ?e i # (map ?e [Suc i..<k] @ [?y j])" using c by (simp add: sims ji)
    have v': "sent ?v = map ?e [i..<k] @ ?y j # []" by (simp add: sims ji)
    have "?ns = [m, n] \<or> ?ns = [n, m]" by (rule pair_list [OF dist]) (use set c nm in auto)
    then show ?thesis
    proof
      assume ns: "?ns = [m, n]"
      let ?v1 = "?v\<lparr>sent := (map ?e [Suc i..<k] @ [?y j]) @ [?y i]\<rparr>"
      have "?L [m, n] ?v = ?L [n] ?v1" by (rule echo_turn [OF ok r t v A(1)])
      also have "\<dots> = ?L [] (?v1\<lparr>sent := map ?e [Suc i..<k] @ [?y i], reports := reports ?v1 @ [?rep j]\<rparr>)"
        by (rule reply_turn [OF ok r _ port _ A(2)]) (simp_all add: t)
      finally show ?thesis unfolding run ns using c by (simp add: sims ji)
    next
      assume ns: "?ns = [n, m]"
      let ?v1 = "?v\<lparr>sent := map ?e [i..<k] @ [], reports := reports ?v @ [?rep j]\<rparr>"
      have "?L [n, m] ?v = ?L [m] ?v1" by (rule reply_turn [OF ok r t port v' A(2)])
      also have "\<dots> = ?L [] (?v1\<lparr>sent := map ?e [Suc i..<k] @ [?y i]\<rparr>)"
        by (rule echo_turn [OF ok r _ _ A(1)]) (use c in \<open>simp_all add: t sims\<close>)
      finally show ?thesis unfolding run ns using c by (simp add: sims ji)
    qed
  next
    assume c: "i < k" "\<not> j < i"
    then have ji: "j = i" using ij by simp
    have ns: "?ns = [m]" by (rule single_list [OF dist]) (use set c in auto)
    have A: "?fd m \<in> ?A" using sel nodes c by auto
    have "?L [m] ?v = ?L [] (?v\<lparr>sent := map ?e [Suc i..<k] @ [?y i]\<rparr>)"
      by (rule echo_turn [OF ok r t _ A]) (use c in \<open>simp add: sims ji\<close>)
    then show ?thesis unfolding run ns using c by (simp add: sims ji)
  next
    assume c: "\<not> i < k" "j < i"
    then have ji: "i = Suc j" "i = k" using ij by simp_all
    have ns: "?ns = [n]" by (rule single_list [OF dist]) (use set c in auto)
    have A: "?fd n \<in> ?A" using sel nodes c by auto
    have "?L [n] ?v = ?L [] (?v\<lparr>sent := map ?e [] @ [], reports := reports ?v @ [?rep j]\<rparr>)"
      by (rule reply_turn [OF ok r t port _ A]) (use ji in \<open>simp add: sims\<close>)
    then show ?thesis unfolding run ns using ji by (simp add: sims)
  next
    assume c: "\<not> i < k" "\<not> j < i"
    then have ji: "j = i" "i = k" using ij by simp_all
    have ns: "?ns = []" using set c by simp
    show ?thesis unfolding run ns using ji by (simp add: sims)
  qed
qed

lemma ping_rounds:
  assumes E: "env_ok E" and ok: "config_ok (topo w)" and r: "reachable (topo w) q n m a b"
    and so: "sockets_ok (topo w)" and st: "receiver_start (topo w) = Inr watched"
    and fd: "udp_sock_fd (nodes (topo w) n) \<noteq> 0" "udp_sock_fd (nodes (topo w) m) \<noteq> 0" and nm: "n \<noteq> m"
  shows "receiver_rounds (Suc (Suc fuel)) E watched d (ping_state w q n a b k (min k t) (min k (t - 1))) =
    Inr (ping_state w q n a b k (min k (t + d)) (min k (t + d - 1)))"
proof (induction d arbitrary: t)
  case (Suc d)
  have "receiver_round (Suc (Suc fuel)) E watched (ping_state w q n a b k (min k t) (min k (t - 1))) =
      Inr (ping_state w q n a b k (min k (Suc (min k t))) (min k t))"
    by (rule ping_state_round [OF E ok r so st fd nm]) auto
  then show ?case using Suc.IH [of "Suc t"] by (simp add: min_def split: if_splits)
qed simp


section \<open>Properties\<close>


lemma host_sockets: "distinct_sockets host_graph" "receiver_start host_graph = Inr (4, {3, 4})"
proof -
  have s: "same_sockets example_graph host_graph"
    by (simp add: same_sockets_def host_graph_def with_loopbacks_def)
  show "receiver_start host_graph = Inr (4, {3, 4})"
    using receiver_start_same [OF s] example_sockets(2) by simp
  show "distinct_sockets host_graph"
    using s example_sockets(1) by (simp add: distinct_sockets_def same_sockets_def)
qed


end
