(* ===== verification/Unresolved.thy ===== *)
theory Unresolved
  imports Pinging
begin

text \<open>
  What happens to a packet for a neighbour whose MAC address is not known yet: the node asks for
  the address, sleeps, and looks again once.
\<close>

section \<open>Sending with an unknown address\<close>

lemma l2_forward_asks:
  assumes "\<not> is_layer3_local_delivery (topo w) n nh"
    and "node_get_matching_subnet_interface (topo w) n (inet_ntop nh) = Inr (Some q)"
    and "arp_table_lookup (node_arp_table (nodes (topo w) n)) (inet_ntop nh) = None"
    and "graph_wf (topo w)" "fst q < n_links (topo w)"
  shows "l2_forward_ip_packet E pm w n nh None b p k =
    (let w2 = asleep E (w\<lparr>sent := sent w @ [request_dgram (topo w) q nh]\<rparr>) in
     case arp_table_lookup (node_arp_table (nodes (topo w2) n)) (inet_ntop nh) of
       Some e \<Rightarrow> l2_send_resolved w2 (Some q) e b p k
     | None \<Rightarrow> Inr w2)"
proof -
  have "arp_request_on w q (inet_ntop nh) = Inr (w\<lparr>sent := sent w @ [request_dgram (topo w) q nh]\<rparr>)"
    using arp_request_on_sends [OF assms(4,5), of nh] by (simp add: transmit_def request_dgram_def frame_dgram_def)
  then show ?thesis
    using assms(1-3) by (simp add: l2_forward_ip_packet_def send_arp_broadcast_request_def Let_def)
qed

lemma same_config_iface:
  assumes "same_config g g'"
  shows "iface g' q = iface g q"
proof -
  have "links g' = links g" using assms by (simp add: same_config_def)
  then show ?thesis by (cases "(g, q)" rule: iface.cases) (simp_all add: iface.simps)
qed

text \<open>The packet goes out if the address has been learned during the sleep, and is dropped otherwise.\<close>

lemma from_top_asks:
  fixes E :: env and w :: world
  assumes ok: "config_ok (topo w)" and n: "n < n_nodes (topo w)" and o: "on_link (topo w) n a q"
    and s: "ip_add (iface (topo w) q) = inet_ntop s" and l: "length data \<le> 1000"
    and miss: "arp_table_lookup (node_arp_table (nodes (topo w) n)) (inet_ntop a) = None"
  defines "w2 \<equiv> asleep E (w\<lparr>sent := sent w @ [request_dgram (topo w) q a]\<rparr>)"
  shows "arp_table_lookup (node_arp_table (nodes (topo w2) n)) (inet_ntop a) = None \<Longrightarrow>
      layer3_pkt_receive_from_top (Suc fuel) E w n data pr a = Inr w2"
    and "same_config (topo w) (topo w2) \<Longrightarrow> graph_wf (topo w2) \<Longrightarrow> has_mac (topo w2) n a m \<Longrightarrow> length m = 6 \<Longrightarrow>
      layer3_pkt_receive_from_top (Suc fuel) E w n data pr a =
      Inr (transmit w2 q (ip_frame m (if_mac (iface (topo w) q))
        (ip_bytes (top_hdr pr a s (of_nat (length data))) @ data)))"
proof -
  obtain r where r: "has_direct_route (topo w) n a r"
    "node_get_matching_subnet_interface (topo w) n (rt_dest r) = Inr (Some q)"
    and o': "\<not> is_layer3_local_delivery (topo w) n a"
    "node_get_matching_subnet_interface (topo w) n (inet_ntop a) = Inr (Some q)"
    using o by (auto simp: on_link_def)
  note q = subnet_interface_links [OF ok n o'(2)]
  have c: "choose_source E w n r = Inr (Some q, s)"
    using r s by (simp add: choose_source_def has_direct_route_def pton_into_def)
  have k: "unat (of_nat (34 + length data) :: u32) = 34 + length data"
    using l by (simp add: unat_word_ariths unat_of_nat)
  let ?f = "zeros (2014 - length data) @ zeros 12 @ le16 IP_PROTO @
      (ip_bytes (top_hdr pr a s (of_nat (length data))) @ data) @ zeros 4"
  have down: "layer3_pkt_receive_from_top (Suc fuel) E w n data pr a =
    (case arp_table_lookup (node_arp_table (nodes (topo w2) n)) (inet_ntop a) of
       Some e \<Rightarrow> l2_send_resolved w2 (Some q) e ?f (2014 - length data) (of_nat (34 + length data))
     | None \<Rightarrow> Inr w2)"
    using from_top_sends_down [of w n a r E "Some q" s data "layer3_pkt_receive_from_top fuel E" "promote_pkt_to_layer3 fuel E" pr]
      l2_forward_asks [OF o' miss config_ok_wf [OF ok] q(2), of E "promote_pkt_to_layer3 fuel E"] r(1) c l
    unfolding w2_def by (simp add: has_direct_route_def Let_def cong: option.case_cong)
  then show "arp_table_lookup (node_arp_table (nodes (topo w2) n)) (inet_ntop a) = None \<Longrightarrow>
      layer3_pkt_receive_from_top (Suc fuel) E w n data pr a = Inr w2" by simp
  assume same: "same_config (topo w) (topo w2)" and wf: "graph_wf (topo w2)"
    and m: "has_mac (topo w2) n a m" "length m = 6"
  have i: "iface (topo w2) q = iface (topo w) q" "n_links (topo w2) = n_links (topo w)"
    using same same_config_iface [OF same] by (simp_all add: same_config_def)
  obtain e where e: "arp_table_lookup (node_arp_table (nodes (topo w2) n)) (inet_ntop a) = Some e" "arp_mac e = m"
    using m(1) by (rule has_macE)
  have "l2_send_resolved w2 (Some q) e ?f (2014 - length data) (of_nat (34 + length data)) =
    Inr (transmit w2 q (ip_frame (arp_mac e) (if_mac (iface (topo w2) q))
      (ip_bytes (top_hdr pr a s (of_nat (length data))) @ data)))"
    by (rule l2_send_resolved_ok [OF wf]) (use e m(2) l k q(2) i in simp_all)
  then show "layer3_pkt_receive_from_top (Suc fuel) E w n data pr a =
      Inr (transmit w2 q (ip_frame m (if_mac (iface (topo w) q))
        (ip_bytes (top_hdr pr a s (of_nat (length data))) @ data)))"
    using down e i by simp
qed


section \<open>The first answer\<close>

text \<open>An echo message at a neighbour that does not know the sender's MAC address.\<close>

lemma echo_unanswered:
  assumes ok: "config_ok (topo w)" and r: "neighbours (topo w) q n m a b"
    and miss: "arp_table_lookup (node_arp_table (nodes (topo w) m)) (inet_ntop a) = None"
    and E: "\<And>v. asleep E v = v"
  shows "node_receive (Suc (Suc fuel)) E w m (dg_data (echo_dgram w q a b j)) =
    Inr (w\<lparr>sent := sent w @ [request_dgram (topo w) (remote_intf q) a]\<rparr>)"
proof -
  note wf = config_ok_wf [OF ok]
  have j: "joins (topo w) q n m" and own: "own_address (topo w) m b (remote_intf q)"
    and on: "on_link (topo w) m a (remote_intf q)"
    using r by (simp_all add: neighbours_def)
  have q: "fst q < n_links (topo w)" "fst (remote_intf q) < n_links (topo w)" using j by (simp_all add: joins_def)
  have pre: "length ((char_array IF_NAME_SIZE (if_name (iface (topo w) (remote_intf q))) @
      (if_mac (iface (topo w) (remote_intf q)) @ if_mac (iface (topo w) q)) @ le16 IP_PROTO)) = 30"
    using length_header [OF wf q(2)] length_if_mac [OF wf q(1)] length_if_mac [OF wf q(2)] by simp
  have ip: "ip_add (iface (topo w) (remote_intf q)) = inet_ntop b" using own by (simp add: own_address_def)
  have ask: "layer3_pkt_receive_from_top (Suc fuel) E w m (icmp_bytes i) ICMP_PROTO a =
      Inr (w\<lparr>sent := sent w @ [request_dgram (topo w) (remote_intf q) a]\<rparr>)" for i
    by (subst from_top_asks(1) [OF ok joins_nodes(2) [OF wf j] on ip _ miss]) (use miss in \<open>simp_all add: E\<close>)
  show ?thesis
    unfolding echo_dgram_def
    using icmp_recv(1) [OF top_hdr_ok _ pre, of ICMP_PROTO b a 12 "make_icmp_echo_message (of_nat j) (of_nat j)"]
      host_gets_icmp [OF ok j refl own length_if_mac [OF wf q(1)], of "Suc fuel" E a] ask
    by (simp add: make_icmp_echo_message_def del: layer3_pkt_receive_from_top.simps)
qed

lemma nbr_learned:
  "get_nbr_node (topo (arp_learned w k ip mc oif)) q = get_nbr_node (topo w) q"
  "udp_port_number (nodes (topo (arp_learned w k ip mc oif)) n) = udp_port_number (nodes (topo w) n)"
  by (cases "snd q") (simp_all add: get_nbr_node_def arp_learned_def)

section \<open>Properties\<close>

text \<open>Two hosts that know nothing of each other.\<close>

lemma host_world_misses:
  "arp_table_lookup (node_arp_table (nodes (topo host_world) 0)) (inet_ntop 0x0201010A) = None"
  "arp_table_lookup (node_arp_table (nodes (topo host_world) 1)) (inet_ntop 0x0101010A) = None"
proof -
  have "node_arp_table (nodes (topo host_world) n) = init_arp_table" if "n < 2" for n
    using example_tables(2) that by (simp add: host_world_def host_graph_def with_loopbacks_def)
  from this [of 0] this [of 1]
  have t: "node_arp_table (nodes (topo host_world) 0) = init_arp_table"
    "node_arp_table (nodes (topo host_world) 1) = init_arp_table" by simp_all
  show "arp_table_lookup (node_arp_table (nodes (topo host_world) 0)) (inet_ntop 0x0201010A) = None"
    "arp_table_lookup (node_arp_table (nodes (topo host_world) 1)) (inet_ntop 0x0101010A) = None"
    unfolding t by code_simp+
qed

lemma host_world_neighbours: "neighbours (topo host_world) (0, Intf1) 0 1 0x0101010A 0x0201010A"
  using neighbours_sym [OF host_neighbours] by simp

lemma host_world_ok: "config_ok (topo host_world)"
  using configured_ok [OF configured_host_graph] by (simp add: host_world_def)

definition learning_env :: env where
  "learning_env = example_env\<lparr>asleep := \<lambda>v. arp_learned v 0 (inet_ntop 0x0201010A)
     (if_mac (iface host_graph (0, Intf2))) ''eth0''\<rparr>"

lemma env_ok_learning: "env_ok learning_env"
  using config_ok_arp_learned same_config_learned
  by (simp add: env_ok_def learning_env_def keeps_def)

text \<open>C15: a node that sends to a neighbour whose MAC address it does not know asks for the address once and
  sleeps. If the address has been learned when it wakes up, the packet goes out with it;
  otherwise it is dropped, and only the request has been sent.\<close>

theorem arp_miss_waits_once:
  fixes E :: env and w :: world
  assumes ok: "config_ok (topo w)" and n: "n < n_nodes (topo w)" and o: "on_link (topo w) n a q"
    and s: "ip_add (iface (topo w) q) = inet_ntop s" and l: "length data \<le> 1000"
    and miss: "arp_table_lookup (node_arp_table (nodes (topo w) n)) (inet_ntop a) = None" and E: "env_ok E"
  defines "w2 \<equiv> asleep E (w\<lparr>sent := sent w @ [request_dgram (topo w) q a]\<rparr>)"
  assumes mac: "\<forall>mc oif. arp_resolve (node_arp_table (nodes (topo w2) n)) (inet_ntop a) = Some (mc, oif) \<longrightarrow> length mc = 6"
  shows "layer3_pkt_receive_from_top (Suc fuel) E w n data pr a =
    Inr (case arp_resolve (node_arp_table (nodes (topo w2) n)) (inet_ntop a) of
        None \<Rightarrow> w2
      | Some (mc, oif) \<Rightarrow> transmit w2 q (ip_frame mc (if_mac (iface (topo w) q))
          (ip_bytes (top_hdr pr a s (of_nat (length data))) @ data)))"
proof -
  note ask = from_top_asks [OF ok n o s l miss, of E, folded w2_def]
  have "keeps (w\<lparr>sent := sent w @ [request_dgram (topo w) q a]\<rparr>) w2" using E by (simp add: env_ok_def w2_def)
  then have same: "same_config (topo w) (topo w2)" and wf: "graph_wf (topo w2)"
    using ok config_ok_wf by (simp_all add: keeps_def)
  show ?thesis
  proof (cases "arp_resolve (node_arp_table (nodes (topo w2) n)) (inet_ntop a)")
    case None
    then show ?thesis using ask(1) by (simp add: arp_resolve_def)
  next
    case (Some v)
    then show ?thesis using ask(2) [OF same wf, of "fst v"] mac by (cases v) (simp add: has_mac_def)
  qed
qed

lemma arp_miss_waits_once_witness:
  "let mc = if_mac (iface host_graph (0, Intf2));
       w2 = arp_learned (host_world\<lparr>sent := [request_dgram (topo host_world) (0, Intf1) 0x0201010A]\<rparr>) 0
         (inet_ntop 0x0201010A) mc ''eth0''
   in layer3_pkt_receive_from_top (Suc 0) learning_env host_world 0 [] ICMP_PROTO 0x0201010A =
     Inr (transmit w2 (0, Intf1) (ip_frame mc (if_mac (iface (topo host_world) (0, Intf1)))
       (ip_bytes (top_hdr ICMP_PROTO 0x0201010A 0x0101010A (of_nat (length []))) @ [])))"
proof -
  have t: "topo host_world = host_graph" "sent host_world = []" by (simp_all add: host_world_def)
  have l: "length (if_mac (iface host_graph (0, Intf2))) = 6"
    using length_if_mac [OF config_ok_wf [OF host_world_ok]] by (simp add: t host_graph_sel)
  have n: "0 < n_nodes (topo host_world)" by (simp add: t host_graph_sel)
  have o: "on_link (topo host_world) 0 0x0201010A (0, Intf1)"
    and s: "ip_add (iface (topo host_world) (0, Intf1)) = inet_ntop 0x0101010A"
    using host_world_neighbours by (simp_all add: neighbours_def own_address_def)
  let ?w2 = "arp_learned (host_world\<lparr>sent := [request_dgram (topo host_world) (0, Intf1) 0x0201010A]\<rparr>) 0
         (inet_ntop 0x0201010A) (if_mac (iface host_graph (0, Intf2))) ''eth0''"
  have w2: "asleep learning_env (host_world\<lparr>sent := sent host_world @ [request_dgram (topo host_world) (0, Intf1) 0x0201010A]\<rparr>) = ?w2"
    by (simp add: learning_env_def t)
  have res: "arp_resolve (node_arp_table (nodes (topo ?w2) 0)) (inet_ntop 0x0201010A) =
      Some (if_mac (iface host_graph (0, Intf2)), ''eth0'')"
    by (rule arp_learned_resolves) (use host_world_ok n in simp_all)
  show ?thesis
    unfolding Let_def
    by (subst arp_miss_waits_once [OF host_world_ok n o s _ host_world_misses(1) env_ok_learning, unfolded w2])
      (use res l in simp_all)
qed

text \<open>C24: a node does not learn the address of a node that asks it, and the thread that would receive the
  answer to its own request is the one that sleeps: the first echo message from a neighbour
  that it has not resolved is lost, with an ARP request in place of the reply. When that
  request and its answer have been received, the next echo message is replied to.\<close>

theorem first_answer_is_lost:
  assumes ok: "config_ok (topo w)" and r: "neighbours (topo w) q n m a b"
    and miss: "arp_table_lookup (node_arp_table (nodes (topo w) m)) (inet_ntop a) = None"
    and known: "has_mac (topo w) n b (if_mac (iface (topo w) (remote_intf q)))"
    and E: "\<And>v. asleep E v = v"
  shows "\<exists>d1 d2 w3.
    node_receive (Suc (Suc fuel)) E w m (dg_data (echo_dgram w q a b i)) = Inr (w\<lparr>sent := sent w @ [d1]\<rparr>) \<and>
    node_receive (Suc (Suc fuel)) E w n (dg_data d1) = Inr (w\<lparr>sent := sent w @ [d2]\<rparr>) \<and>
    node_receive (Suc (Suc fuel)) E w m (dg_data d2) = Inr w3 \<and> sent w3 = sent w \<and> reports w3 = reports w \<and>
    node_receive (Suc (Suc fuel)) E w3 m (dg_data (echo_dgram w q a b j)) =
      Inr (w3\<lparr>sent := sent w @ [reply_dgram w q a b j]\<rparr>)"
proof -
  let ?r = "remote_intf q"
  let ?d1 = "request_dgram (topo w) ?r a" and ?d2 = "answer_dgram (topo w) ?r a"
  let ?w3 = "arp_learned w m (inet_ntop a) (if_mac (iface (topo w) q)) (if_name (iface (topo w) ?r))"
  note wf = config_ok_wf [OF ok]
  have jn: "joins (topo w) q n m" using r by (simp add: neighbours_def)
  have ip: "is_ipadd_config (iface (topo w) q)" "is_ipadd_config (iface (topo w) ?r)"
    "ip_add (iface (topo w) q) = inet_ntop a"
    using r by (simp_all add: neighbours_def own_address_def)
  note x = arp_exchange [OF ok joins_sym [OF jn] ip(2), of a, simplified, OF ip(1,3)]
  have ok3: "config_ok (topo ?w3)" using ok by (rule config_ok_arp_learned)
  have reach: "reachable (topo ?w3) q n m a b"
    using r known neighbours_apart(1) [OF wf r] arp_learned_resolves [OF ok joins_nodes(2) [OF wf jn]]
    by (simp add: reachable_neighbours has_mac_def arp_learned_other)
  have same: "echo_dgram w q a b j = echo_dgram ?w3 q a b j" "reply_dgram w q a b j = reply_dgram ?w3 q a b j"
    by (simp_all add: echo_dgram_def reply_dgram_def frame_dgram_def nbr_learned)
  have "node_receive (Suc (Suc fuel)) E ?w3 m (dg_data (echo_dgram w q a b j)) =
      Inr (?w3\<lparr>sent := sent w @ [reply_dgram w q a b j]\<rparr>)"
    using echo_at_neighbour [OF ok3 reach refl, of fuel E "of_nat j" "of_nat j"]
    unfolding same by (simp add: echo_dgram_def reply_dgram_def transmit_def)
  then show ?thesis
    using echo_unanswered [OF ok r miss E] x(2,3)
    by (intro exI [of _ ?d1] exI [of _ ?d2] exI [of _ ?w3]) simp
qed

lemma first_answer_is_lost_witness:
  "\<exists>w d1 d2 w3.
    node_receive 2 example_env w 1 (dg_data (echo_dgram w (0, Intf1) 0x0101010A 0x0201010A 0)) = Inr (w\<lparr>sent := [d1]\<rparr>) \<and>
    node_receive 2 example_env w 0 (dg_data d1) = Inr (w\<lparr>sent := [d2]\<rparr>) \<and>
    node_receive 2 example_env w 1 (dg_data d2) = Inr w3 \<and> reports w3 = [] \<and>
    node_receive 2 example_env w3 1 (dg_data (echo_dgram w (0, Intf1) 0x0101010A 0x0201010A 1)) =
      Inr (w3\<lparr>sent := [reply_dgram w (0, Intf1) 0x0101010A 0x0201010A 1]\<rparr>)"
proof -
  let ?mc = "if_mac (iface host_graph (0, Intf2))"
  let ?w = "arp_learned host_world 0 (inet_ntop 0x0201010A) ?mc ''eth0''"
  have t: "topo host_world = host_graph" "sent ?w = []" "reports ?w = []" by (simp_all add: host_world_def)
  have ok: "config_ok (topo ?w)" using host_world_ok by (rule config_ok_arp_learned)
  have r: "neighbours (topo ?w) (0, Intf1) 0 1 0x0101010A 0x0201010A"
    using host_world_neighbours by simp
  have miss: "arp_table_lookup (node_arp_table (nodes (topo ?w) 1)) (inet_ntop 0x0101010A) = None"
    using host_world_misses(2) by (simp add: arp_learned_other)
  have known: "has_mac (topo ?w) 0 0x0201010A (if_mac (iface (topo ?w) (remote_intf (0, Intf1))))"
    using arp_learned_resolves [OF host_world_ok, of 0] by (simp add: has_mac_def t host_graph_sel remote_intf_def)
  have E: "asleep example_env v = v" for v by (simp add: example_env_def)
  have two: "Suc (Suc 0) = 2" by simp
  show ?thesis
    using first_answer_is_lost [OF ok r miss known E, of 0 0 1, unfolded t two append_Nil] by blast
qed

end
