(* ===== verification/Samples.thy ===== *)
theory Samples
  imports Topologies
begin

text \<open>
  Two sample topologies seen from the outside, for the statements about switches: the MAC
  addresses, which are what the names of nodes and interfaces make them, and for the switched
  topologies the ports, addresses and routes.
\<close>

section \<open>MAC addresses\<close>

text \<open>MAC addresses are what the names of the node and the interface make them.\<close>

definition macs_generated :: "graph \<Rightarrow> bool" where
  "macs_generated g \<longleftrightarrow> (\<forall>q n. fst q < n_links g \<longrightarrow> att_node (iface g q) = Some n \<longrightarrow>
     if_mac (iface g q) = gen_mac (node_name (nodes g n)) (if_name (iface g q)))"

lemma macs_upd_node:
  "macs_generated g \<Longrightarrow> (\<And>nd. node_name (f nd) = node_name nd) \<Longrightarrow> macs_generated (upd_node g n f)"
  by (simp add: macs_generated_def)

lemma macs_upd_iface:
  "macs_generated g \<Longrightarrow> (\<And>i. att_node (f i) = att_node i \<and> if_mac (f i) = if_mac i \<and> if_name (f i) = if_name i) \<Longrightarrow>
     macs_generated (upd_iface g q f)"
  by (simp add: macs_generated_def)

lemma macs_named:
  "macs_generated g \<Longrightarrow> (\<And>i. att_node (f i) = att_node i \<and> if_mac (f i) = if_mac i \<and> if_name (f i) = if_name i) \<Longrightarrow>
     macs_generated (on_named_intf g n nm f)"
  by (auto simp: on_named_intf_def intro: macs_upd_iface split: option.split)

lemma macs_generated_step: "config_step g g' \<Longrightarrow> config_ok g \<Longrightarrow> macs_generated g \<Longrightarrow> macs_generated g'"
proof (induction rule: config_step.induct)
  case (create g nm sock n g')
  note res = create_graph_node_result [OF create.hyps(1)]
  have i: "iface g' q = iface g q" for q by (rule links_eq_iface) (rule res(5))
  have "nodes g' k = nodes g k" if q: "fst q < n_links g" "att_node (iface g q) = Some k" for q k
  proof -
    obtain k' where "k' < n_nodes g" "att_node (iface g q) = Some k'" "q \<in> set (node_intfs g k')"
      by (rule graph_wf_att [OF config_ok_wf [OF create.prems(1)] q(1)])
    then show ?thesis using res(1) res(6) [of k] q(2) by simp
  qed
  then show ?case
    using create.prems(2) res(3) i unfolding macs_generated_def by metis
next
  case (insert_link n1 g n2 a b c)
  note wf = config_ok_wf [OF insert_link.prems(1)]
  note w1 = graph_wf_node [OF wf insert_link.hyps(1)] and w2 = graph_wf_node [OF wf insert_link.hyps(2)]
  show ?case
  proof (cases "length (node_intfs g n1) < 9 \<and> length (node_intfs g n2) < 9")
    case True
    note res = insert_link_result [OF node_wf_slots [OF w1] _ node_wf_slots [OF w2] _ insert_link.hyps(3), where a = a and b = b and c = c]
    let ?g = "insert_link_between_two_nodes g n1 n2 a b c"
    have nm: "node_name (nodes ?g k) = node_name (nodes g k)" for k using res(6) [of k] True by simp
    show ?thesis
      unfolding macs_generated_def
    proof (intro allI impI)
      fix q k assume q: "fst q < n_links ?g" "att_node (iface ?g q) = Some k"
      show "if_mac (iface ?g q) = gen_mac (node_name (nodes ?g k)) (if_name (iface ?g q))"
      proof (cases "fst q = n_links g")
        case at: True
        then have "q = (n_links g, Intf1) \<or> q = (n_links g, Intf2)" by (cases q; cases "snd q") auto
        then show ?thesis using q(2) res(5) [of q] True nm by (auto simp: fresh_intf_def)
      next
        case False
        then have "fst q < n_links g" "iface ?g q = iface g q" using q(1) res(1) res(5) [of q] True by auto
        then show ?thesis using q(2) insert_link.prems(2) nm by (simp add: macs_generated_def)
      qed
    qed
  next
    case False
    then have "insert_link_between_two_nodes g n1 n2 a b c = g"
      using node_wf_props(1) [OF w1] node_wf_props(1) [OF w2] by (intro insert_link_full [OF w1 w2]) linarith
    then show ?thesis using insert_link.prems by simp
  qed
next
  case (loopback n g ip g')
  then show ?case
    by (auto simp: node_set_loopback_address_def rbind_eq_Inr intro: macs_upd_node)
next
  case (set_ip n g m ip nm b g')
  then show ?case
    by (auto simp: node_set_intf_ip_address_def intf_set_ip_def rbind_eq_Inr Let_def split: option.splits
        intro!: macs_upd_node macs_upd_iface)
next
  case (unset_ip n g nm)
  then show ?case by (auto simp: node_unset_intf_ip_address_def intf_unset_ip_def split: option.split intro!: macs_upd_iface)
next
  case (set_mode n g nm m)
  then show ?case unfolding node_set_intf_l2_mode_def by (auto intro!: macs_named simp: set_l2_mode_def split: intf_l2_mode.split)
next
  case (add_vlan n g nm v)
  then show ?case unfolding node_set_intf_vlan_membership_def
    by (auto intro!: macs_named simp: interface_set_vlan_def add_vlan_to_trunk_membership_def IS_INTF_L3_MODE_def split: intf_l2_mode.split option.split)
next
  case (remove_vlan n g nm v)
  then show ?case by (auto simp: node_remove_vlan_membership_def intro!: macs_named)
next
  case (debug n g st)
  then show ?case by (auto simp: set_node_debug_status_def intro: macs_upd_node)
next
  case (route n g m dst gw oif rt)
  then show ?case by (auto intro: macs_upd_node)
qed

lemma configured_macs: "configured g \<Longrightarrow> macs_generated g"
proof -
  have fresh: "macs_generated (fresh_graph k nm)" for k nm by (simp add: macs_generated_def)
  assume "configured g"
  then obtain k nm where "config_step\<^sup>*\<^sup>* (fresh_graph k nm) g" by (auto simp: configured_def)
  then have "config_ok g \<and> macs_generated g"
    by (induction rule: rtranclp_induct)
      (auto intro: config_ok_fresh config_ok_step macs_generated_step fresh)
  then show ?thesis by simp
qed

section \<open>The switched topologies\<close>

text \<open>What a plan says of a graph that realises it, and what it leaves to the names.\<close>

definition plan_facts :: "interface \<Rightarrow> nid option \<times> string \<times> intf_l2_mode \<times> u16 list \<times> bool \<times> string \<times> u8" where
  "plan_facts i = (att_node i, if_name i, l2_mode i, vlans i, is_ipadd_config i, ip_add i, if_mask i)"

definition plan_table :: "plan \<Rightarrow> _" where
  "plan_table P = (p_nodes P, map (\<lambda>(i, j). (plan_facts i, plan_facts j)) (p_links P))"

lemma plan_table_realised:
  assumes "realises g P"
  shows "plan_table P = (map (\<lambda>n. (node_name (nodes g n), lb_addr (nodes g n), node_route_table (nodes g n))) [0..<n_nodes g],
    map (\<lambda>l. (plan_facts (iface g (l, Intf1)), plan_facts (iface g (l, Intf2)))) [0..<n_links g])"
proof -
  have "plan_facts (no_mac i) = plan_facts i" for i by (simp add: plan_facts_def no_mac_def)
  then show ?thesis using assms by (auto simp: realises_def plan_of_def plan_table_def)
qed

definition sample_graph :: "((nid \<Rightarrow> int option) \<Rightarrow> u32 \<Rightarrow> graph res) \<Rightarrow> graph" where
  "sample_graph build = (case build (\<lambda>_. Some 3) 40000 of Inr g \<Rightarrow> g | Inl _ \<Rightarrow> create_new_graph [])"

lemma sample_graph_table:
  assumes b: "build (\<lambda>_. Some 3) 40000 = run_actions as (fresh_graph k nm)" and i: "list_all2 implements as ss"
    and t: "map_option plan_table (run_plan ss \<lparr>p_nodes = [], p_links = []\<rparr>) = Some t"
  shows "configured (sample_graph build)" "slots_follow_links (sample_graph build)"
    "(map (\<lambda>n. (node_name (nodes (sample_graph build) n), lb_addr (nodes (sample_graph build) n), node_route_table (nodes (sample_graph build) n)))
        [0..<n_nodes (sample_graph build)],
      map (\<lambda>l. (plan_facts (iface (sample_graph build) (l, Intf1)), plan_facts (iface (sample_graph build) (l, Intf2))))
        [0..<n_links (sample_graph build)]) = t"
proof -
  obtain P where P: "run_plan ss \<lparr>p_nodes = [], p_links = []\<rparr> = Some P" "plan_table P = t" using t by auto
  obtain g where "build (\<lambda>_. Some 3) 40000 = Inr g" "realises g P"
    using builder_realises [OF i P(1)] b by metis
  then have r: "realises (sample_graph build) P" by (simp add: sample_graph_def)
  show "configured (sample_graph build)" "slots_follow_links (sample_graph build)"
    using r by (simp_all add: realises_def)
  show "(map (\<lambda>n. (node_name (nodes (sample_graph build) n), lb_addr (nodes (sample_graph build) n), node_route_table (nodes (sample_graph build) n)))
        [0..<n_nodes (sample_graph build)],
      map (\<lambda>l. (plan_facts (iface (sample_graph build) (l, Intf1)), plan_facts (iface (sample_graph build) (l, Intf2))))
        [0..<n_links (sample_graph build)]) = t"
    using plan_table_realised [OF r] P(2) by simp
qed

definition dual_graph :: graph where
  "dual_graph = sample_graph build_dual_switch_topology"

abbreviation host_routes :: "string \<Rightarrow> route_table" where
  "host_routes lb \<equiv> [\<lparr>rt_dest = ''10.1.1.0'', rt_mask = 24, is_direct = True, rt_gw = [], rt_oif = []\<rparr>,
     \<lparr>rt_dest = lb, rt_mask = 32, is_direct = True, rt_gw = [], rt_oif = []\<rparr>]"

text \<open>The nodes with their routes, and the two ends of every link.\<close>

definition dual_nodes_table :: "(string \<times> string \<times> route_table) list" where
  "dual_nodes_table =
     [(''SW01'', [], []), (''SW02'', [], []), (''H1'', ''1.1.1.1'', host_routes ''1.1.1.1''), (''H2'', ''2.2.2.2'', host_routes ''2.2.2.2''),
      (''H3'', ''3.3.3.3'', host_routes ''3.3.3.3''), (''H4'', ''4.4.4.4'', host_routes ''4.4.4.4''), (''H5'', ''5.5.5.5'', host_routes ''5.5.5.5''),
      (''H6'', ''6.6.6.6'', host_routes ''6.6.6.6'')]"

definition dual_links_table :: "(_ \<times> _) list" where
  "dual_links_table =
     (let z = [0, 0, 0, 0, 0, 0, 0, 0, 0, 0]; trunk = [10, 11, 0, 0, 0, 0, 0, 0, 0, 0]; access = [10, 0, 0, 0, 0, 0, 0, 0, 0, 0] in
     [((Some 0, ''ge0/1'', TRUNK, trunk, False, [], 0), (Some 1, ''ge0/1'', TRUNK, trunk, False, [], 0)),
      ((Some 0, ''eth0/1'', ACCESS, access, False, [], 0), (Some 2, ''eth0'', L2_MODE_UNKNOWN, z, True, ''10.1.1.1'', 24)),
      ((Some 0, ''eth0/2'', ACCESS, access, False, [], 0), (Some 3, ''eth0'', L2_MODE_UNKNOWN, z, True, ''10.1.1.2'', 24)),
      ((Some 0, ''eth0/3'', ACCESS, access, False, [], 0), (Some 4, ''eth0'', L2_MODE_UNKNOWN, z, True, ''10.1.1.3'', 24)),
      ((Some 1, ''eth0/4'', ACCESS, access, False, [], 0), (Some 5, ''eth0'', L2_MODE_UNKNOWN, z, True, ''10.1.1.4'', 24)),
      ((Some 1, ''eth0/5'', ACCESS, access, False, [], 0), (Some 6, ''eth0'', L2_MODE_UNKNOWN, z, True, ''10.1.1.5'', 24)),
      ((Some 1, ''eth0/6'', ACCESS, access, False, [], 0), (Some 7, ''eth0'', L2_MODE_UNKNOWN, z, True, ''10.1.1.6'', 24))])"

lemma dual_table:
  "map_option plan_table (run_plan dual_plan \<lparr>p_nodes = [], p_links = []\<rparr>) = Some (dual_nodes_table, dual_links_table)"
  by code_simp

lemma dual_graph_built:
  "configured dual_graph" "slots_follow_links dual_graph"
  "map (\<lambda>n. (node_name (nodes dual_graph n), lb_addr (nodes dual_graph n), node_route_table (nodes dual_graph n))) [0..<n_nodes dual_graph] = dual_nodes_table"
  "map (\<lambda>l. (plan_facts (iface dual_graph (l, Intf1)), plan_facts (iface dual_graph (l, Intf2)))) [0..<n_links dual_graph] =
     dual_links_table"
proof -
  have "\<exists>as k nm. build_dual_switch_topology (\<lambda>_. Some 3) 40000 = run_actions as (fresh_graph k nm) \<and>
      list_all2 implements as dual_plan"
    unfolding build_dual_switch_topology_def Let_def
    by (intro exI conjI, rule refl) (simp add: dual_plan_def implements_actions)
  then obtain as k nm where b: "build_dual_switch_topology (\<lambda>_. Some 3) 40000 = run_actions as (fresh_graph k nm)"
    "list_all2 implements as dual_plan" by blast
  note t = sample_graph_table [where build = build_dual_switch_topology, OF b dual_table, folded dual_graph_def]
  show "configured dual_graph" "slots_follow_links dual_graph" using t(1,2) .
  show "map (\<lambda>n. (node_name (nodes dual_graph n), lb_addr (nodes dual_graph n), node_route_table (nodes dual_graph n))) [0..<n_nodes dual_graph] = dual_nodes_table"
    "map (\<lambda>l. (plan_facts (iface dual_graph (l, Intf1)), plan_facts (iface dual_graph (l, Intf2)))) [0..<n_links dual_graph] =
     dual_links_table"
    using t(3) by simp_all
qed

lemma dual_sizes [simp]: "n_nodes dual_graph = 8" "n_links dual_graph = 7"
  using arg_cong [OF dual_graph_built(3), of length] arg_cong [OF dual_graph_built(4), of length]
  by (simp_all add: dual_nodes_table_def dual_links_table_def Let_def)

lemma upto_sizes: "[0..<7] = [0, 1, 2, 3, 4, 5, 6]" "[0..<8] = [0, 1, 2, 3, 4, 5, 6, 7]"
  by code_simp+

lemmas dual_ends = dual_graph_built(4) [unfolded dual_sizes upto_sizes dual_links_table_def Let_def plan_facts_def, simplified]
lemmas dual_nodes = dual_graph_built(3) [unfolded dual_sizes upto_sizes dual_nodes_table_def, simplified]

lemma dual_intfs:
  "node_intfs dual_graph 0 = [(0, Intf1), (Suc 0, Intf1), (2, Intf1), (3, Intf1)]"
  "node_intfs dual_graph (Suc 0) = [(0, Intf2), (4, Intf1), (5, Intf1), (6, Intf1)]"
  "node_intfs dual_graph 2 = [(Suc 0, Intf2)]" "node_intfs dual_graph 3 = [(2, Intf2)]" "node_intfs dual_graph 5 = [(4, Intf2)]"
  using dual_graph_built(2) dual_ends
  by (simp_all add: slots_follow_links_def all_ends_def upto_sizes)

lemma host_macs: "gen_mac ''H1'' ''eth0'' = [137, 142, 104, 255, 0, 0]" "gen_mac ''H2'' ''eth0'' = [26, 198, 234, 181, 0, 0]"
  by code_simp+

lemma dual_macs:
  "if_mac (iface dual_graph (Suc 0, Intf2)) = [137, 142, 104, 255, 0, 0]"
  "if_mac (iface dual_graph (2, Intf2)) = [26, 198, 234, 181, 0, 0]"
  using configured_macs [OF dual_graph_built(1)] dual_ends dual_nodes
  by (simp_all add: macs_generated_def host_macs)

definition switch_graph :: graph where
  "switch_graph = sample_graph build_simple_l2_switch_topology"

definition switch_links_table :: "(_ \<times> _) list" where
  "switch_links_table =
     (let z = [0, 0, 0, 0, 0, 0, 0, 0, 0, 0] in
     [((Some 0, ''eth0/1'', ACCESS, z, False, [], 0), (Some 1, ''eth0'', L2_MODE_UNKNOWN, z, True, ''10.1.1.1'', 24)),
      ((Some 0, ''eth0/2'', ACCESS, z, False, [], 0), (Some 2, ''eth0'', L2_MODE_UNKNOWN, z, True, ''10.1.1.2'', 24)),
      ((Some 0, ''eth0/3'', ACCESS, z, False, [], 0), (Some 3, ''eth0'', L2_MODE_UNKNOWN, z, True, ''10.1.1.3'', 24)),
      ((Some 0, ''eth0/4'', ACCESS, z, False, [], 0), (Some 4, ''eth0'', L2_MODE_UNKNOWN, z, True, ''10.1.1.4'', 24))])"

lemma switch_table:
  "map_option plan_table (run_plan switch_plan \<lparr>p_nodes = [], p_links = []\<rparr>) = Some
    ([(''SW01'', [], []), (''H1'', ''1.1.1.1'', host_routes ''1.1.1.1''), (''H2'', ''2.2.2.2'', host_routes ''2.2.2.2''),
      (''H3'', ''3.3.3.3'', host_routes ''3.3.3.3''), (''H4'', ''4.4.4.4'', host_routes ''4.4.4.4'')], switch_links_table)"
  by code_simp

lemma switch_graph_built:
  "configured switch_graph" "slots_follow_links switch_graph" "n_nodes switch_graph = 5"
  "map (\<lambda>l. (plan_facts (iface switch_graph (l, Intf1)), plan_facts (iface switch_graph (l, Intf2)))) [0..<n_links switch_graph] =
     switch_links_table"
proof -
  have "\<exists>as k nm. build_simple_l2_switch_topology (\<lambda>_. Some 3) 40000 = run_actions as (fresh_graph k nm) \<and>
      list_all2 implements as switch_plan"
    unfolding build_simple_l2_switch_topology_def Let_def
    by (intro exI conjI, rule refl) (simp add: switch_plan_def implements_actions)
  then obtain as k nm where b: "build_simple_l2_switch_topology (\<lambda>_. Some 3) 40000 = run_actions as (fresh_graph k nm)"
    "list_all2 implements as switch_plan" by blast
  note t = sample_graph_table [where build = build_simple_l2_switch_topology, OF b switch_table, folded switch_graph_def]
  show "configured switch_graph" "slots_follow_links switch_graph" using t(1,2) .
  show "n_nodes switch_graph = 5" using arg_cong [OF t(3), of "\<lambda>(xs, _). length xs"] by simp
  show "map (\<lambda>l. (plan_facts (iface switch_graph (l, Intf1)), plan_facts (iface switch_graph (l, Intf2))))
      [0..<n_links switch_graph] = switch_links_table"
    using t(3) by simp
qed

lemma switch_sizes [simp]: "n_nodes switch_graph = 5" "n_links switch_graph = 4"
  using switch_graph_built(3) arg_cong [OF switch_graph_built(4), of length]
  by (simp_all add: switch_links_table_def Let_def)

lemma upto_four: "[0..<4] = [0, 1, 2, 3]"
  by code_simp

lemmas switch_ends = switch_graph_built(4) [unfolded switch_sizes upto_four switch_links_table_def Let_def plan_facts_def, simplified]

lemma switch_intfs:
  "node_intfs switch_graph 0 = [(0, Intf1), (Suc 0, Intf1), (2, Intf1), (3, Intf1)]"
  "node_intfs switch_graph (Suc 0) = [(0, Intf2)]"
  using switch_graph_built(2) switch_ends
  by (simp_all add: slots_follow_links_def all_ends_def upto_four)

end
