(* ===== verification/Switched.thy ===== *)
theory Switched
  imports Delivery Traffic Samples
begin

text \<open>
  A frame on its way through a switch, from the datagram that comes in to those that go out:
  into an access port (where it is tagged), an access port without a VLAN (where it is not)
  or a trunk; out of the port its destination was learned on, or flooded.
\<close>

section \<open>Into an access port and out of another\<close>

text \<open>A VLAN id has 12 bits in a tag, and an access port with id 0 does not tag.\<close>

definition access_port :: "graph \<Rightarrow> ifptr \<Rightarrow> u16 \<Rightarrow> bool" where
  "access_port g p v \<longleftrightarrow> l2_mode (iface g p) = ACCESS \<and> vlans (iface g p) ! 0 = v \<and> v \<noteq> 0 \<and> v < 0x1000"

definition host_frame :: "bytes \<Rightarrow> bytes \<Rightarrow> u16 \<Rightarrow> bytes \<Rightarrow> bytes" where
  "host_frame d s t body = d @ s @ le16 t @ body"

lemma arp_host_frame: "arp_frame d s a = host_frame d s ARP_PACKET (arp_bytes a @ zeros 4)"
  by (simp add: arp_frame_def host_frame_def)

lemma access_port_carries: "access_port g p v \<Longrightarrow> carries (iface g p) v"
  by (simp add: access_port_def carries_def)

text \<open>The frame inside the switch: tagged, twelve bytes behind the start of the buffer.\<close>

lemma switch_takes_frame:
  assumes ok: "config_ok (topo w)" and j: "joins (topo w) q n sw" and t: "topo w' = topo w"
    and acc: "access_port (topo w) (remote_intf q) v"
    and l: "length d = 6" "length s = 6" "length body \<le> 2014" and ty: "ty \<noteq> VLAN_TAG"
  obtains b tci where "frame_at b 12 d s tci (le16 ty @ body @ zeros (2018 - length body))" "tci_vid tci = v"
    and "node_receive fuel E w' sw (dg_data (frame_dgram w q (host_frame d s ty body))) =
      l2_switch_forward_frame E (learned w' sw s (if_name (iface (topo w) (remote_intf q)))) sw
        (remote_intf q) b 12 (of_nat (18 + length body))"
proof -
  note wf = config_ok_wf [OF ok]
  let ?p = "remote_intf q"
  let ?i = "iface (topo w) ?p" and ?z = "zeros (2018 - length body)"
  have r: "fst ?p < n_links (topo w)" and att: "att_node ?i = Some sw" using j by (simp_all add: joins_def)
  have v: "l2_mode ?i = ACCESS" "vlans ?i ! 0 = v" "v \<noteq> 0" "v < 0x1000"
    using acc by (simp_all add: access_port_def)
  obtain pre x where h: "char_array IF_NAME_SIZE (if_name ?i) = pre @ x" "length pre = 12" "length x = 4"
    using split_at [of "char_array IF_NAME_SIZE (if_name ?i)" 12 4] length_header [OF wf r] by auto
  have nm: "length (if_name ?i) < IF_NAME_SIZE"
    using graph_wf_iface [OF wf r] by (simp add: iface_wf_def fits_def)
  define tci where "tci = tci_set_vid (of_le16 (drop 4 s)) v"
  define b where "b = pre @ tagged_frame d s tci (le16 ty @ body @ ?z)"
  let ?b0 = "(pre @ x) @ d @ s @ le16 ty @ body @ ?z"
  let ?k = "of_nat (14 + length body) :: u32"
  have fr: "frame_at b 12 d s tci (le16 ty @ body @ ?z)"
    using l h by (auto simp: frame_at_def b_def)
  have "l2_frame_recv_qualify_on_interface ?i ?b0 16 = Inr (True, Some v)"
    using v ty frame_fields [of "pre @ x" 16 d s ty "body @ ?z"] l h
    by (simp add: l2_frame_recv_qualify_on_interface_def Let_def IS_INTF_L3_MODE_def get_access_intf_operating_vlan_id_def)
  moreover have "\<not> IS_INTF_L3_MODE ?i"
    using no_ip_in_l2 [OF config_ok_intf [OF ok r]] v by (simp add: IS_INTF_L3_MODE_def)
  moreover have "tag_pkt_with_vlan_id ?b0 16 ?k v = Inr (b, 12, of_nat (18 + length body))"
    using tag_untagged [of pre 12 x d s "le16 ty" "body @ ?z" ?k v] l h ty
    by (simp add: b_def tagged_frame_def tci_def add.commute)
  ultimately have "layer2_frame_recv fuel E w' sw ?p ?b0 16 ?k =
      l2_switch_recv_frame E w' ?p b 12 (of_nat (18 + length body))"
    using v t by (simp add: layer2_frame_recv_def)
  also have "\<dots> = l2_switch_forward_frame E (learned w' sw s (if_name ?i)) sw ?p b 12 (of_nat (18 + length body))"
    using recv_frame_learned [of w' ?p sw b 12 s E] att nm t frame_at_fields(4) [OF fr] by simp
  finally have "node_receive fuel E w' sw (dg_data (frame_dgram w q (host_frame d s ty body))) = \<dots>"
    using node_receive_frame [OF wf j t, of "host_frame d s ty body" fuel E] l h
    by (simp add: host_frame_def)
  then show thesis using that fr v(4) by (simp add: tci_def tci_vid_set)
qed

text \<open>What the switch learns changes no wire.\<close>

lemma frame_dgram_learned [simp]: "frame_dgram (learned w k m nm) q pkt = frame_dgram w q pkt"
  by (simp add: frame_dgram_def learned_def get_nbr_node_remote)

lemma joins_learned [simp]: "joins (topo (learned w k m nm)) q n sw = joins (topo w) q n sw"
  by (simp add: joins_def unique_names_def node_intfs_def)

lemma access_port_learned [simp]: "access_port (topo (learned w k m nm)) p v = access_port (topo w) p v"
  by (simp add: access_port_def)

lemma node_port_learned [simp]: "node_port (learned w k m nm) n = node_port w n"
  by (simp add: node_port_def learned_def)

lemma learned_nodes:
  "node_arp_table (nodes (topo (learned w k mc nm)) n) = node_arp_table (nodes (topo w) n)"
  "node_route_table (nodes (topo (learned w k mc nm)) n) = node_route_table (nodes (topo w) n)"
  "node_intfs (topo (learned w k mc nm)) n = node_intfs (topo w) n"
  "lb_addr (nodes (topo (learned w k mc nm)) n) = lb_addr (nodes (topo w) n)"
  by (simp_all add: learned_def node_intfs_def)

lemma crossing_ports:
  assumes "joins (topo w) q n sw"
  shows "dport (frame_dgram w q pkt) = node_port w sw" "dport (frame_dgram w (remote_intf q) pkt) = node_port w n"
  using assms by (simp_all add: frame_dgram_def node_port_def joins_def get_nbr_node_remote)

lemma stems_apart_neq: "stems_apart a b \<Longrightarrow> a \<noteq> b"
  by (auto simp: stems_apart_def)

lemma learn_two:
  assumes "mac_table_ok t" "length a = 6" "length b = 6" "stems_apart a b"
  shows "mac_port (mac_learn (mac_learn t a p) b p') a = Some p"
    "mac_port (mac_learn (mac_learn t a p) b p') b = Some p'"
  using assms mact.lookup_other [OF mact.inv_learn [of t a p], of b a p'] mact.lookup_learn [of t a p]
    mact.lookup_learn [OF mact.inv_learn [of t a p], of b p'] stems_apart_neq
  by (auto simp: mac_len_ok_def)

lemma joins_far_port:
  assumes "graph_wf g" "joins g q n sw"
  shows "remote_intf q \<in> set (node_intfs g sw)" "fst (remote_intf q) < n_links g"
    "get_node_if_by_name g sw (if_name (iface g (remote_intf q))) = Some (remote_intf q)"
proof -
  show r: "fst (remote_intf q) < n_links g" using assms(2) by (simp add: joins_def)
  obtain k where "k < n_nodes g" "att_node (iface g (remote_intf q)) = Some k" "remote_intf q \<in> set (node_intfs g k)"
    by (rule graph_wf_att [OF assms(1) r])
  then show i: "remote_intf q \<in> set (node_intfs g sw)" using assms(2) by (simp add: joins_def)
  show "get_node_if_by_name g sw (if_name (iface g (remote_intf q))) = Some (remote_intf q)"
    using get_node_if_by_name_self [OF graph_wf_node [OF assms(1) joins_nodes(2) [OF assms]] i] assms(2)
    by (simp add: joins_def unique_names_def)
qed

text \<open>A tagged frame to an address that the switch has learned on an access port.\<close>

lemma forward_to_access:
  assumes ok: "config_ok (topo w)" and jr: "joins (topo w) r m sw" and acc: "access_port (topo w) (remote_intf r) y"
    and fr: "frame_at b p d s tci rest" and d: "d \<noteq> broadcast_mac"
    and known: "mac_port (node_mac_table (nodes (topo w) sw)) d = Some (if_name (iface (topo w) (remote_intf r)))"
    and k: "unat k = 12 + j" "j \<le> length rest" "unat k \<le> 2032"
  shows "l2_switch_forward_frame E w sw iif b p k =
    Inr (if y = tci_vid tci then transmit w (remote_intf r) (d @ s @ take j rest) else w)"
proof -
  note wf = config_ok_wf [OF ok]
  note far = joins_far_port [OF wf jr]
  let ?r = "remote_intf r"
  have mode: "l2_mode (iface (topo w) ?r) = ACCESS" "carries (iface (topo w) ?r) v \<longleftrightarrow> v = y" for v
    using acc by (auto simp: access_port_def carries_def)
  have ni: "\<not> is_ipadd_config (iface (topo w) ?r)"
    using no_ip_in_l2 config_ok_intf [OF ok far(2)] mode by simp
  have fw: "l2_switch_forward_frame E w sw iif b p k =
      rbind (l2_switch_send_pkt_out E w b p k (Some ?r)) (\<lambda>(_, w1, _). Inr w1)"
    by (rule forward_known [OF frame_at_fields(3) [OF fr] d known far(3)])
  show ?thesis
  proof (cases "y = tci_vid tci")
    case True
    obtain b' where "l2_switch_send_pkt_out E w b p k (Some ?r) = Inr (True, transmit w ?r (d @ s @ take j rest), b')"
      by (rule l2_send_access [OF fr ni _ mode(1) wf far(2) k]) (use mode(2) True in simp)
    then show ?thesis using fw True by simp
  next
    case False
    then show ?thesis using l2_send_blocked [OF fr ni, of E k] fw mode(2) by simp
  qed
qed

lemma switch_unicast:
  assumes ok: "config_ok (topo w)" and jq: "joins (topo w) q n sw" and jr: "joins (topo w) r m sw"
    and acc: "access_port (topo w) (remote_intf q) v" "access_port (topo w) (remote_intf r) v"
    and l: "length d = 6" "length s = 6" "length body \<le> 2014" and ty: "ty \<noteq> VLAN_TAG"
    and d: "d \<noteq> broadcast_mac"
    and known: "mac_port (mac_learn (node_mac_table (nodes (topo w) sw)) s (if_name (iface (topo w) (remote_intf q)))) d
      = Some (if_name (iface (topo w) (remote_intf r)))"
  shows "node_receive fuel E w sw (dg_data (frame_dgram w q (host_frame d s ty body))) =
    Inr (transmit (learned w sw s (if_name (iface (topo w) (remote_intf q)))) (remote_intf r)
      (host_frame d s ty (body @ zeros 4)))"
proof (rule switch_takes_frame [OF ok jq refl acc(1) l ty, of fuel E])
  fix b tci
  assume fr: "frame_at b 12 d s tci (le16 ty @ body @ zeros (2018 - length body))" and vid: "tci_vid tci = v"
    and rcv: "node_receive fuel E w sw (dg_data (frame_dgram w q (host_frame d s ty body))) =
      l2_switch_forward_frame E (learned w sw s (if_name (iface (topo w) (remote_intf q)))) sw
        (remote_intf q) b 12 (of_nat (18 + length body))"
  let ?w = "learned w sw s (if_name (iface (topo w) (remote_intf q)))"
  let ?n = "of_nat (18 + length body) :: u32"
  have n: "unat ?n = 12 + (6 + length body)" using l(3) by (simp add: unat_of_nat unat_word_ariths)
  have "l2_switch_forward_frame E ?w sw (remote_intf q) b 12 ?n = Inr (if v = tci_vid tci then transmit ?w (remote_intf r)
      (d @ s @ take (6 + length body) (le16 ty @ body @ zeros (2018 - length body))) else ?w)"
    by (rule forward_to_access [OF config_ok_learned [OF ok l(2)] _ _ fr d _ n]) (use jr acc known l n in simp_all)
  then show ?thesis using rcv vid l(3) by (simp add: host_frame_def)
qed

text \<open>
  A broadcast from a host is flooded. The trunks of the VLAN in the slots before the first
  access port get copies, then that port gets the frame; the ports behind it get nothing,
  unless one of them carries what happens to be in an uninitialised variable.
\<close>

definition first_access_behind :: "env \<Rightarrow> graph \<Rightarrow> nid \<Rightarrow> ifptr \<Rightarrow> ifptr \<Rightarrow> u16 \<Rightarrow> bool" where
  "first_access_behind E g sw p p' v \<longleftrightarrow> p' \<noteq> p \<and> (\<exists>xs ys. node_intfs g sw = xs @ p' # ys \<and>
     only_trunks g p v xs \<and> (\<forall>w'. \<forall>y \<in> set ys. \<not> carries (iface g y) (uninit_vlan E w')))"

lemma switch_broadcast:
  assumes ok: "config_ok (topo w)" and jq: "joins (topo w) q n sw" and jr: "joins (topo w) r m sw"
    and acc: "access_port (topo w) (remote_intf q) v" "access_port (topo w) (remote_intf r) v"
    and fst: "first_access_behind E (topo w) sw (remote_intf q) (remote_intf r) v"
    and l: "length s = 6" "length body \<le> 2014" and ty: "ty \<noteq> VLAN_TAG"
    and src: "of_le16 (take 2 (drop 2 s)) \<noteq> VLAN_TAG"
  obtains copies where "node_receive fuel E w sw (dg_data (frame_dgram w q (host_frame broadcast_mac s ty body))) =
    Inr ((learned w sw s (if_name (iface (topo w) (remote_intf q))))\<lparr>sent := sent w @ copies @
      [frame_dgram w (remote_intf r) (host_frame broadcast_mac s ty (body @ zeros 4))]\<rparr>)"
proof (rule switch_takes_frame [OF ok jq refl acc(1) _ l ty, of broadcast_mac fuel E])
  show "length broadcast_mac = 6" by (simp add: broadcast_mac_def)
  fix b tci
  assume fr: "frame_at b 12 broadcast_mac s tci (le16 ty @ body @ zeros (2018 - length body))" and vid: "tci_vid tci = v"
    and rcv: "node_receive fuel E w sw (dg_data (frame_dgram w q (host_frame broadcast_mac s ty body))) =
      l2_switch_forward_frame E (learned w sw s (if_name (iface (topo w) (remote_intf q)))) sw
        (remote_intf q) b 12 (of_nat (18 + length body))"
  note wf = config_ok_wf [OF ok]
  note far = joins_far_port [OF wf jr]
  have swn: "sw < n_nodes (topo w)" by (rule joins_nodes(2) [OF wf jr])
  let ?w = "learned w sw s (if_name (iface (topo w) (remote_intf q)))"
  let ?n = "of_nat (18 + length body) :: u32"
  have ok': "config_ok (topo ?w)" by (rule config_ok_learned [OF ok l(1)])
  note wn = graph_wf_node [OF wf swn]
  obtain xs ys where ports: "node_intfs (topo w) sw = xs @ remote_intf r # ys"
    and xs: "only_trunks (topo w) (remote_intf q) v xs"
    and ys: "\<forall>w'. \<forall>y \<in> set ys. \<not> carries (iface (topo w) y) (uninit_vlan E w')"
    using fst by (auto simp: first_access_behind_def)
  let ?k = "2 + length body"
  let ?rest = "le16 ty @ body @ zeros (2018 - length body)"
  let ?copies = "map (\<lambda>p. frame_dgram w p (tagged_frame broadcast_mac s tci (take ?k ?rest)))
      (flood_ports (topo w) (remote_intf q) v xs)"
  have n: "unat ?n = 16 + ?k" using l(2) by (simp add: unat_of_nat unat_word_ariths)
  have len: "?k + 4 \<le> length ?rest" "unat ?n \<le> 2032" using l(2) n by simp_all
  have ps: "\<forall>p \<in> set (xs @ remote_intf r # ys). fst p < n_links (topo ?w) \<and> intf_cfg_ok (iface (topo ?w) p)"
    using node_intfs_links [OF wf swn] config_ok_intf [OF ok] unfolding ports [symmetric] learned_frame by blast
  have tr: "only_trunks (topo ?w) (remote_intf q) (tci_vid tci) xs"
    using xs vid by (simp add: only_trunks_def flood_ports_def)
  have out: "remote_intf r \<noteq> remote_intf q" "carries (iface (topo ?w) (remote_intf r)) (tci_vid tci)"
    "l2_mode (iface (topo ?w) (remote_intf r)) = ACCESS"
    using fst acc(2) access_port_carries [OF acc(2)] vid by (simp_all add: first_access_behind_def access_port_def)
  have junk: "\<forall>w'. topo w' = topo ?w \<longrightarrow> (\<forall>y \<in> set ys. \<not> carries (iface (topo ?w) y) (uninit_vlan E w'))"
    using ys by simp
  obtain b' where b': "l2_flood_loop E (remote_intf q) 12 ?n
      (map Some (xs @ remote_intf r # ys) @ replicate (MAX_INTF_PER_NODE - length (node_intfs (topo w) sw)) None) ?w b =
    Inr (transmit (transmit_all ?w (flood_ports (topo ?w) (remote_intf q) (tci_vid tci) xs)
        (tagged_frame broadcast_mac s tci (take ?k ?rest))) (remote_intf r)
        (broadcast_mac @ s @ take (?k + 4) ?rest), b')"
    using flood_access_first [OF fr n len config_ok_wf [OF ok'] ps tr out src junk] by blast
  have slots: "intf (nodes (topo ?w) sw) = map Some (xs @ remote_intf r # ys) @
      replicate (MAX_INTF_PER_NODE - length (node_intfs (topo w) sw)) None"
    unfolding learned_frame node_wf_slots [OF wn] slots_def ports ..
  have fl: "l2_switch_flood_pkt_out E ?w sw (remote_intf q) b 12 ?n =
      Inr (transmit (transmit_all ?w (flood_ports (topo ?w) (remote_intf q) (tci_vid tci) xs)
        (tagged_frame broadcast_mac s tci (take ?k ?rest))) (remote_intf r) (broadcast_mac @ s @ take (?k + 4) ?rest))"
    unfolding l2_switch_flood_pkt_out_def slots b' by simp
  have "l2_switch_forward_frame E ?w sw (remote_intf q) b 12 ?n = l2_switch_flood_pkt_out E ?w sw (remote_intf q) b 12 ?n"
    by (rule forward_unknown [OF frame_at_fields(3) [OF fr]]) simp
  then have "node_receive fuel E w sw (dg_data (frame_dgram w q (host_frame broadcast_mac s ty body))) =
    Inr (?w\<lparr>sent := sent w @ ?copies @ [frame_dgram w (remote_intf r) (host_frame broadcast_mac s ty (body @ zeros 4))]\<rparr>)"
    using rcv fl vid l(2) by (simp add: transmit_def transmit_all_def host_frame_def flood_ports_def frame_dgram_sent)
  then show thesis by (rule that)
qed

section \<open>Access ports without a VLAN\<close>

text \<open>
  A frame that comes in on an access port whose VLAN id is 0 is not tagged. Where it leaves, the
  port's VLAN is compared with a variable that was never set; if the two agree, there is no
  tag to remove, so the frame leaves as it came, on every such port.
\<close>

definition plain_port :: "graph \<Rightarrow> ifptr \<Rightarrow> bool" where
  "plain_port g p \<longleftrightarrow> l2_mode (iface g p) = ACCESS \<and> vlans (iface g p) ! 0 = 0"

lemma l2_send_untagged:
  assumes b: "is_pkt_vlan_tagged b p = Inr False" "rd b p (unat k) = Inr pkt" "unat k \<le> 2032"
    and wf: "graph_wf (topo w)" and q: "fst q < n_links (topo w)" "intf_cfg_ok (iface (topo w) q)" "plain_port (topo w) q"
  shows "l2_switch_send_pkt_out E w b p k (Some q) =
    Inr (if uninit_vlan E w = 0 then (True, transmit w q pkt, b) else (False, w, b))"
  using no_ip_in_l2 [OF q(2)] q(3) send_pkt_out_transmit [OF wf q(1) b(2,3)] untag_untagged [OF b(1)] b(1)
  by (auto simp: l2_switch_send_pkt_out_def IS_INTF_L3_MODE_def Let_def plain_port_def get_access_intf_operating_vlan_id_def)

lemma flood_untagged:
  assumes b: "is_pkt_vlan_tagged b p = Inr False" "rd b p (unat k) = Inr pkt" "unat k \<le> 2032"
    and x: "\<forall>w'. uninit_vlan E w' = x" and wf: "graph_wf (topo w)"
    and ps: "\<forall>q \<in> set ps. fst q < n_links (topo w) \<and> intf_cfg_ok (iface (topo w) q) \<and> plain_port (topo w) q"
  shows "l2_flood_loop E iif p k (map Some ps @ replicate j None) w b =
    Inr (transmit_all w (if x = 0 then filter (\<lambda>q. q \<noteq> iif) ps else []) pkt, b)"
  using wf ps
proof (induction ps arbitrary: w)
  case Nil
  have "l2_flood_loop E iif p k (replicate j None) w b = Inr (w, b)" by (induction j) simp_all
  then show ?case by simp
next
  case (Cons q ps)
  have ps: "\<forall>q \<in> set ps. fst q < n_links (topo w) \<and> intf_cfg_ok (iface (topo w) q) \<and> plain_port (topo w) q"
    and q: "fst q < n_links (topo w)" "intf_cfg_ok (iface (topo w) q)" "plain_port (topo w) q"
    using Cons.prems by auto
  note send = l2_send_untagged [OF b Cons.prems(1) q, of E]
  have m: "l2_mode (iface (topo w) q) \<noteq> L2_MODE_UNKNOWN" using q(3) by (simp add: plain_port_def)
  have ps': "\<forall>q' \<in> set ps. fst q' < n_links (topo (transmit w q pkt)) \<and>
      intf_cfg_ok (iface (topo (transmit w q pkt)) q') \<and> plain_port (topo (transmit w q pkt)) q'"
    using ps by simp
  note IH = Cons.IH [OF Cons.prems(1) ps] Cons.IH [of "transmit w q pkt", OF _ ps']
  show ?case
    using IH send m x Cons.prems(1) by (cases "q = iif"; cases "x = 0") simp_all
qed

text \<open>Where the switch sends a frame for \<open>d\<close> that came in on \<open>iif\<close>, judged by its table.\<close>

definition switch_targets :: "graph \<Rightarrow> nid \<Rightarrow> mac_table \<Rightarrow> ifptr \<Rightarrow> bytes \<Rightarrow> ifptr list" where
  "switch_targets g sw t iif d =
     (if d = broadcast_mac \<or> mac_port t d = None then filter (\<lambda>q. q \<noteq> iif) (node_intfs g sw)
      else case get_node_if_by_name g sw (the (mac_port t d)) of None \<Rightarrow> [] | Some q \<Rightarrow> [q])"

lemma plain_takes_frame:
  assumes ok: "config_ok (topo w)" and j: "joins (topo w) q n sw"
    and plain: "plain_port (topo w) (remote_intf q)"
    and l: "length d = 6" "length s = 6" "length body \<le> 2018" and ty: "ty \<noteq> VLAN_TAG"
  obtains b where "is_pkt_vlan_tagged b 16 = Inr False" "eth_dest b 16 = Inr d"
    and "rd b 16 (14 + length body) = Inr (host_frame d s ty body)"
    and "node_receive fuel E w sw (dg_data (frame_dgram w q (host_frame d s ty body))) =
      l2_switch_forward_frame E (learned w sw s (if_name (iface (topo w) (remote_intf q)))) sw
        (remote_intf q) b 16 (of_nat (14 + length body))"
proof -
  note wf = config_ok_wf [OF ok]
  let ?p = "remote_intf q"
  let ?i = "iface (topo w) ?p" and ?z = "zeros (2018 - length body)"
  have r: "fst ?p < n_links (topo w)" and att: "att_node ?i = Some sw" using j by (simp_all add: joins_def)
  let ?hd = "char_array IF_NAME_SIZE (if_name ?i)"
  let ?b = "?hd @ d @ s @ le16 ty @ body @ ?z" and ?k = "of_nat (14 + length body) :: u32"
  have h: "length ?hd = 16" by (rule length_header [OF wf r])
  have nm: "length (if_name ?i) < IF_NAME_SIZE"
    using graph_wf_iface [OF wf r] by (simp add: iface_wf_def fits_def)
  note f = frame_fields [OF h l(1,2), of ty "body @ ?z"]
  have "l2_frame_recv_qualify_on_interface ?i ?b 16 = Inr (True, Some 0)"
    using plain ty f
    by (simp add: l2_frame_recv_qualify_on_interface_def Let_def IS_INTF_L3_MODE_def get_access_intf_operating_vlan_id_def plain_port_def)
  moreover have "\<not> IS_INTF_L3_MODE ?i" "l2_mode ?i \<noteq> L2_MODE_UNKNOWN"
    using no_ip_in_l2 [OF config_ok_intf [OF ok r]] plain by (simp_all add: IS_INTF_L3_MODE_def plain_port_def)
  ultimately have "layer2_frame_recv fuel E w sw ?p ?b 16 ?k = l2_switch_recv_frame E w ?p ?b 16 ?k"
    by (simp add: layer2_frame_recv_def)
  also have "\<dots> = l2_switch_forward_frame E (learned w sw s (if_name ?i)) sw ?p ?b 16 ?k"
    using recv_frame_learned [of w ?p sw ?b 16 s E] att nm f by simp
  finally have "node_receive fuel E w sw (dg_data (frame_dgram w q (host_frame d s ty body))) = \<dots>"
    using node_receive_frame [OF wf j refl, of "host_frame d s ty body" fuel E] l
    by (simp add: host_frame_def)
  moreover have "rd (?hd @ (d @ s @ le16 ty @ body) @ ?z) 16 (14 + length body) = Inr (d @ s @ le16 ty @ body)"
    by (rule rd_seg) (use h l in simp_all)
  ultimately show thesis
    using that [of ?b] f ty by (simp add: host_frame_def)
qed

lemma forward_untagged:
  assumes ok: "config_ok (topo w)" and sw: "sw < n_nodes (topo w)"
    and plain: "\<forall>p \<in> set (node_intfs (topo w) sw). plain_port (topo w) p"
    and b: "is_pkt_vlan_tagged b p = Inr False" "eth_dest b p = Inr d" "rd b p (unat k) = Inr pkt" "unat k \<le> 2032"
    and x: "\<forall>w'. uninit_vlan E w' = x"
    and known: "\<forall>nm. d \<noteq> broadcast_mac \<and> mac_port (node_mac_table (nodes (topo w) sw)) d = Some nm \<longrightarrow> get_node_if_by_name (topo w) sw nm \<noteq> None"
  shows "l2_switch_forward_frame E w sw iif b p k = Inr (transmit_all w (if x = 0 then
    switch_targets (topo w) sw (node_mac_table (nodes (topo w) sw)) iif d else []) pkt)"
proof -
  note wf = config_ok_wf [OF ok]
  note wn = graph_wf_node [OF wf sw]
  let ?t = "node_mac_table (nodes (topo w) sw)"
  have ps: "\<forall>q \<in> set (node_intfs (topo w) sw). fst q < n_links (topo w) \<and> intf_cfg_ok (iface (topo w) q) \<and> plain_port (topo w) q"
    using node_intfs_links [OF wf sw] config_ok_intf [OF ok] plain by blast
  show ?thesis
  proof (cases "d = broadcast_mac \<or> mac_port ?t d = None")
    case True
    then have "l2_switch_forward_frame E w sw iif b p k = l2_switch_flood_pkt_out E w sw iif b p k"
      by (rule forward_unknown [OF b(2)])
    also have "\<dots> = Inr (transmit_all w (if x = 0 then filter (\<lambda>q. q \<noteq> iif) (node_intfs (topo w) sw) else []) pkt)"
      unfolding l2_switch_flood_pkt_out_def node_wf_slots [OF wn] slots_def flood_untagged [OF b(1,3,4) x wf ps] by simp
    finally show ?thesis using True by (simp add: switch_targets_def)
  next
    case False
    then obtain nm q where q: "mac_port ?t d = Some nm" "get_node_if_by_name (topo w) sw nm = Some q"
      using known by fastforce
    have "q \<in> set (node_intfs (topo w) sw)"
      using q(2) unfolding get_node_if_by_name_find [OF wn] by (auto simp: find_Some_iff)
    then have q': "fst q < n_links (topo w)" "intf_cfg_ok (iface (topo w) q)" "plain_port (topo w) q" using ps by blast+
    have "l2_switch_forward_frame E w sw iif b p k =
        rbind (l2_switch_send_pkt_out E w b p k (Some q)) (\<lambda>(_, w1, _). Inr w1)"
      by (rule forward_known [OF b(2) _ q]) (use False in simp)
    then show ?thesis
      using l2_send_untagged [OF b(1,3,4) wf q', of E] x q False
      by (simp add: switch_targets_def transmit_def transmit_all_def)
  qed
qed

section \<open>Trunks\<close>

text \<open>
  A frame that comes in on a trunk is tagged again, with whatever the variable holds that
  admission sets for access ports only, unless that is 0.
\<close>

lemma trunk_takes_frame:
  assumes ok: "config_ok (topo w)" and j: "joins (topo w) q n sw"
    and tr: "l2_mode (iface (topo w) (remote_intf q)) = TRUNK" "tci_vid tci \<in> set (vlans (iface (topo w) (remote_intf q)))"
    and l: "length d = 6" "length s = 6" "length rest \<le> 2016" and x: "uninit_tag E w = x"
  obtains b where "frame_at b 16 d s (if x = 0 then tci else tci_set_vid tci x) (rest @ zeros (2016 - length rest))"
    and "node_receive fuel E w sw (dg_data (frame_dgram w q (tagged_frame d s tci rest))) =
      l2_switch_forward_frame E (learned w sw s (if_name (iface (topo w) (remote_intf q)))) sw
        (remote_intf q) b 16 (of_nat (16 + length rest))"
proof -
  note wf = config_ok_wf [OF ok]
  let ?p = "remote_intf q"
  let ?i = "iface (topo w) ?p" and ?z = "zeros (2016 - length rest)"
  have r: "fst ?p < n_links (topo w)" and att: "att_node ?i = Some sw" using j by (simp_all add: joins_def)
  let ?hd = "char_array IF_NAME_SIZE (if_name ?i)" and ?k = "of_nat (16 + length rest) :: u32"
  let ?b0 = "?hd @ tagged_frame d s tci (rest @ ?z)"
  define tci' where "tci' = (if x = 0 then tci else tci_set_vid tci x)"
  define b where "b = ?hd @ tagged_frame d s tci' (rest @ ?z)"
  have h: "length ?hd = 16" by (rule length_header [OF wf r])
  have nm: "length (if_name ?i) < IF_NAME_SIZE"
    using graph_wf_iface [OF wf r] by (simp add: iface_wf_def fits_def)
  have fr: "frame_at ?b0 16 d s tci (rest @ ?z)" "frame_at b 16 d s tci' (rest @ ?z)"
    using l h by (auto simp: frame_at_def b_def)
  have l2: "\<not> IS_INTF_L3_MODE ?i"
    using no_ip_in_l2 [OF config_ok_intf [OF ok r]] tr by (simp add: IS_INTF_L3_MODE_def)
  have "l2_frame_recv_qualify_on_interface ?i ?b0 16 = Inr (True, None)"
    using tr l2 frame_at_fields [OF fr(1)]
    by (simp add: l2_frame_recv_qualify_on_interface_def is_trunk_interface_vlan_member_def)
  moreover have "tag_pkt_with_vlan_id ?b0 16 ?k x = Inr (b, 16, ?k)" if "x \<noteq> 0"
    using tag_tagged [OF h l(1,2), of "le16 tci" "rest @ ?z" ?k x] that
    by (simp add: tagged_frame_def b_def tci'_def)
  moreover have "?b0 = b" if "x = 0" using that by (simp add: b_def tci'_def)
  ultimately have "layer2_frame_recv fuel E w sw ?p ?b0 16 ?k = l2_switch_recv_frame E w ?p b 16 ?k"
    using tr l2 x by (cases "x = 0") (simp_all add: layer2_frame_recv_def)
  also have "\<dots> = l2_switch_forward_frame E (learned w sw s (if_name ?i)) sw ?p b 16 ?k"
    by (rule recv_frame_learned [OF att frame_at_fields(4) [OF fr(2)] nm])
  finally have "node_receive fuel E w sw (dg_data (frame_dgram w q (tagged_frame d s tci rest))) = \<dots>"
    using node_receive_frame [OF wf j refl, of "tagged_frame d s tci rest" fuel E] l
    by (simp add: tagged_frame_def)
  then show thesis using that fr(2) by (simp add: tci'_def)
qed

section \<open>Properties\<close>

text \<open>C20: on a switch whose ports are access ports without a VLAN everything hangs on an uninitialised
  variable. If it holds 0, a frame leaves unchanged on the port its destination was learned
  on, or on every other port if the destination is unknown or all; if it holds anything else
  the switch forwards nothing.\<close>

theorem plain_switch_needs_luck:
  assumes ok: "config_ok (topo w)" and j: "joins (topo w) q n sw"
    and plain: "\<forall>p \<in> set (node_intfs (topo w) sw). plain_port (topo w) p"
    and l: "length d = 6" "length s = 6" "length body \<le> 2018" and ty: "ty \<noteq> VLAN_TAG"
    and x: "\<forall>w'. uninit_vlan E w' = x"
    and t: "t = mac_learn (node_mac_table (nodes (topo w) sw)) s (if_name (iface (topo w) (remote_intf q)))"
    and known: "\<forall>nm. d \<noteq> broadcast_mac \<and> mac_port t d = Some nm \<longrightarrow> get_node_if_by_name (topo w) sw nm \<noteq> None"
  shows "\<exists>w1. node_receive fuel E w sw (dg_data (frame_dgram w q (host_frame d s ty body))) = Inr w1 \<and>
    node_mac_table (nodes (topo w1) sw) = t \<and>
    sent w1 = sent w @ (if x = 0 then map (\<lambda>p. frame_dgram w p (host_frame d s ty body))
      (switch_targets (topo w) sw t (remote_intf q) d) else [])"
proof (rule plain_takes_frame [OF ok j _ l ty, of fuel E])
  note wf = config_ok_wf [OF ok]
  show "plain_port (topo w) (remote_intf q)" using joins_far_port(1) [OF wf j] plain by blast
  fix b assume b: "is_pkt_vlan_tagged b 16 = Inr False" "eth_dest b 16 = Inr d"
    "rd b 16 (14 + length body) = Inr (host_frame d s ty body)"
    and rcv: "node_receive fuel E w sw (dg_data (frame_dgram w q (host_frame d s ty body))) =
      l2_switch_forward_frame E (learned w sw s (if_name (iface (topo w) (remote_intf q)))) sw
        (remote_intf q) b 16 (of_nat (14 + length body))"
  let ?w = "learned w sw s (if_name (iface (topo w) (remote_intf q)))"
  let ?k = "of_nat (14 + length body) :: u32"
  have k: "unat ?k = 14 + length body" using l(3) by (simp add: unat_of_nat unat_word_ariths)
  have g: "get_node_if_by_name (topo ?w) sw nm = get_node_if_by_name (topo w) sw nm" for nm
    by (rule if_by_name_frame) simp_all
  have "l2_switch_forward_frame E ?w sw (remote_intf q) b 16 ?k = Inr (transmit_all ?w (if x = 0 then
      switch_targets (topo ?w) sw (node_mac_table (nodes (topo ?w) sw)) (remote_intf q) d else []) (host_frame d s ty body))"
    by (rule forward_untagged [OF config_ok_learned [OF ok l(2)] _ _ b(1,2) _ _ x])
      (use joins_nodes(2) [OF wf j] plain b(3) l k known t g in \<open>simp_all add: learned_nodes plain_port_def\<close>)
  moreover have "switch_targets (topo ?w) sw t' p d = switch_targets (topo w) sw t' p d" for t' p
    by (simp add: switch_targets_def learned_nodes g)
  ultimately show ?thesis
    using rcv t by (simp add: transmit_all_def)
qed

definition switch_world :: world where
  "switch_world = \<lparr>topo = switch_graph, sent = [], reports = []\<rparr>"

lemma switch_world_ports:
  "joins (topo switch_world) (0, Intf2) 1 0" "\<forall>p \<in> set (node_intfs switch_graph 0). plain_port switch_graph p"
  using switch_ends
  by (simp_all add: switch_world_def joins_def unique_names_def remote_intf_def switch_intfs plain_port_def)

text \<open>A broadcast from H1 in the simple switched topology, when the variable holds 7.\<close>

lemma plain_switch_needs_luck_witness:
  "\<exists>w1. node_receive 0 (example_env\<lparr>uninit_vlan := \<lambda>_. 7\<rparr>) switch_world 0 (dg_data (frame_dgram switch_world (0, Intf2)
      (host_frame broadcast_mac [1, 2, 3, 4, 0, 0] ARP_PACKET []))) = Inr w1 \<and>
    node_mac_table (nodes (topo w1) 0) = mac_learn (node_mac_table (nodes switch_graph 0)) [1, 2, 3, 4, 0, 0] ''eth0/1'' \<and>
    sent w1 = []"
  using plain_switch_needs_luck [OF _ switch_world_ports(1), of broadcast_mac "[1, 2, 3, 4, 0, 0]" "[]" ARP_PACKET
      "example_env\<lparr>uninit_vlan := \<lambda>_. 7\<rparr>" 7 _ 0]
    configured_ok [OF switch_graph_built(1)] switch_world_ports(2) switch_ends
  by (simp add: switch_world_def remote_intf_def broadcast_mac_def ARP_PACKET_def VLAN_TAG_def)

text \<open>C21: a frame of a VLAN comes in on a trunk that carries the VLAN, for a host whose access port the
  switch has learned. If the variable that is read without having been set holds 0, the host
  gets the frame exactly if its port is in the VLAN of the frame; if it holds another id, the
  host gets the frame exactly if its port is in that VLAN, whatever the VLAN of the frame.\<close>

theorem trunk_frame_delivery:
  assumes ok: "config_ok (topo w)" and jq: "joins (topo w) q n sw" and jr: "joins (topo w) r m sw"
    and tr: "l2_mode (iface (topo w) (remote_intf q)) = TRUNK" "tci_vid tci \<in> set (vlans (iface (topo w) (remote_intf q)))"
    and acc: "access_port (topo w) (remote_intf r) y"
    and l: "length d = 6" "length s = 6" "length rest \<le> 2012" and d: "d \<noteq> broadcast_mac"
    and x: "uninit_tag E w = x" "x < 0x1000"
    and known: "mac_port (mac_learn (node_mac_table (nodes (topo w) sw)) s (if_name (iface (topo w) (remote_intf q)))) d
      = Some (if_name (iface (topo w) (remote_intf r)))"
  shows "\<exists>w1. node_receive fuel E w sw (dg_data (frame_dgram w q (tagged_frame d s tci rest))) = Inr w1 \<and>
    sent w1 = sent w @ (if y = (if x = 0 then tci_vid tci else x)
      then [frame_dgram w (remote_intf r) (d @ s @ rest @ zeros 4)] else [])"
proof -
  have "length rest \<le> 2016" using l(3) by simp
  then show ?thesis
  proof (rule trunk_takes_frame [OF ok jq tr l(1,2) _ x(1), of rest fuel])
    let ?w = "learned w sw s (if_name (iface (topo w) (remote_intf q)))"
    let ?tci = "if x = 0 then tci else tci_set_vid tci x" and ?k = "of_nat (16 + length rest) :: u32"
    fix b assume fr: "frame_at b 16 d s ?tci (rest @ zeros (2016 - length rest))"
      and rcv: "node_receive fuel E w sw (dg_data (frame_dgram w q (tagged_frame d s tci rest))) =
        l2_switch_forward_frame E ?w sw (remote_intf q) b 16 ?k"
    have k: "unat ?k = 12 + (4 + length rest)" using l(3) by (simp add: unat_of_nat unat_word_ariths)
    have "l2_switch_forward_frame E ?w sw (remote_intf q) b 16 ?k = Inr (if y = tci_vid ?tci then
        transmit ?w (remote_intf r) (d @ s @ take (4 + length rest) (rest @ zeros (2016 - length rest))) else ?w)"
      by (rule forward_to_access [OF config_ok_learned [OF ok l(2)] _ _ fr d _ k]) (use jr acc known l k in simp_all)
    then show ?thesis using rcv l(3) x(2) by (auto simp: tci_vid_set)
  qed
qed

text \<open>
  The second switch of the dual switch topology has seen H4. A frame of VLAN 11 for H4, which is
  in VLAN 10, comes in on the trunk, and H4 gets it when the variable holds 10.
\<close>

definition dual_world :: world where
  "dual_world = \<lparr>topo = dual_graph, sent = [], reports = []\<rparr>"

lemma config_ok_dual: "config_ok dual_graph"
  by (rule configured_ok [OF dual_graph_built(1)])

lemma trunk_frame_delivery_witness:
  "\<exists>w1. node_receive 0 (example_env\<lparr>uninit_tag := \<lambda>_. 10\<rparr>) (learned dual_world 1 [9, 9, 9, 9, 0, 0] ''eth0/4'') 1
      (dg_data (frame_dgram dual_world (0, Intf1)
        (tagged_frame [9, 9, 9, 9, 0, 0] [1, 2, 3, 4, 0, 0] (tci_set_vid 0 11) (le16 IP_PROTO)))) = Inr w1 \<and>
    sent w1 = [frame_dgram dual_world (4, Intf1) ([9, 9, 9, 9, 0, 0] @ [1, 2, 3, 4, 0, 0] @ le16 IP_PROTO @ zeros 4)]"
proof -
  let ?w = "learned dual_world 1 [9, 9, 9, 9, 0, 0] ''eth0/4''"
  have ok: "config_ok (topo ?w)" using config_ok_learned config_ok_dual by (simp add: dual_world_def)
  have j: "joins (topo ?w) (0, Intf1) 0 1" "joins (topo ?w) (4, Intf2) 5 1"
    using dual_ends
    by (simp_all add: dual_world_def joins_def unique_names_def remote_intf_def dual_intfs learned_nodes)
  have t: "mac_table_ok (node_mac_table (nodes dual_graph 1))"
    using config_ok_node [OF config_ok_dual] by (simp add: node_cfg_ok_def)
  have known: "mac_port (mac_learn (mac_learn (node_mac_table (nodes dual_graph 1)) [9, 9, 9, 9, 0, 0] ''eth0/4'')
      [1, 2, 3, 4, 0, 0] nm) [9, 9, 9, 9, 0, 0] = Some ''eth0/4''" for nm
    by (rule learn_two(1) [OF t]) (simp_all add: stems_apart_def mac_stem_def)
  have a: "access_port (topo ?w) (remote_intf (4, Intf2)) 10"
    using dual_ends by (simp add: access_port_def dual_world_def remote_intf_def)
  have tr: "l2_mode (iface (topo ?w) (remote_intf (0, Intf1))) = TRUNK"
    "tci_vid (tci_set_vid 0 11) \<in> set (vlans (iface (topo ?w) (remote_intf (0, Intf1))))"
    using dual_ends by (simp_all add: dual_world_def remote_intf_def tci_vid_set)
  show ?thesis
    using trunk_frame_delivery [OF ok j tr a, of "[9, 9, 9, 9, 0, 0]" "[1, 2, 3, 4, 0, 0]" "le16 IP_PROTO"
        "example_env\<lparr>uninit_tag := \<lambda>_. 10\<rparr>" 10 0] known dual_ends
    by (simp add: broadcast_mac_list dual_world_def remote_intf_def)
qed

end
