(* ===== verification/Across.thy ===== *)
theory Across
  imports Switched Pinging
begin

text \<open>
  Hosts that talk through a switch: address resolution and ping between two hosts on access
  ports of one VLAN. A frame is tagged where it enters and untagged where it leaves, and
  arrives with four more bytes at its end, which neither ARP nor ICMP minds.
\<close>

section \<open>Address resolution through a switch\<close>

text \<open>
  Two hosts on access ports of one VLAN of a switch: their interfaces \<open>q\<close> and \<open>r\<close>, and MAC
  addresses that the switch can tell apart.
\<close>

definition switched :: "env \<Rightarrow> graph \<Rightarrow> ifptr \<Rightarrow> ifptr \<Rightarrow> nid \<Rightarrow> nid \<Rightarrow> nid \<Rightarrow> u16 \<Rightarrow> bool" where
  "switched E g q r n m sw v \<longleftrightarrow> joins g q n sw \<and> joins g r m sw \<and>
     is_ipadd_config (iface g q) \<and> is_ipadd_config (iface g r) \<and>
     access_port g (remote_intf q) v \<and> access_port g (remote_intf r) v \<and>
     first_access_behind E g sw (remote_intf q) (remote_intf r) v \<and>
     stems_apart (if_mac (iface g q)) (if_mac (iface g r)) \<and> if_mac (iface g q) \<noteq> broadcast_mac \<and>
     of_le16 (take 2 (drop 2 (if_mac (iface g q)))) \<noteq> VLAN_TAG"

lemma host_answers_padded_request:
  assumes ok: "config_ok (topo w)" and j: "joins (topo w) p sw m"
    and ip: "is_ipadd_config (iface (topo w) (remote_intf p))"
    and tgt: "ip_add (iface (topo w) (remote_intf p)) = inet_ntop t"
    and i: "length (if_mac i) = 6" and tr: "length tr \<le> 1986"
  shows "node_receive fuel E w m (dg_data (frame_dgram w p
      (arp_frame broadcast_mac (if_mac i) (arp_request_pkt i t) @ tr))) =
    Inr (transmit w (remote_intf p) (arp_frame (if_mac i) (if_mac (iface (topo w) (remote_intf p)))
      (arp_reply_pkt (iface (topo w) (remote_intf p)) (arp_request_pkt i t))))"
proof -
  note wf = config_ok_wf [OF ok]
  have r: "fst (remote_intf p) < n_links (topo w)" using j by (simp add: joins_def)
  have l: "length broadcast_mac = 6" by (simp add: broadcast_mac_def)
  have a: "arp_packet_ok (arp_request_pkt i t)" "op_code (arp_request_pkt i t) = ARP_REQUEST"
    "dst_ip (arp_request_pkt i t) = htonl t"
    using i by (simp_all add: arp_packet_ok_def arp_request_pkt_def)
  show ?thesis
    using host_gets_padded_arp [OF ok j refl ip l i a(1) tr]
      process_request_cases [OF wf r l i a(1), of m
        "char_array IF_NAME_SIZE (if_name (iface (topo w) (remote_intf p)))" "tr @ zeros (1986 - length tr)"] length_header [OF wf r] tgt a
    by (simp add: Let_def)
qed

lemma host_learns_padded_reply:
  assumes ok: "config_ok (topo w)" and j: "joins (topo w) p sw n"
    and ip: "is_ipadd_config (iface (topo w) (remote_intf p))"
    and l: "length (if_mac o') = 6" "length tr \<le> 1986"
    and i: "i = iface (topo w) (remote_intf p)"
  shows "node_receive fuel E w n (dg_data (frame_dgram w p
      (arp_frame (if_mac i) (if_mac o') (arp_reply_pkt o' (arp_request_pkt i t)) @ tr))) =
    Inr (arp_learned w n (inet_ntop t) (if_mac o') (if_name i))"
proof -
  note wf = config_ok_wf [OF ok]
  let ?a = "arp_reply_pkt o' (arp_request_pkt i t)"
  have r: "fst (remote_intf p) < n_links (topo w)" using j by (simp add: joins_def)
  have d: "length (if_mac i) = 6" using length_if_mac [OF wf r] i by simp
  have a: "arp_packet_ok ?a" "op_code ?a = ARP_REPLY" "src_mac ?a = if_mac o'" "src_ip ?a = htonl t"
    "ARP_REPLY \<noteq> ARP_REQUEST"
    using d l by (simp_all add: arp_packet_ok_def arp_request_pkt_def arp_reply_pkt_def ARP_REPLY_def ARP_REQUEST_def)
  show ?thesis
    using host_gets_padded_arp [OF ok j refl ip d l(1) a(1) l(2)]
      process_reply_learns [OF wf r d l(1) a(1,2), of n
        "char_array IF_NAME_SIZE (if_name (iface (topo w) (remote_intf p)))" "tr @ zeros (1986 - length tr)"] length_header [OF wf r] i a
    by (simp add: Let_def)
qed

lemma switched_exchange:
  fixes w :: world and q r :: ifptr and sw :: nid and t :: u32
  defines "i \<equiv> iface (topo w) q" and "o' \<equiv> iface (topo w) r"
  defines "w2 \<equiv> learned w sw (if_mac i) (if_name (iface (topo w) (remote_intf q)))"
  defines "w4 \<equiv> learned w2 sw (if_mac o') (if_name (iface (topo w) (remote_intf r)))"
  defines "f1 \<equiv> arp_frame broadcast_mac (if_mac i) (arp_request_pkt i t)"
    and "f2 \<equiv> arp_frame (if_mac i) (if_mac o') (arp_reply_pkt o' (arp_request_pkt i t))"
  assumes ok: "config_ok (topo w)" and s: "switched E (topo w) q r n m sw v"
    and t: "ip_add (iface (topo w) r) = inet_ntop t"
  shows "arp_request_on w q (inet_ntop t) = Inr (transmit w q f1)"
    and "\<exists>copies. node_receive fuel E w sw (dg_data (frame_dgram w q f1)) =
      Inr (w2\<lparr>sent := sent w @ copies @ [frame_dgram w (remote_intf r) (f1 @ zeros 4)]\<rparr>)"
    and "node_receive fuel E w2 m (dg_data (frame_dgram w (remote_intf r) (f1 @ zeros 4))) = Inr (transmit w2 r f2)"
    and "node_receive fuel E w2 sw (dg_data (frame_dgram w r f2)) = Inr (transmit w4 (remote_intf q) (f2 @ zeros 4))"
    and "node_receive fuel E w4 n (dg_data (frame_dgram w (remote_intf q) (f2 @ zeros 4))) =
      Inr (arp_learned w4 n (inet_ntop t) (if_mac o') (if_name i))"
    and "mac_port (node_mac_table (nodes (topo w4) sw)) (if_mac i) = Some (if_name (iface (topo w) (remote_intf q)))"
    and "mac_port (node_mac_table (nodes (topo w4) sw)) (if_mac o') = Some (if_name (iface (topo w) (remote_intf r)))"
    and "config_ok (topo w4)"
proof -
  note wf = config_ok_wf [OF ok]
  have j: "joins (topo w) q n sw" "joins (topo w) r m sw" and ip: "is_ipadd_config i" "is_ipadd_config o'"
    and acc: "access_port (topo w) (remote_intf q) v" "access_port (topo w) (remote_intf r) v"
    and fab: "first_access_behind E (topo w) sw (remote_intf q) (remote_intf r) v"
    and ap: "stems_apart (if_mac i) (if_mac o')" and nb: "if_mac i \<noteq> broadcast_mac"
    and tag: "of_le16 (take 2 (drop 2 (if_mac i))) \<noteq> VLAN_TAG"
    using s by (simp_all add: switched_def i_def o'_def)
  have q: "fst q < n_links (topo w)" "fst r < n_links (topo w)" using j by (simp_all add: joins_def)
  have l: "length broadcast_mac = 6" "length (if_mac i) = 6" "length (if_mac o') = 6"
    using length_if_mac [OF wf] q by (simp_all add: broadcast_mac_def i_def o'_def)
  have a: "arp_packet_ok (arp_request_pkt i t)" "arp_packet_ok (arp_reply_pkt o' (arp_request_pkt i t))"
    using l by (simp_all add: arp_packet_ok_def arp_request_pkt_def arp_reply_pkt_def)
  have ok2: "config_ok (topo w2)" unfolding w2_def by (rule config_ok_learned [OF ok l(2)])
  show "config_ok (topo w4)" unfolding w4_def by (rule config_ok_learned [OF ok2 l(3)])
  have if2 [simp]: "iface (topo w2) x = iface (topo w) x" "iface (topo w4) x = iface (topo w) x" for x
    by (simp_all add: w2_def w4_def)
  have j2: "joins (topo w2) q n sw" "joins (topo w2) r m sw" "joins (topo w4) q n sw"
    and acc2: "access_port (topo w2) (remote_intf q) v" "access_port (topo w2) (remote_intf r) v"
    using j acc by (simp_all add: w2_def w4_def)
  have fd: "frame_dgram w2 = frame_dgram w" "frame_dgram w4 = frame_dgram w"
    by (intro ext; simp add: w2_def w4_def)+
  have ty: "ARP_PACKET \<noteq> VLAN_TAG" by (simp add: ARP_PACKET_def VLAN_TAG_def)
  have tab: "mac_table_ok (node_mac_table (nodes (topo w) sw))"
    using config_ok_node [OF ok joins_nodes(2) [OF wf j(1)]] by (simp add: node_cfg_ok_def)
  note two = learn_two [OF tab l(2,3) ap]
  have kept: "mac_port (mac_learn (node_mac_table (nodes (topo w2) sw)) (if_mac o') p) (if_mac i) =
      Some (if_name (iface (topo w) (remote_intf q)))" for p
    using two(1) by (simp add: w2_def)
  show "mac_port (node_mac_table (nodes (topo w4) sw)) (if_mac i) = Some (if_name (iface (topo w) (remote_intf q)))"
    "mac_port (node_mac_table (nodes (topo w4) sw)) (if_mac o') = Some (if_name (iface (topo w) (remote_intf r)))"
    using two by (simp_all add: w4_def w2_def)
  show "arp_request_on w q (inet_ntop t) = Inr (transmit w q f1)"
    unfolding f1_def i_def by (rule arp_request_on_sends [OF wf q(1)])
  have body: "length (arp_bytes (arp_request_pkt i t) @ zeros 4) \<le> 2014"
    "length (arp_bytes (arp_reply_pkt o' (arp_request_pkt i t)) @ zeros 4) \<le> 2014"
    using a by (simp_all add: length_arp_bytes)
  have pad: "host_frame d s ty' (b @ zeros 4 @ zeros 4) = host_frame d s ty' (b @ zeros 4) @ zeros 4" for d s ty' b
    by (simp add: host_frame_def)
  show "\<exists>copies. node_receive fuel E w sw (dg_data (frame_dgram w q f1)) =
      Inr (w2\<lparr>sent := sent w @ copies @ [frame_dgram w (remote_intf r) (f1 @ zeros 4)]\<rparr>)"
    by (rule switch_broadcast [OF ok j acc fab l(2) body(1) ty tag, of fuel])
      (unfold f1_def arp_host_frame w2_def i_def append_assoc pad, blast)
  show "node_receive fuel E w2 m (dg_data (frame_dgram w (remote_intf r) (f1 @ zeros 4))) = Inr (transmit w2 r f2)"
    using host_answers_padded_request [OF ok2 joins_sym [OF j2(2)], of t i "zeros 4" fuel E] ip(2) t l(2)
    by (simp add: f1_def f2_def fd o'_def)
  show "node_receive fuel E w2 sw (dg_data (frame_dgram w r f2)) = Inr (transmit w4 (remote_intf q) (f2 @ zeros 4))"
    using switch_unicast [OF ok2 j2(2,1) acc2(2,1) l(2,3) body(2) ty nb, of fuel E] kept
    by (simp add: f2_def arp_host_frame w4_def fd pad)
  show "node_receive fuel E w4 n (dg_data (frame_dgram w (remote_intf q) (f2 @ zeros 4))) =
      Inr (arp_learned w4 n (inet_ntop t) (if_mac o') (if_name i))"
    using host_learns_padded_reply [OF \<open>config_ok (topo w4)\<close> joins_sym [OF j2(3)], of o' "zeros 4" i fuel E t] ip(1) l(3)
    by (simp add: f2_def fd i_def)
qed

section \<open>Ping through a switch\<close>

text \<open>
  Two hosts behind a switch that can reach each other: their addresses and routes are set, they
  have each other's MAC address, and the switch has both.
\<close>

definition reach_across :: "graph \<Rightarrow> ifptr \<Rightarrow> ifptr \<Rightarrow> nid \<Rightarrow> nid \<Rightarrow> nid \<Rightarrow> u32 \<Rightarrow> u32 \<Rightarrow> u16 \<Rightarrow> bool" where
  "reach_across g q r n m sw a b v \<longleftrightarrow> joins g q n sw \<and> joins g r m sw \<and>
     access_port g (remote_intf q) v \<and> access_port g (remote_intf r) v \<and>
     own_address g n a q \<and> own_address g m b r \<and> on_link g n b q \<and> on_link g m a r \<and>
     has_mac g n b (if_mac (iface g r)) \<and> has_mac g m a (if_mac (iface g q)) \<and>
     mac_port (node_mac_table (nodes g sw)) (if_mac (iface g q)) = Some (if_name (iface g (remote_intf q))) \<and>
     mac_port (node_mac_table (nodes g sw)) (if_mac (iface g r)) = Some (if_name (iface g (remote_intf r))) \<and>
     stems_apart (if_mac (iface g q)) (if_mac (iface g r)) \<and>
     if_mac (iface g q) \<noteq> broadcast_mac \<and> if_mac (iface g r) \<noteq> broadcast_mac"

lemma reach_across_sym: "reach_across g q r n m sw a b v \<Longrightarrow> reach_across g r q m n sw b a v"
  by (auto simp: reach_across_def stems_apart_def)

lemma hosts_learned:
  "own_address (topo (learned w k mc nm)) n a q = own_address (topo w) n a q"
  "on_link (topo (learned w k mc nm)) n a q = on_link (topo w) n a q"
  "has_mac (topo (learned w k mc nm)) n a m = has_mac (topo w) n a m"
proof -
  have local: "is_layer3_local_delivery (topo (learned w k mc nm)) n x = is_layer3_local_delivery (topo w) n x" for x
    by (simp add: is_layer3_local_delivery_def learned_nodes cong: option.case_cong)
  have "subnet_loop (topo (learned w k mc nm)) ip ss = subnet_loop (topo w) ip ss" for ip ss
  proof (induction ss)
    case (Cons x ss)
    then show ?case by (cases x) (simp_all cong: if_cong)
  qed simp
  then have "node_get_matching_subnet_interface (topo (learned w k mc nm)) n x =
      node_get_matching_subnet_interface (topo w) n x" for x
    by (simp add: node_get_matching_subnet_interface_def)
  then show "on_link (topo (learned w k mc nm)) n a q = on_link (topo w) n a q"
    by (simp add: on_link_def local has_direct_route_def learned_nodes)
qed (simp_all add: own_address_def has_mac_def has_direct_route_def learned_nodes)

text \<open>What the switch learns from a host that it knows keeps the hosts in reach.\<close>

lemma reach_across_learned:
  assumes ok: "config_ok (topo w)" and r: "reach_across (topo w) q r n m sw a b v"
  shows "reach_across (topo (learned w sw (if_mac (iface (topo w) q)) (if_name (iface (topo w) (remote_intf q)))))
    q r n m sw a b v"
proof -
  note wf = config_ok_wf [OF ok]
  let ?t = "node_mac_table (nodes (topo w) sw)"
  have j: "joins (topo w) q n sw" "joins (topo w) r m sw" using r by (simp_all add: reach_across_def)
  have t: "mac_table_ok ?t" using config_ok_node [OF ok joins_nodes(2) [OF wf j(1)]] by (simp add: node_cfg_ok_def)
  have l: "mac_len_ok (if_mac (iface (topo w) q))" "mac_len_ok (if_mac (iface (topo w) r))"
    using length_if_mac [OF wf] j by (simp_all add: mac_len_ok_def joins_def)
  have ap: "stems_apart (if_mac (iface (topo w) r)) (if_mac (iface (topo w) q))"
    using reach_across_sym [OF r] by (simp add: reach_across_def)
  show ?thesis
    using r mact.lookup_learn [OF t l(1)] mact.lookup_other [OF t l stems_apart_neq [OF ap] ap]
    by (simp add: reach_across_def hosts_learned)
qed

lemma ip_host_frame: "ip_frame d s pay = host_frame d s IP_PROTO pay"
  by (simp add: ip_frame_def host_frame_def)

text \<open>The three legs of an ICMP message: out of its host, through the switch, into the other host.\<close>

lemma icmp_leaves:
  assumes ok: "config_ok (topo w)" and r: "reach_across (topo w) q r n m sw a b v"
  shows "layer3_pkt_receive_from_top (Suc fuel) E w n (icmp_bytes i) ICMP_PROTO b =
    Inr (transmit w q (ip_frame (if_mac (iface (topo w) r)) (if_mac (iface (topo w) q))
      (ip_bytes (top_hdr ICMP_PROTO b a 12) @ icmp_bytes i)))"
proof -
  note wf = config_ok_wf [OF ok]
  have j: "joins (topo w) q n sw" "joins (topo w) r m sw" using r by (simp_all add: reach_across_def)
  have "fst r < n_links (topo w)" using j by (simp add: joins_def)
  then show ?thesis
    using from_top_on_link [of w n b q a "if_mac (iface (topo w) r)" "icmp_bytes i" fuel E ICMP_PROTO]
      ok r joins_nodes(1) [OF wf j(1)] length_if_mac [OF wf]
    by (simp add: reach_across_def own_address_def del: layer3_pkt_receive_from_top.simps)
qed

lemma icmp_crosses:
  assumes ok: "config_ok (topo w)" and r: "reach_across (topo w) q r n m sw a b v" and l: "length pay \<le> 2014"
  shows "node_receive fuel E w sw (dg_data (frame_dgram w q
      (ip_frame (if_mac (iface (topo w) r)) (if_mac (iface (topo w) q)) pay))) =
    Inr (transmit (learned w sw (if_mac (iface (topo w) q)) (if_name (iface (topo w) (remote_intf q)))) (remote_intf r)
      (ip_frame (if_mac (iface (topo w) r)) (if_mac (iface (topo w) q)) (pay @ zeros 4)))"
proof -
  note wf = config_ok_wf [OF ok]
  have j: "joins (topo w) q n sw" "joins (topo w) r m sw"
    and acc: "access_port (topo w) (remote_intf q) v" "access_port (topo w) (remote_intf r) v"
    and nb: "if_mac (iface (topo w) r) \<noteq> broadcast_mac" using r by (simp_all add: reach_across_def)
  have m: "length (if_mac (iface (topo w) r)) = 6" "length (if_mac (iface (topo w) q)) = 6"
    using length_if_mac [OF wf] j by (simp_all add: joins_def)
  have known: "mac_port (mac_learn (node_mac_table (nodes (topo w) sw)) (if_mac (iface (topo w) q))
      (if_name (iface (topo w) (remote_intf q)))) (if_mac (iface (topo w) r)) = Some (if_name (iface (topo w) (remote_intf r)))"
    using reach_across_learned [OF ok r] by (simp add: reach_across_def)
  show ?thesis
    unfolding ip_host_frame by (rule switch_unicast [OF ok j acc m l IP_not_VLAN(1) nb known])
qed

lemma icmp_arrives:
  assumes ok: "config_ok (topo w)" and r: "reach_across (topo w) q r n m sw a b v"
  obtains pre where "length pre = 30"
    "\<And>i fuel. node_receive (Suc fuel) E w m (dg_data (frame_dgram w (remote_intf r)
        (ip_frame (if_mac (iface (topo w) r)) (if_mac (iface (topo w) q))
          ((ip_bytes (top_hdr ICMP_PROTO b a 12) @ icmp_bytes i) @ zeros 4)))) =
      process_icmp_pkt (layer3_pkt_receive_from_top fuel E) w m
        (pre @ ip_bytes (top_hdr ICMP_PROTO b a 12) @ icmp_bytes i @ zeros 4 @ zeros 1982) 30"
proof -
  note wf = config_ok_wf [OF ok]
  have j: "joins (topo w) q n sw" "joins (topo w) (remote_intf r) sw m"
    and own: "own_address (topo w) m b (remote_intf (remote_intf r))"
    using r joins_sym by (auto simp: reach_across_def)
  have q: "fst q < n_links (topo w)" "fst r < n_links (topo w)" using j by (simp_all add: joins_def)
  note l = length_if_mac [OF wf q(1)] length_if_mac [OF wf q(2)]
  let ?pre = "(char_array IF_NAME_SIZE (if_name (iface (topo w) r)) @
    (if_mac (iface (topo w) r) @ if_mac (iface (topo w) q)) @ le16 IP_PROTO)"
  show thesis
    by (rule that [of ?pre])
      (use length_header [OF wf q(2)] l host_gets_padded_icmp [OF ok j(2) refl own l(1), of "zeros 4"] in simp_all)
qed

text \<open>A whole exchange of an echo message and its reply.\<close>

lemma echo_across:
  fixes w :: world and q r :: ifptr and sw :: nid and a b :: u32 and ident sq :: u16
  defines "i \<equiv> iface (topo w) q" and "o' \<equiv> iface (topo w) r"
  defines "w2 \<equiv> learned w sw (if_mac i) (if_name (iface (topo w) (remote_intf q)))"
  defines "w4 \<equiv> learned w2 sw (if_mac o') (if_name (iface (topo w) (remote_intf r)))"
  defines "f1 \<equiv> \<lambda>tr. ip_frame (if_mac o') (if_mac i)
      ((ip_bytes (top_hdr ICMP_PROTO b a 12) @ icmp_bytes (make_icmp_echo_message ident sq)) @ tr)"
    and "f2 \<equiv> \<lambda>tr. ip_frame (if_mac i) (if_mac o')
      ((ip_bytes (top_hdr ICMP_PROTO a b 12) @ icmp_bytes (make_icmp_echo_reply ident sq 0xEFBEADDE)) @ tr)"
  assumes ok: "config_ok (topo w)" and r: "reach_across (topo w) q r n m sw a b v"
  shows "send_icmp_echo_message (layer3_pkt_receive_from_top (Suc fuel) E) w n ident sq b = Inr (transmit w q (f1 []))"
    and "node_receive fuel' E w sw (dg_data (frame_dgram w q (f1 []))) = Inr (transmit w2 (remote_intf r) (f1 (zeros 4)))"
    and "node_receive (Suc (Suc fuel)) E w2 m (dg_data (frame_dgram w (remote_intf r) (f1 (zeros 4)))) =
      Inr (transmit w2 r (f2 []))"
    and "node_receive fuel' E w2 sw (dg_data (frame_dgram w r (f2 []))) = Inr (transmit w4 (remote_intf q) (f2 (zeros 4)))"
    and "node_receive (Suc fuel) E w4 n (dg_data (frame_dgram w (remote_intf q) (f2 (zeros 4)))) =
      Inr (report_msg w4 (Echo_reply_received n 12 [] sq 64))"
proof -
  note wf = config_ok_wf [OF ok]
  have q: "fst q < n_links (topo w)" "fst r < n_links (topo w)" using r by (simp_all add: reach_across_def joins_def)
  have l: "length (if_mac i) = 6" "length (if_mac o') = 6"
    using length_if_mac [OF wf] q by (simp_all add: i_def o'_def)
  have ok2: "config_ok (topo w2)" unfolding w2_def by (rule config_ok_learned [OF ok l(1)])
  have ok4: "config_ok (topo w4)" unfolding w4_def by (rule config_ok_learned [OF ok2 l(2)])
  have if2: "iface (topo w2) x = iface (topo w) x" "iface (topo w4) x = iface (topo w) x"
    "frame_dgram w2 x p = frame_dgram w x p" "frame_dgram w4 x p = frame_dgram w x p" for x p
    by (simp_all add: w2_def w4_def)
  have r2: "reach_across (topo w2) r q m n sw b a v"
    unfolding w2_def i_def by (rule reach_across_sym [OF reach_across_learned [OF ok r]])
  have r4: "reach_across (topo w4) r q m n sw b a v"
    using reach_across_learned [OF ok2 r2] by (simp add: w4_def if2 o'_def)
  show "send_icmp_echo_message (layer3_pkt_receive_from_top (Suc fuel) E) w n ident sq b = Inr (transmit w q (f1 []))"
    using icmp_leaves [OF ok r]
    by (simp add: send_icmp_echo_message_def f1_def i_def o'_def del: layer3_pkt_receive_from_top.simps)
  show "node_receive fuel' E w sw (dg_data (frame_dgram w q (f1 []))) = Inr (transmit w2 (remote_intf r) (f1 (zeros 4)))"
    using icmp_crosses [OF ok r, of "ip_bytes (top_hdr ICMP_PROTO b a 12) @ icmp_bytes (make_icmp_echo_message ident sq)"]
    by (simp add: f1_def w2_def i_def o'_def)
  show "node_receive fuel' E w2 sw (dg_data (frame_dgram w r (f2 []))) = Inr (transmit w4 (remote_intf q) (f2 (zeros 4)))"
    using icmp_crosses [OF ok2 r2, of "ip_bytes (top_hdr ICMP_PROTO a b 12) @ icmp_bytes (make_icmp_echo_reply ident sq 0xEFBEADDE)"]
    by (simp add: f2_def w4_def if2 i_def o'_def)
  show "node_receive (Suc (Suc fuel)) E w2 m (dg_data (frame_dgram w (remote_intf r) (f1 (zeros 4)))) =
      Inr (transmit w2 r (f2 []))"
  proof (rule icmp_arrives [OF ok2 reach_across_sym [OF r2], of E])
    fix pre assume pre: "length (pre :: bytes) = 30"
      and g: "\<And>x fuel. node_receive (Suc fuel) E w2 m (dg_data (frame_dgram w2 (remote_intf r)
        (ip_frame (if_mac (iface (topo w2) r)) (if_mac (iface (topo w2) q))
          ((ip_bytes (top_hdr ICMP_PROTO b a 12) @ icmp_bytes x) @ zeros 4)))) =
      process_icmp_pkt (layer3_pkt_receive_from_top fuel E) w2 m
        (pre @ ip_bytes (top_hdr ICMP_PROTO b a 12) @ icmp_bytes x @ zeros 4 @ zeros 1982) 30"
    have d: "htonl 0xDEADBEEF = 0xEFBEADDE" by (simp add: htonl_def le32_def)
    show ?thesis
      using icmp_recv(1) [OF top_hdr_ok _ pre, of ICMP_PROTO b a 12 "make_icmp_echo_message ident sq"]
        icmp_leaves [OF ok2 r2, of fuel E] g [of "Suc fuel" "make_icmp_echo_message ident sq"] d
      by (simp add: f1_def f2_def i_def o'_def if2 make_icmp_echo_message_def del: layer3_pkt_receive_from_top.simps)
  qed
  show "node_receive (Suc fuel) E w4 n (dg_data (frame_dgram w (remote_intf q) (f2 (zeros 4)))) =
      Inr (report_msg w4 (Echo_reply_received n 12 [] sq 64))"
    by (rule icmp_arrives [OF ok4 r4, of E])
      (use icmp_recv(2) [OF top_hdr_ok, of ICMP_PROTO a b 12 _ 30 "make_icmp_echo_reply ident sq 0xEFBEADDE"] in
        \<open>simp add: f2_def i_def o'_def if2 make_icmp_echo_reply_def\<close>)
qed

section \<open>Properties\<close>


text \<open>H1 asks for H2 through the first switch of the dual switch topology.\<close>

lemma dual_switched: "switched example_env dual_graph (1, Intf2) (2, Intf2) 2 3 0 10"
proof -
  have "node_intfs dual_graph 0 = [(0, Intf1), (Suc 0, Intf1)] @ (2, Intf1) # [(3, Intf1)]"
    by (simp add: dual_intfs)
  moreover have "only_trunks dual_graph (Suc 0, Intf1) 10 [(0, Intf1), (Suc 0, Intf1)]"
    "\<not> carries (iface dual_graph (3, Intf1)) 0"
    using dual_ends by (simp_all add: only_trunks_def flood_ports_def carries_def)
  ultimately have "first_access_behind example_env dual_graph 0 (Suc 0, Intf1) (2, Intf1) 10"
    unfolding first_access_behind_def example_env_def by fastforce
  then show ?thesis
    using dual_ends dual_macs
    by (simp add: switched_def joins_def unique_names_def remote_intf_def dual_intfs access_port_def
        stems_apart_def mac_stem_def broadcast_mac_list VLAN_TAG_def)
qed

lemma dual_address: "inet_ntop 0x0101010A = ''10.1.1.1''" "inet_ntop 0x0201010A = ''10.1.1.2''"
  by code_simp+


text \<open>C5: two hosts behind a switch that can reach each other: an echo message and its reply cross the
  switch, each as one datagram per leg, to nobody else, and the pinging host reports the
  reply, although every frame arrives with four more bytes than were sent. The reply reports
  12 bytes and TTL 64; apart from the MAC table of the switch nothing has changed.\<close>

theorem ping_crosses_switch:
  assumes ok: "config_ok (topo w)" and r: "reach_across (topo w) q r n m sw a b v"
  shows "\<exists>d1 d2 d3 d4 w1 w2 w3 w4 w5.
    send_icmp_echo_message (layer3_pkt_receive_from_top (Suc fuel) E) w n ident sq b = Inr w1 \<and>
    sent w1 = sent w @ [d1] \<and> dport d1 = node_port w sw \<and>
    node_receive fuel E (w1\<lparr>sent := sent w\<rparr>) sw (dg_data d1) = Inr w2 \<and> sent w2 = sent w @ [d2] \<and>
    dport d2 = node_port w m \<and> length (dg_data d2) = length (dg_data d1) + 4 \<and>
    node_receive (Suc (Suc fuel)) E (w2\<lparr>sent := sent w\<rparr>) m (dg_data d2) = Inr w3 \<and> sent w3 = sent w @ [d3] \<and>
    dport d3 = node_port w sw \<and>
    node_receive fuel E (w3\<lparr>sent := sent w\<rparr>) sw (dg_data d3) = Inr w4 \<and> sent w4 = sent w @ [d4] \<and>
    dport d4 = node_port w n \<and> length (dg_data d4) = length (dg_data d3) + 4 \<and>
    node_receive (Suc fuel) E (w4\<lparr>sent := sent w\<rparr>) n (dg_data d4) = Inr w5 \<and> sent w5 = sent w \<and>
    reports w5 = reports w @ [Echo_reply_received n 12 [] sq 64] \<and> same_config (topo w) (topo w5) \<and>
    reach_across (topo w5) q r n m sw a b v"
proof -
  note wf = config_ok_wf [OF ok]
  note x = echo_across [OF ok r]
  let ?i = "iface (topo w) q" and ?o = "iface (topo w) r"
  let ?w2 = "learned w sw (if_mac ?i) (if_name (iface (topo w) (remote_intf q)))"
  let ?w4 = "learned ?w2 sw (if_mac ?o) (if_name (iface (topo w) (remote_intf r)))"
  let ?w5 = "report_msg ?w4 (Echo_reply_received n 12 [] sq 64)"
  have j: "joins (topo w) q n sw" "joins (topo w) r m sw" using r by (simp_all add: reach_across_def)
  have q: "fst q < n_links (topo w)" "fst r < n_links (topo w)" using j by (simp_all add: joins_def)
  have reset: "(transmit w q p)\<lparr>sent := sent w\<rparr> = w" "(transmit ?w2 y p)\<lparr>sent := sent w\<rparr> = ?w2"
    "(transmit ?w4 y p)\<lparr>sent := sent w\<rparr> = ?w4" for y p
    by (simp_all add: transmit_def learned_def)
  have out: "sent (transmit w q p) = sent w @ [frame_dgram w q p]" "sent (transmit ?w2 y p) = sent w @ [frame_dgram w y p]"
    "sent (transmit ?w4 y p) = sent w @ [frame_dgram w y p]" for y p
    by simp_all
  have len: "length (dg_data (frame_dgram w (remote_intf y) (ip_frame d s (pay @ zeros 4)))) =
      length (dg_data (frame_dgram w z (ip_frame d s (pay @ [])))) + 4"
    if "fst y < n_links (topo w)" "fst z < n_links (topo w)" for y z d s pay
    using length_header [OF wf, of y] length_header [OF wf, of "remote_intf z"] that
    by (simp add: frame_dgram_def ip_frame_def)
  have l: "length (if_mac ?i) = 6" "length (if_mac ?o) = 6" using length_if_mac [OF wf] q by simp_all
  have r2: "reach_across (topo ?w2) r q m n sw b a v" by (rule reach_across_sym [OF reach_across_learned [OF ok r]])
  have "reach_across (topo ?w4) r q m n sw b a v"
    using reach_across_learned [OF config_ok_learned [OF ok l(1)] r2] by simp
  then have fin: "sent ?w5 = sent w" "reports ?w5 = reports w @ [Echo_reply_received n 12 [] sq 64]"
    "same_config (topo w) (topo ?w5)" "reach_across (topo ?w5) q r n m sw a b v"
    using same_config_trans keeps_learned [OF l(1)] keeps_learned [OF l(2)] reach_across_sym
    by (simp_all add: report_msg_def keeps_def) blast
  show ?thesis
    by (intro exI conjI, rule x(1), rule out(1), rule crossing_ports(1) [OF j(1)], unfold reset, rule x(2), rule out(2), rule crossing_ports(2) [OF j(2)],
        rule len [OF q(2,1)], unfold reset, rule x(3), rule out(2), rule crossing_ports(1) [OF j(2)], unfold reset, rule x(4), rule out(3),
        rule crossing_ports(2) [OF j(1)], rule len [OF q(1,2)], unfold reset, rule x(5), rule fin(1), rule fin(2), rule fin(3), rule fin(4))
qed

text \<open>The same hosts when everybody has learned everything.\<close>

definition dual_resolved :: world where
  "dual_resolved = (let
     w1 = arp_learned dual_world 2 (inet_ntop 0x0201010A) (if_mac (iface dual_graph (2, Intf2))) ''eth0'';
     w2 = arp_learned w1 3 (inet_ntop 0x0101010A) (if_mac (iface dual_graph (1, Intf2))) ''eth0'';
     w3 = learned w2 0 (if_mac (iface dual_graph (1, Intf2))) ''eth0/1'' in
     learned w3 0 (if_mac (iface dual_graph (2, Intf2))) ''eth0/2'')"

lemma dual_hosts:
  "own_address dual_graph 2 0x0101010A (1, Intf2)" "own_address dual_graph 3 0x0201010A (2, Intf2)"
  "on_link dual_graph 2 0x0201010A (1, Intf2)" "on_link dual_graph 3 0x0101010A (2, Intf2)"
proof -
  note wf = config_ok_wf [OF config_ok_dual]
  have n: "2 < n_nodes dual_graph" "3 < n_nodes dual_graph" by simp_all
  let ?r = "\<lparr>rt_dest = ''10.1.1.0'', rt_mask = 24, is_direct = True, rt_gw = [], rt_oif = []\<rparr>"
  have "l3rib_lookup_lpm (host_routes ''1.1.1.1'') 0x0101010A = Inr (Some ?r)"
    "l3rib_lookup_lpm (host_routes ''1.1.1.1'') 0x0201010A = Inr (Some ?r)"
    "l3rib_lookup_lpm (host_routes ''2.2.2.2'') 0x0101010A = Inr (Some ?r)"
    "l3rib_lookup_lpm (host_routes ''2.2.2.2'') 0x0201010A = Inr (Some ?r)"
    by code_simp+
  then have r: "has_direct_route dual_graph 2 0x0101010A ?r" "has_direct_route dual_graph 2 0x0201010A ?r"
    "has_direct_route dual_graph 3 0x0101010A ?r" "has_direct_route dual_graph 3 0x0201010A ?r"
    using dual_nodes by (simp_all add: has_direct_route_def l3_is_direct_route_def)
  show "own_address dual_graph 2 0x0101010A (1, Intf2)" "own_address dual_graph 3 0x0201010A (2, Intf2)"
    using r(1,4) dual_ends by (auto simp: own_address_def dual_intfs dual_address)
  have nl: "\<not> is_layer3_local_delivery dual_graph 2 0x0201010A" "\<not> is_layer3_local_delivery dual_graph 3 0x0101010A"
    using dual_ends dual_nodes
    by (simp_all add: local_delivery_iff [OF wf n(1)] local_delivery_iff [OF wf n(2)] dual_intfs dual_address)
  have net: "''10.1.1.0'' = inet_ntop 0x0001010A" by code_simp
  have conv: "convert_ip_from_str_to_int ''10.1.1.1'' = 0x0101010A" "convert_ip_from_str_to_int ''10.1.1.2'' = 0x0201010A"
    by (simp_all add: dual_address [symmetric])
  have f: "node_get_matching_subnet_interface dual_graph 2 (inet_ntop 0x0201010A) = Inr (Some (1, Intf2))"
    "node_get_matching_subnet_interface dual_graph 3 (inet_ntop 0x0101010A) = Inr (Some (2, Intf2))"
    "node_get_matching_subnet_interface dual_graph 2 ''10.1.1.0'' = Inr (Some (1, Intf2))"
    "node_get_matching_subnet_interface dual_graph 3 ''10.1.1.0'' = Inr (Some (2, Intf2))"
    using dual_ends conv
    by (simp_all add: net matching_subnet_find [OF config_ok_dual n(1)] matching_subnet_find [OF config_ok_dual n(2)]
        dual_intfs on_subnet_def intf_addr_def example_prefixes)
  show "on_link dual_graph 2 0x0201010A (1, Intf2)" "on_link dual_graph 3 0x0101010A (2, Intf2)"
    using nl f r(2,3) unfolding on_link_def by auto
qed

lemma access_port_arp_learned [simp]: "access_port (topo (arp_learned w k ip mc oif)) p v = access_port (topo w) p v"
  by (simp add: access_port_def)

lemma has_mac_learned:
  assumes "config_ok (topo w)" "n < n_nodes (topo w)"
  shows "has_mac (topo (arp_learned w n (inet_ntop a) m oif)) n a m"
    and "k \<noteq> n \<Longrightarrow> has_mac (topo (arp_learned w n ip mc oif)) k a m = has_mac (topo w) k a m"
  using arp_learned_resolves [OF assms] by (simp_all add: has_mac_def arp_learned_other)

lemma dual_resolved_ok: "config_ok (topo dual_resolved)"
  using config_ok_dual
  by (simp add: dual_resolved_def Let_def dual_world_def dual_macs config_ok_learned config_ok_arp_learned)

lemma dual_reach: "reach_across (topo dual_resolved) (1, Intf2) (2, Intf2) 2 3 0 0x0101010A 0x0201010A 10"
proof -
  let ?m1 = "if_mac (iface dual_graph (1, Intf2))" and ?m2 = "if_mac (iface dual_graph (2, Intf2))"
  let ?wa = "arp_learned dual_world 2 (inet_ntop 0x0201010A) ?m2 ''eth0''"
  let ?w = "arp_learned ?wa 3 (inet_ntop 0x0101010A) ?m1 ''eth0''"
  let ?t = "node_mac_table (nodes (topo ?w) 0)"
  have e: "dual_resolved = learned (learned ?w 0 ?m1 ''eth0/1'') 0 ?m2 ''eth0/2''"
    by (simp add: dual_resolved_def Let_def)
  have d: "topo dual_world = dual_graph" by (simp add: dual_world_def)
  have ok: "config_ok (topo ?wa)" "config_ok (topo ?w)" using config_ok_dual by (simp_all add: d config_ok_arp_learned)
  have macs: "has_mac (topo ?w) 2 0x0201010A ?m2" "has_mac (topo ?w) 3 0x0101010A ?m1"
    using has_mac_learned [of dual_world 2] has_mac_learned [OF ok(1), of 3] config_ok_dual by (simp_all add: d)
  have t: "mac_table_ok ?t" using config_ok_node [OF ok(2), of 0] by (simp add: node_cfg_ok_def d)
  have l: "mac_len_ok ?m1" "mac_len_ok ?m2" "?m1 \<noteq> ?m2" "stems_apart ?m1 ?m2" "?m1 \<noteq> broadcast_mac" "?m2 \<noteq> broadcast_mac"
    by (simp_all add: dual_macs mac_len_ok_def stems_apart_def mac_stem_def broadcast_mac_list)
  have ap: "length ?m1 = 6" "length ?m2 = 6" "stems_apart ?m1 ?m2" using l by (simp_all add: mac_len_ok_def)
  note ports = learn_two [OF t ap]
  have j: "joins dual_graph (1, Intf2) 2 0" "joins dual_graph (2, Intf2) 3 0"
    "access_port dual_graph (remote_intf (1, Intf2)) 10" "access_port dual_graph (remote_intf (2, Intf2)) 10"
    using dual_switched by (simp_all add: switched_def)
  have names: "if_name (iface dual_graph (remote_intf (1, Intf2))) = ''eth0/1''"
    "if_name (iface dual_graph (remote_intf (2, Intf2))) = ''eth0/2''"
    using dual_ends by (simp_all add: remote_intf_def)
  show ?thesis
    unfolding e reach_across_def hosts_learned joins_learned access_port_learned learned_frame hosts_arp_learned
      access_port_arp_learned arp_learned_frame d
    using j dual_hosts macs ports l names by (simp del: One_nat_def)
qed

lemma ping_crosses_switch_witness:
  "\<exists>d1 d2 d3 d4 w1 w2 w3 w4 w5.
    send_icmp_echo_message (layer3_pkt_receive_from_top (Suc 0) example_env) dual_resolved 2 1 1 0x0201010A = Inr w1 \<and>
    sent w1 = sent dual_resolved @ [d1] \<and> dport d1 = node_port dual_resolved 0 \<and>
    node_receive 0 example_env (w1\<lparr>sent := sent dual_resolved\<rparr>) 0 (dg_data d1) = Inr w2 \<and>
    sent w2 = sent dual_resolved @ [d2] \<and> dport d2 = node_port dual_resolved 3 \<and>
    length (dg_data d2) = length (dg_data d1) + 4 \<and>
    node_receive (Suc (Suc 0)) example_env (w2\<lparr>sent := sent dual_resolved\<rparr>) 3 (dg_data d2) = Inr w3 \<and>
    sent w3 = sent dual_resolved @ [d3] \<and> dport d3 = node_port dual_resolved 0 \<and>
    node_receive 0 example_env (w3\<lparr>sent := sent dual_resolved\<rparr>) 0 (dg_data d3) = Inr w4 \<and>
    sent w4 = sent dual_resolved @ [d4] \<and> dport d4 = node_port dual_resolved 2 \<and>
    length (dg_data d4) = length (dg_data d3) + 4 \<and>
    node_receive (Suc 0) example_env (w4\<lparr>sent := sent dual_resolved\<rparr>) 2 (dg_data d4) = Inr w5 \<and> sent w5 = sent dual_resolved \<and>
    reports w5 = reports dual_resolved @ [Echo_reply_received 2 12 [] 1 64] \<and>
    same_config (topo dual_resolved) (topo w5) \<and>
    reach_across (topo w5) (1, Intf2) (2, Intf2) 2 3 0 0x0101010A 0x0201010A 10"
  by (rule ping_crosses_switch [OF dual_resolved_ok dual_reach])

end
